(* ===== verification/Float64.thy ===== *)
theory Float64
  imports Prelude "HOL-Library.Log_Nat" Complex_Main
begin

text \<open>
  Rust's \<open>f64\<close>: IEEE 754 binary64 with rounding to nearest, ties to even. A finite value is
  the rational it denotes; the two infinities, NaN and negative zero are constructors of
  their own. Every arithmetic result is computed exactly and then rounded to 53 significant
  bits with the exponent range of binary64, so the operations are executable and agree with
  the hardware on representable operands. The transcendental functions have unspecified
  precision in Rust and are parameters where the sources use them.
\<close>

datatype f64 = NaN | Infinity bool | NegZero | Finite rat

section \<open>Rounding\<close>

text \<open>The position of the leading bit of a positive rational.\<close>

definition ilog2 :: "rat \<Rightarrow> int" where
  "ilog2 q = (if 1 \<le> q then bitlen \<lfloor>q\<rfloor> - 1 else - bitlen (\<lceil>inverse q\<rceil> - 1))"

text \<open>Round to the nearest integer, ties to even.\<close>

definition round_even :: "rat \<Rightarrow> int" where
  "round_even q = (let f = \<lfloor>q\<rfloor>; d = q - of_int f in
     if d < 1/2 then f else if 1/2 < d then f + 1 else if even f then f else f + 1)"

text \<open>The exponent of the last bit of a positive rational in binary64.\<close>

definition ulp_exp :: "rat \<Rightarrow> int" where
  "ulp_exp q = max (ilog2 q - 52) (- 1074)"

definition round_pos :: "rat \<Rightarrow> rat" where
  "round_pos q = (let u = 2 powi ulp_exp q in of_int (round_even (q / u)) * u)"

text \<open>
  An exact result with the sign its zero has: values whose magnitude rounds to
  \<open>2 ^ 1024\<close> or more overflow to an infinity.
\<close>

definition f64_overflow :: rat where
  "f64_overflow = 2 ^ 1024"

definition f64_of_rat :: "bool \<Rightarrow> rat \<Rightarrow> f64" where
  "f64_of_rat neg q =
     (if q = 0 then (if neg then NegZero else Finite 0)
      else let r = round_pos \<bar>q\<bar> in
        if f64_overflow \<le> r then Infinity (q < 0)
        else if r = 0 then (if q < 0 then NegZero else Finite 0)
        else Finite (if q < 0 then - r else r))"

section \<open>Classification and comparison\<close>

fun is_nan :: "f64 \<Rightarrow> bool" where
  "is_nan NaN = True"
| "is_nan _ = False"

fun is_finite :: "f64 \<Rightarrow> bool" where
  "is_finite NegZero = True"
| "is_finite (Finite _) = True"
| "is_finite _ = False"

fun sign_bit :: "f64 \<Rightarrow> bool" where
  "sign_bit (Infinity n) = n"
| "sign_bit NegZero = True"
| "sign_bit (Finite q) = (q < 0)"
| "sign_bit NaN = False"

fun f64_val :: "f64 \<Rightarrow> rat" where
  "f64_val (Finite q) = q"
| "f64_val _ = 0"

text \<open>The comparison operators: false as soon as an operand is NaN.\<close>

definition f64_le :: "f64 \<Rightarrow> f64 \<Rightarrow> bool" where
  "f64_le x y \<longleftrightarrow> \<not> is_nan x \<and> \<not> is_nan y \<and>
     (x = Infinity True \<or> y = Infinity False \<or>
      is_finite x \<and> is_finite y \<and> f64_val x \<le> f64_val y)"

definition f64_lt :: "f64 \<Rightarrow> f64 \<Rightarrow> bool" where
  "f64_lt x y \<longleftrightarrow> f64_le x y \<and> \<not> f64_le y x"

abbreviation f64_zero :: f64 where
  "f64_zero \<equiv> Finite 0"

section \<open>Arithmetic\<close>

fun f64_neg :: "f64 \<Rightarrow> f64" where
  "f64_neg NaN = NaN"
| "f64_neg (Infinity n) = Infinity (\<not> n)"
| "f64_neg NegZero = Finite 0"
| "f64_neg (Finite q) = (if q = 0 then NegZero else Finite (- q))"

fun f64_add :: "f64 \<Rightarrow> f64 \<Rightarrow> f64" where
  "f64_add NaN _ = NaN"
| "f64_add _ NaN = NaN"
| "f64_add (Infinity m) (Infinity n) = (if m = n then Infinity m else NaN)"
| "f64_add (Infinity m) _ = Infinity m"
| "f64_add _ (Infinity n) = Infinity n"
| "f64_add x y = f64_of_rat (sign_bit x \<and> sign_bit y) (f64_val x + f64_val y)"

definition f64_sub :: "f64 \<Rightarrow> f64 \<Rightarrow> f64" where
  "f64_sub x y = f64_add x (f64_neg y)"

fun f64_mul :: "f64 \<Rightarrow> f64 \<Rightarrow> f64" where
  "f64_mul NaN _ = NaN"
| "f64_mul _ NaN = NaN"
| "f64_mul (Infinity m) (Infinity n) = Infinity (m \<noteq> n)"
| "f64_mul (Infinity m) y = (if f64_val y = 0 then NaN else Infinity (m \<noteq> sign_bit y))"
| "f64_mul x (Infinity n) = (if f64_val x = 0 then NaN else Infinity (sign_bit x \<noteq> n))"
| "f64_mul x y = f64_of_rat (sign_bit x \<noteq> sign_bit y) (f64_val x * f64_val y)"

fun f64_div :: "f64 \<Rightarrow> f64 \<Rightarrow> f64" where
  "f64_div NaN _ = NaN"
| "f64_div _ NaN = NaN"
| "f64_div (Infinity m) (Infinity n) = NaN"
| "f64_div (Infinity m) y = Infinity (m \<noteq> sign_bit y)"
| "f64_div x (Infinity n) = f64_of_rat (sign_bit x \<noteq> n) 0"
| "f64_div x y =
     (if f64_val y = 0 then (if f64_val x = 0 then NaN else Infinity (sign_bit x \<noteq> sign_bit y))
      else f64_of_rat (sign_bit x \<noteq> sign_bit y) (f64_val x / f64_val y))"

text \<open>\<open>f64::min\<close> and \<open>f64::max\<close> ignore a NaN operand.\<close>

definition f64_min :: "f64 \<Rightarrow> f64 \<Rightarrow> f64" where
  "f64_min x y = (if is_nan x then y else if is_nan y then x else if f64_lt y x then y else x)"

definition f64_max :: "f64 \<Rightarrow> f64 \<Rightarrow> f64" where
  "f64_max x y = (if is_nan x then y else if is_nan y then x else if f64_lt x y then y else x)"

text \<open>\<open>f64::round\<close>: to the nearest integer, halves away from zero.\<close>

fun f64_round :: "f64 \<Rightarrow> f64" where
  "f64_round (Finite q) =
     (if q < 0 then f64_of_rat True (- of_int \<lfloor>1/2 - q\<rfloor>) else f64_of_rat False (of_int \<lfloor>q + 1/2\<rfloor>))"
| "f64_round x = x"

text \<open>
  \<open>f64::sqrt\<close> is correctly rounded. With the last place of the root at \<open>2 powi e\<close>, its
  integer part is an integer square root, and comparing with the midpoint decides the
  rounding.
\<close>

fun isqrt :: "nat \<Rightarrow> nat" where
  "isqrt n = (if n = 0 then 0
     else let r = 2 * isqrt (n div 4) in if (r + 1) * (r + 1) \<le> n then r + 1 else r)"

definition round_sqrt :: "rat \<Rightarrow> rat" where
  "round_sqrt q = (let e = ilog2 q div 2 - 52; y = q / 2 powi (2 * e);
     n = isqrt (nat \<lfloor>y\<rfloor>); mid = (of_nat n + 1/2) * (of_nat n + 1/2);
     r = (if y < mid then n else if mid < y then n + 1 else if even n then n else n + 1)
     in of_nat r * 2 powi e)"

fun f64_sqrt :: "f64 \<Rightarrow> f64" where
  "f64_sqrt NegZero = NegZero"
| "f64_sqrt (Infinity n) = (if n then NaN else Infinity False)"
| "f64_sqrt NaN = NaN"
| "f64_sqrt (Finite q) =
     (if q < 0 then NaN else if q = 0 then Finite 0 else Finite (round_sqrt q))"

text \<open>The \<open>as\<close> casts: from \<open>u64\<close> with rounding, to \<open>u64\<close> with saturation.\<close>

definition f64_of_u64 :: "u64 \<Rightarrow> f64" where
  "f64_of_u64 w = f64_of_rat False (of_nat (unat w))"

fun f64_to_u64 :: "f64 \<Rightarrow> u64" where
  "f64_to_u64 NaN = 0"
| "f64_to_u64 (Infinity n) = (if n then 0 else - 1)"
| "f64_to_u64 NegZero = 0"
| "f64_to_u64 (Finite q) =
     (if q \<le> 0 then 0 else if 2 ^ 64 \<le> \<lfloor>q\<rfloor> then - 1 else of_int \<lfloor>q\<rfloor>)"

section \<open>Properties of rounding\<close>

lemma bitlen_pos: "0 < n \<Longrightarrow> 0 < bitlen n"
  using bitlen_nonneg [of n] bitlen_eq_zero_iff [of n] by linarith

lemma ilog2_bounds:
  assumes "0 < q"
  shows "2 powi ilog2 q \<le> q" and "q < 2 powi (ilog2 q + 1)"
proof -
  have A: "2 powi ilog2 q \<le> q \<and> q < 2 powi (ilog2 q + 1)"
  proof (cases "1 \<le> q")
    case True
    then have pos: "0 < \<lfloor>q\<rfloor>" by simp
    define n where "n = nat (bitlen \<lfloor>q\<rfloor>)"
    have n: "bitlen \<lfloor>q\<rfloor> = int n" "0 < n"
      using bitlen_pos [OF pos] by (auto simp: n_def)
    have b: "2 ^ (n - 1) \<le> \<lfloor>q\<rfloor>" "\<lfloor>q\<rfloor> < 2 ^ n"
      using bitlen_bounds [OF pos] n by (simp_all add: nat_diff_distrib)
    have "(of_int (2 ^ (n - 1)) :: rat) \<le> of_int \<lfloor>q\<rfloor>" "(of_int (\<lfloor>q\<rfloor> + 1) :: rat) \<le> of_int (2 ^ n)"
      using b by (simp_all only: of_int_le_iff)
    then have "(2::rat) ^ (n - 1) \<le> of_int \<lfloor>q\<rfloor>" "of_int \<lfloor>q\<rfloor> + 1 \<le> (2::rat) ^ n"
      by (simp_all only: of_int_power of_int_numeral of_int_add of_int_1)
    then have "2 ^ (n - 1) \<le> q" "q < 2 ^ n"
      by linarith+
    moreover have "ilog2 q = int (n - 1)" using True n by (simp add: ilog2_def)
    moreover have "ilog2 q + 1 = int n" using True n by (simp add: ilog2_def)
    ultimately show ?thesis by (simp only: power_int_of_nat)
  next
    case False
    have r: "1 < inverse q" using assms False by (simp add: one_less_inverse)
    define c where "c = \<lceil>inverse q\<rceil> - 1"
    have c0: "0 < c" using r by (simp add: c_def)
    define n where "n = nat (bitlen c)"
    have n: "bitlen c = int n" "0 < n"
      using bitlen_pos [OF c0] by (auto simp: n_def)
    have b: "2 ^ (n - 1) \<le> c" "c < 2 ^ n"
      using bitlen_bounds [OF c0] n by (simp_all add: nat_diff_distrib)
    have ce: "of_int c < inverse q" "inverse q \<le> of_int c + 1"
      unfolding c_def by linarith+
    have "(of_int (2 ^ (n - 1)) :: rat) \<le> of_int c" "(of_int (c + 1) :: rat) \<le> of_int (2 ^ n)"
      using b by (simp_all only: of_int_le_iff)
    then have "(2::rat) ^ (n - 1) \<le> of_int c" "of_int c + 1 \<le> (2::rat) ^ n"
      by (simp_all only: of_int_power of_int_numeral of_int_add of_int_1)
    then have i: "2 ^ (n - 1) < inverse q" "inverse q \<le> 2 ^ n"
      using ce by linarith+
    have "q < inverse (2 ^ (n - 1))"
      using i(1) assms less_imp_inverse_less [of "2 ^ (n - 1)" "inverse q"] by simp
    moreover have "inverse (2 ^ n) \<le> q"
      using i(2) assms le_imp_inverse_le [of "inverse q" "2 ^ n"] by simp
    moreover have "ilog2 q = - int n" using False n by (simp add: ilog2_def c_def)
    moreover have "ilog2 q + 1 = - int (n - 1)" using False n by (simp add: ilog2_def c_def)
    ultimately show ?thesis by (simp only: power_int_minus power_int_of_nat)
  qed
  show "2 powi ilog2 q \<le> q" and "q < 2 powi (ilog2 q + 1)"
    using A by simp_all
qed

lemma powi_two_mono: "a \<le> b \<Longrightarrow> (2 :: rat) powi a \<le> 2 powi b"
  by (simp add: power_int_increasing)

lemma powi_two_less_iff: "(2 :: rat) powi a < 2 powi b \<longleftrightarrow> a < b"
  by (metis leD leI powi_two_mono power_int_strict_increasing one_less_numeral_iff semiring_norm(76))

lemma ilog2_mono:
  assumes "0 < q" "q \<le> r"
  shows "ilog2 q \<le> ilog2 r"
proof -
  have "(2 :: rat) powi ilog2 q < 2 powi (ilog2 r + 1)"
    using ilog2_bounds(1) [of q] ilog2_bounds(2) [of r] assms by linarith
  then show ?thesis by (simp add: powi_two_less_iff)
qed

lemma round_even_of_int [simp]: "round_even (of_int n) = n"
  by (simp add: round_even_def)

lemma round_even_near: "\<bar>of_int (round_even q) - q\<bar> \<le> 1/2"
proof -
  have "of_int \<lfloor>q\<rfloor> \<le> q" "q < of_int \<lfloor>q\<rfloor> + 1" by linarith+
  then show ?thesis unfolding round_even_def Let_def
    by (simp add: abs_le_iff del: of_int_floor_le)
qed

lemma round_even_mono:
  assumes "q \<le> r"
  shows "round_even q \<le> round_even r"
proof (cases "\<lfloor>q\<rfloor> = \<lfloor>r\<rfloor>")
  case True
  then show ?thesis using assms by (auto simp: round_even_def Let_def)
next
  case False
  then have "\<lfloor>q\<rfloor> + 1 \<le> \<lfloor>r\<rfloor>" using floor_mono [OF assms] by linarith
  moreover have "round_even q \<le> \<lfloor>q\<rfloor> + 1" "\<lfloor>r\<rfloor> \<le> round_even r"
    by (auto simp: round_even_def Let_def)
  ultimately show ?thesis by linarith
qed

lemma round_even_ge: "of_int n \<le> q \<Longrightarrow> n \<le> round_even q"
  using round_even_mono [of "of_int n" q] by simp

lemma round_even_le: "q \<le> of_int n \<Longrightarrow> round_even q \<le> n"
  using round_even_mono [of q "of_int n"] by simp

text \<open>A value on a grid of powers of two coarser than its last place is rounded to itself.\<close>

lemma round_pos_ge_grid:
  assumes "0 < q" "of_int n * 2 powi ulp_exp q \<le> q"
  shows "of_int n * 2 powi ulp_exp q \<le> round_pos q"
proof -
  have "of_int n \<le> q / 2 powi ulp_exp q"
    using assms by (simp add: pos_le_divide_eq)
  then have "n \<le> round_even (q / 2 powi ulp_exp q)" by (rule round_even_ge)
  then show ?thesis by (simp add: round_pos_def Let_def)
qed

lemma round_pos_le_grid:
  assumes "0 < q" "q \<le> of_int n * 2 powi ulp_exp q"
  shows "round_pos q \<le> of_int n * 2 powi ulp_exp q"
proof -
  have "q / 2 powi ulp_exp q \<le> of_int n"
    using assms by (simp add: pos_divide_le_eq)
  then have "round_even (q / 2 powi ulp_exp q) \<le> n" by (rule round_even_le)
  then show ?thesis by (simp add: round_pos_def Let_def)
qed

lemma round_pos_nonneg: "0 < q \<Longrightarrow> 0 \<le> round_pos q"
  using round_pos_ge_grid [of q 0] by simp

lemma round_pos_mono:
  assumes "0 < q" "q \<le> r"
  shows "round_pos q \<le> round_pos r"
proof (cases "ulp_exp q = ulp_exp r")
  case True
  then have "round_even (q / 2 powi ulp_exp q) \<le> round_even (r / 2 powi ulp_exp r)"
    using assms by (intro round_even_mono) (simp add: divide_right_mono)
  then show ?thesis using True by (simp add: round_pos_def Let_def)
next
  case False
  have r0: "0 < r" using assms by linarith
  have lt: "ulp_exp q < ulp_exp r"
    using False ilog2_mono [OF assms] by (auto simp: ulp_exp_def)
  then have er: "ulp_exp r = ilog2 r - 52"
    by (auto simp: ulp_exp_def)
  have split: "(2::rat) powi (e + 52) = of_int (2 ^ 52) * 2 powi e"
    "(2::rat) powi (e + 53) = of_int (2 ^ 53) * 2 powi e" for e
    by (simp_all add: power_int_add)
  have "2 powi (ulp_exp r + 52) \<le> r" using ilog2_bounds(1) [OF r0] er by simp
  then have up: "2 powi (ulp_exp r + 52) \<le> round_pos r"
    using round_pos_ge_grid [OF r0, of "2 ^ 52"] by (simp only: split)
  have "q < 2 powi (ilog2 q + 1)" by (rule ilog2_bounds(2) [OF assms(1)])
  also have "\<dots> \<le> 2 powi (ulp_exp q + 53)"
    by (rule powi_two_mono) (simp add: ulp_exp_def)
  finally have "round_pos q \<le> 2 powi (ulp_exp q + 53)"
    using round_pos_le_grid [OF assms(1), of "2 ^ 53"] by (simp only: split)
  also have "\<dots> \<le> 2 powi (ulp_exp r + 52)"
    using lt by (intro powi_two_mono) simp
  finally show ?thesis using up by linarith
qed

text \<open>Integers of at most 53 bits are exact.\<close>

lemma round_pos_int:
  assumes "0 < n" "n \<le> 2 ^ 53"
  shows "round_pos (of_nat n) = of_nat n"
proof -
  have n0: "(0::rat) < of_nat n" using assms by simp
  have "(of_nat n :: rat) \<le> of_nat (2 ^ 53)" using assms(2) by (simp only: of_nat_le_iff)
  then have le: "(2::rat) powi ilog2 (of_nat n) \<le> 2 powi 53"
    using ilog2_bounds(1) [OF n0] by simp
  have e53: "ilog2 (of_nat n) \<le> 53"
    using le powi_two_less_iff [of 53 "ilog2 (of_nat n)"] by linarith
  define e where "e = ulp_exp (of_nat n)"
  have "\<exists>k::int. of_nat n = (of_int k :: rat) * 2 powi e"
  proof (cases "e \<le> 0")
    case True
    then have "(of_nat n :: rat) = of_int (int n * 2 ^ nat (- e)) * 2 powi e"
      by (simp add: power_int_def flip: power_mult_distrib)
    then show ?thesis by blast
  next
    case False
    then have "e = 1" "ilog2 (of_nat n) = 53" using e53 by (auto simp: e_def ulp_exp_def)
    then have "(2::rat) powi 53 \<le> of_nat n" using ilog2_bounds(1) [OF n0] by simp
    then have "(of_nat (2 ^ 53) :: rat) \<le> of_nat n" by simp
    then have "n = 2 ^ 53" using assms(2) by (simp only: of_nat_le_iff)
    then have "(of_nat n :: rat) = of_int (2 ^ 52) * 2 powi e" using \<open>e = 1\<close> by simp
    then show ?thesis by blast
  qed
  then obtain k :: int where k: "(of_nat n :: rat) = of_int k * 2 powi e" by blast
  then have "(of_nat n :: rat) / 2 powi e = of_int k" by simp
  then have "round_pos (of_nat n) = of_int k * 2 powi e"
    unfolding round_pos_def Let_def e_def [symmetric] by simp
  with k show ?thesis by simp
qed

lemma round_pos_zero_or_pos: "0 < q \<Longrightarrow> round_pos q = 0 \<or> 0 < round_pos q"
  using round_pos_nonneg [of q] by (simp add: less_le)

section \<open>Properties of the operations\<close>

lemma f64_le_Finite [simp]: "f64_le (Finite a) (Finite b) \<longleftrightarrow> a \<le> b"
  by (simp add: f64_le_def)

lemma f64_le_Infinity [simp]:
  "f64_le x (Infinity False) \<longleftrightarrow> \<not> is_nan x"
  "f64_le (Infinity True) x \<longleftrightarrow> \<not> is_nan x"
  by (auto simp: f64_le_def)

lemma f64_le_nanD: "f64_le x y \<Longrightarrow> \<not> is_nan x \<and> \<not> is_nan y"
  by (simp add: f64_le_def)

lemma f64_le_refl: "\<not> is_nan x \<Longrightarrow> f64_le x x"
  by (cases x) (auto simp: f64_le_def)

lemma f64_le_trans: "f64_le x y \<Longrightarrow> f64_le y z \<Longrightarrow> f64_le x z"
  by (auto simp: f64_le_def)

lemma f64_le_linear: "\<not> is_nan x \<Longrightarrow> \<not> is_nan y \<Longrightarrow> f64_le x y \<or> f64_le y x"
  by (cases x; cases y) (auto simp: f64_le_def)

lemma f64_lt_iff: "f64_lt x y \<longleftrightarrow> \<not> is_nan x \<and> \<not> is_nan y \<and> \<not> f64_le y x"
  using f64_le_linear [of x y] by (auto simp: f64_lt_def dest: f64_le_nanD)

lemma is_nan_iff [simp]: "is_nan x \<longleftrightarrow> x = NaN"
  by (cases x) simp_all

lemma f64_of_rat_not_nan [simp]: "f64_of_rat neg q \<noteq> NaN"
  by (simp add: f64_of_rat_def Let_def)

lemma f64_of_rat_nat [simp]:
  "n \<le> 2 ^ 53 \<Longrightarrow> f64_of_rat False (of_nat n) = Finite (of_nat n)"
proof (cases "n = 0")
  case False
  assume n: "n \<le> 2 ^ 53"
  then have "(of_nat n :: rat) \<le> of_nat (2 ^ 53)" by (simp only: of_nat_le_iff)
  also have "\<dots> < f64_overflow" by (simp add: f64_overflow_def)
  finally show ?thesis
    using False round_pos_int [of n] n by (simp add: f64_of_rat_def Let_def)
qed (simp add: f64_of_rat_def)

lemma f64_of_rat_mono_pos:
  assumes "0 < a" "a \<le> b"
  shows "f64_le (f64_of_rat m a) (f64_of_rat n b)"
  using assms round_pos_mono [OF assms] round_pos_zero_or_pos [of a] round_pos_zero_or_pos [of b]
  by (auto simp: f64_of_rat_def f64_le_def Let_def)

lemma f64_of_rat_nonneg: "0 \<le> q \<Longrightarrow> f64_le f64_zero (f64_of_rat n q)"
  using round_pos_zero_or_pos [of q] by (auto simp: f64_of_rat_def f64_le_def Let_def)

lemma f64_of_rat_ge_nat:
  assumes "n \<le> 2 ^ 53" "of_nat n \<le> q"
  shows "f64_le (Finite (of_nat n)) (f64_of_rat m q)"
proof (cases "n = 0")
  case True
  then show ?thesis using assms f64_of_rat_nonneg [of q m] by simp
next
  case False
  then show ?thesis
    using f64_of_rat_mono_pos [of "of_nat n" q False m] assms by simp
qed

lemma f64_of_u64_not_nan [simp]: "f64_of_u64 w \<noteq> NaN"
  by (simp add: f64_of_u64_def)

lemma f64_of_u64_nonneg: "f64_le f64_zero (f64_of_u64 w)"
  unfolding f64_of_u64_def by (rule f64_of_rat_nonneg) (rule of_nat_0_le_iff)

lemma f64_of_u64_exact: "unat w \<le> 2 ^ 53 \<Longrightarrow> f64_of_u64 w = Finite (of_nat (unat w))"
  unfolding f64_of_u64_def by (rule f64_of_rat_nat)

text \<open>Adding a non-negative value to an exact integer does not go below it.\<close>

lemma f64_add_ge_nat:
  assumes "n \<le> 2 ^ 53" "f64_le f64_zero y"
  shows "f64_le (Finite (of_nat n)) (f64_add (Finite (of_nat n)) y)"
proof (cases y)
  case (Finite q)
  then show ?thesis using assms f64_of_rat_ge_nat [of n "of_nat n + q"] by simp
next
  case NegZero
  then show ?thesis using assms f64_of_rat_ge_nat [of n "of_nat n"] by simp
qed (use assms in \<open>auto simp: f64_le_def\<close>)

lemma f64_min_le: "\<not> is_nan y \<Longrightarrow> f64_le (f64_min x y) y"
  using f64_le_linear [of x y] f64_le_refl [of y]
  by (auto simp: f64_min_def f64_lt_def)

lemma f64_max_ge: "\<not> is_nan y \<Longrightarrow> f64_le y (f64_max x y)"
  using f64_le_linear [of x y] f64_le_refl [of y]
  by (auto simp: f64_max_def f64_lt_def)

lemma f64_min_geI: "f64_le z x \<Longrightarrow> f64_le z y \<Longrightarrow> f64_le z (f64_min x y)"
  by (auto simp: f64_min_def)

lemma f64_max_geI1: "f64_le z x \<Longrightarrow> f64_le z (f64_max x y)"
  by (auto simp: f64_max_def f64_lt_def dest: f64_le_nanD intro: f64_le_trans)

lemma f64_max_leI: "f64_le x z \<Longrightarrow> f64_le y z \<Longrightarrow> f64_le (f64_max x y) z"
  by (auto simp: f64_max_def)

lemma f64_round_ge_nat:
  assumes "n \<le> 2 ^ 53" "f64_le (Finite (of_nat n)) x"
  shows "f64_le (Finite (of_nat n)) (f64_round x)"
proof (cases x)
  case (Finite q)
  then have q: "of_nat n \<le> q" using assms(2) by simp
  then have "(of_nat n :: rat) \<le> of_int \<lfloor>q + 1/2\<rfloor>"
    using le_floor_iff [of "int n" "q + 1/2"] by simp
  moreover have "\<not> q < 0" using q by (meson leD of_nat_0_le_iff order_trans)
  ultimately show ?thesis using Finite f64_of_rat_ge_nat [OF assms(1)] by simp
qed (use assms in \<open>auto simp: f64_le_def\<close>)

lemma f64_to_u64_ge_nat:
  assumes "n < 2 ^ 64" "f64_le (Finite (of_nat n)) x"
  shows "n \<le> unat (f64_to_u64 x)"
proof (cases x)
  case (Finite q)
  then have q: "int n \<le> \<lfloor>q\<rfloor>" using assms(2) by (simp add: le_floor_iff)
  have z: "n = 0" if "q \<le> 0"
    using assms(2) Finite that order_trans [of "of_nat n" q 0] by simp
  show ?thesis
  proof (cases "q \<le> 0 \<or> 2 ^ 64 \<le> \<lfloor>q\<rfloor>")
    case True
    then show ?thesis
      using Finite z assms(1) by (auto simp: unat_minus_one_word)
  next
    case False
    then have "unat (of_int \<lfloor>q\<rfloor> :: u64) = nat \<lfloor>q\<rfloor>"
      using q by (simp add: unat_eq_nat_uint uint_word_of_int_eq take_bit_int_eq_self)
    then show ?thesis using Finite False q by simp
  qed
next
  case NegZero
  then show ?thesis using assms by (simp add: f64_le_def)
qed (use assms in \<open>auto simp: f64_le_def unat_minus_one_word\<close>)

declare isqrt.simps [simp del]

lemma isqrt_bounds: "isqrt n * isqrt n \<le> n \<and> n < (isqrt n + 1) * (isqrt n + 1)"
proof (induction n rule: isqrt.induct)
  case (1 n)
  show ?case
  proof (cases "n = 0")
    case False
    define r where "r = isqrt (n div 4)"
    define s where "s = 2 * r"
    have IH: "r * r \<le> n div 4" "n div 4 < (r + 1) * (r + 1)"
      using "1.IH" [OF False] unfolding r_def by (rule conjunct1, rule conjunct2)
    have lo: "s * s \<le> n" using IH(1) by (simp add: s_def)
    have "n < 4 * ((r + 1) * (r + 1))" using IH(2) by linarith
    then have hi: "n < (s + 2) * (s + 2)" by (simp add: s_def algebra_simps)
    have "isqrt n = (if (s + 1) * (s + 1) \<le> n then s + 1 else s)"
      by (subst isqrt.simps) (simp only: False Let_def r_def s_def if_False)
    with lo hi show ?thesis by simp
  qed (simp add: isqrt.simps)
qed

lemma f64_sqrt_nonneg: "f64_le f64_zero x \<Longrightarrow> f64_le f64_zero (f64_sqrt x)"
  by (cases x) (auto simp: f64_le_def round_sqrt_def Let_def)

text \<open>The root of a positive value lies within one unit in the last place of the exact root.\<close>

lemma round_sqrt_bounds:
  assumes "0 < q"
  defines "u \<equiv> 2 powi (ilog2 q div 2 - 52)"
  shows "(max 0 (round_sqrt q - u)) * (max 0 (round_sqrt q - u)) \<le> q
    \<and> q < (round_sqrt q + u) * (round_sqrt q + u)"
proof -
  define e where "e = ilog2 q div 2 - 52"
  define y where "y = q / 2 powi (2 * e)"
  define n where "n = isqrt (nat \<lfloor>y\<rfloor>)"
  define r where "r = round_sqrt q / u"
  have u0: "0 < u" by (simp add: u_def)
  have ue: "u = 2 powi e" by (simp only: u_def e_def)
  have uu: "(2::rat) powi (2 * e) = u * u"
    unfolding ue mult_2 by (rule power_int_add) simp
  have q: "q = y * (u * u)" using u0 unfolding y_def uu by simp
  have y0: "0 \<le> y" using assms(1) u0 unfolding y_def uu by simp
  have "n * n \<le> nat \<lfloor>y\<rfloor>" "nat \<lfloor>y\<rfloor> < (n + 1) * (n + 1)"
    using isqrt_bounds [of "nat \<lfloor>y\<rfloor>"] by (simp_all add: n_def)
  then have "int (n * n) \<le> \<lfloor>y\<rfloor>" "\<lfloor>y\<rfloor> < int ((n + 1) * (n + 1))"
    using y0 by linarith+
  then have n: "of_nat n * of_nat n \<le> y" "y < (of_nat n + 1) * (of_nat n + 1)"
    by (simp_all add: le_floor_iff floor_less_iff algebra_simps)
  have "r = of_nat n \<or> r = of_nat n + 1"
    using u0 unfolding r_def round_sqrt_def Let_def e_def [symmetric] ue
    unfolding y_def [symmetric] n_def [symmetric] by simp
  then have r: "max 0 (r - 1) * max 0 (r - 1) \<le> y \<and> y < (r + 1) * (r + 1)"
  proof
    assume [simp]: "r = of_nat n"
    have "max 0 (r - 1) \<le> of_nat n" by simp
    then have "max 0 (r - 1) * max 0 (r - 1) \<le> of_nat n * of_nat n" by (intro mult_mono) simp_all
    with n show ?thesis by simp
  next
    assume [simp]: "r = of_nat n + 1"
    have "(of_nat n + 1) * (of_nat n + 1) \<le> (r + 1) * (r + 1)" by (intro mult_mono) simp_all
    with n show ?thesis by simp
  qed
  have s: "round_sqrt q = r * u" using u0 by (simp add: r_def)
  have m: "max 0 (r * u - u) = max 0 (r - 1) * u"
    using u0 by (auto simp: max_def algebra_simps mult_le_0_iff)
  have "max 0 (r - 1) * max 0 (r - 1) * (u * u) \<le> y * (u * u)"
    "y * (u * u) < (r + 1) * (r + 1) * (u * u)"
    using r u0 by (auto intro: mult_right_mono)
  then have "(max 0 (r - 1) * u) * (max 0 (r - 1) * u) \<le> q \<and> q < (r * u + u) * (r * u + u)"
    unfolding q by (simp add: algebra_simps)
  then show ?thesis unfolding s m .
qed

text \<open>Sign rules.\<close>

lemma f64_nonneg_iff:
  "f64_le f64_zero x \<longleftrightarrow> x = Infinity False \<or> x = NegZero \<or> (\<exists>q\<ge>0. x = Finite q)"
  by (cases x) (auto simp: f64_le_def)

lemma f64_add_nonneg:
  "f64_le f64_zero x \<Longrightarrow> f64_le f64_zero y \<Longrightarrow> f64_le f64_zero (f64_add x y)"
  unfolding f64_nonneg_iff [of x] f64_nonneg_iff [of y]
  by (auto intro!: f64_of_rat_nonneg)

lemma f64_mul_nonneg:
  "f64_le f64_zero x \<Longrightarrow> 0 \<le> q \<Longrightarrow> is_finite x \<Longrightarrow> f64_le f64_zero (f64_mul x (Finite q))"
  unfolding f64_nonneg_iff [of x] by (auto intro!: f64_of_rat_nonneg)

lemma f64_div_nonneg:
  "f64_le f64_zero x \<Longrightarrow> 0 < q \<Longrightarrow> f64_le f64_zero (f64_div x (Finite q))"
  unfolding f64_nonneg_iff [of x] by (auto intro!: f64_of_rat_nonneg)

end
