(* ===== verification/Float64_Order.thy ===== *)
theory Float64_Order
  imports Float64
begin

text \<open>
  Rounding is idempotent and monotone: the values of \<open>f64\<close> that are results of the arithmetic
  are representable, rounding keeps representable values and the order of exact results. Hence
  subtracting a non-negative value from a representable one never exceeds it.
\<close>

section \<open>Rounding keeps what it returns\<close>

lemma round_pos_exact:
  assumes "0 < q" "q = of_int n * 2 powi e" "ulp_exp q \<le> e"
  shows "round_pos q = q"
proof -
  define u where "u = ulp_exp q"
  define k where "k = nat (e - u)"
  have "e = u + int k" using assms(3) by (simp add: k_def u_def)
  then have e: "(2::rat) powi e = 2 powi u * 2 ^ k" by (simp add: power_int_add)
  have "q / 2 powi u = of_int (n * 2 ^ k)" unfolding assms(2) e by simp
  then have "round_pos q = of_int (n * 2 ^ k) * 2 powi u"
    unfolding round_pos_def Let_def u_def [symmetric] by (simp only: round_even_of_int)
  also have "\<dots> = q" unfolding assms(2) e by simp
  finally show ?thesis .
qed

lemma round_pos_idem:
  assumes "0 < q" "0 < round_pos q"
  shows "round_pos (round_pos q) = round_pos q"
proof -
  define u where "u = ulp_exp q"
  define m where "m = round_even (q / 2 powi u)"
  have r: "round_pos q = of_int m * 2 powi u" by (simp add: round_pos_def Let_def m_def u_def)
  have split: "(2::rat) powi (u + 53) = of_int (2 ^ 53) * 2 powi u" by (simp add: power_int_add)
  have "q < 2 powi (ilog2 q + 1)" by (rule ilog2_bounds(2) [OF assms(1)])
  also have "\<dots> \<le> 2 powi (u + 53)" by (rule powi_two_mono) (simp add: u_def ulp_exp_def)
  finally have "q / 2 powi u \<le> of_int (2 ^ 53)" unfolding split by (simp add: pos_divide_le_eq)
  then have m: "m \<le> 2 ^ 53" unfolding m_def by (rule round_even_le)
  have lo: "(2::rat) powi ilog2 (round_pos q) \<le> round_pos q" by (rule ilog2_bounds(1) [OF assms(2)])
  have "- 1074 \<le> u" by (simp add: u_def ulp_exp_def)
  show ?thesis
  proof (cases "m = 2 ^ 53")
    case True
    then have r': "round_pos q = of_int 1 * 2 powi (u + 53)" unfolding r split by simp
    then have "\<not> (2::rat) powi (u + 53) < 2 powi ilog2 (round_pos q)" using lo by simp
    then have "ilog2 (round_pos q) \<le> u + 53" by (simp only: powi_two_less_iff not_less)
    then show ?thesis
      using \<open>- 1074 \<le> u\<close> by (intro round_pos_exact [OF assms(2) r']) (simp add: ulp_exp_def)
  next
    case False
    then have "m < 2 ^ 53" using m by simp
    then have "(of_int m :: rat) < of_int (2 ^ 53)" by (simp only: of_int_less_iff)
    then have "round_pos q < 2 powi (u + 53)" unfolding r split by simp
    with lo have "(2::rat) powi ilog2 (round_pos q) < 2 powi (u + 53)" by simp
    then have "ilog2 (round_pos q) < u + 53" by (simp only: powi_two_less_iff)
    then show ?thesis
      using \<open>- 1074 \<le> u\<close> by (intro round_pos_exact [OF assms(2) r]) (simp add: ulp_exp_def)
  qed
qed

section \<open>Representable values\<close>

fun f64_repr :: "f64 \<Rightarrow> bool" where
  "f64_repr (Finite q) \<longleftrightarrow> f64_of_rat False q = Finite q"
| "f64_repr _ \<longleftrightarrow> True"

lemma f64_of_rat_repr: "f64_repr (f64_of_rat neg q)"
proof (cases "q = 0")
  case False
  define r where "r = round_pos \<bar>q\<bar>"
  have pos: "0 < \<bar>q\<bar>" using False by simp
  have "r = 0 \<or> 0 < r" unfolding r_def by (rule round_pos_zero_or_pos [OF pos])
  moreover have "0 < r \<Longrightarrow> round_pos r = r"
    unfolding r_def by (rule round_pos_idem [OF pos])
  ultimately show ?thesis
    using False by (auto simp: f64_of_rat_def Let_def r_def [symmetric])
qed (simp add: f64_of_rat_def)

lemma f64_of_rat_mono:
  assumes "q \<le> q'"
  shows "f64_le (f64_of_rat b q) (f64_of_rat b' q')"
proof (cases "0 < q \<or> q' < 0")
  case True
  then show ?thesis
  proof
    assume "0 < q"
    then show ?thesis by (rule f64_of_rat_mono_pos [OF _ assms])
  next
    assume "q' < 0"
    then have "round_pos (- q') \<le> round_pos (- q)" "0 < - q'" "0 < - q"
      using assms round_pos_mono [of "- q'" "- q"] by simp_all
    then show ?thesis
      using \<open>q' < 0\<close> assms round_pos_zero_or_pos [of "- q'"] round_pos_zero_or_pos [of "- q"]
      by (auto simp: f64_of_rat_def f64_le_def Let_def)
  qed
next
  case False
  then have "q \<le> 0" "0 \<le> q'" by simp_all
  then have "f64_le (f64_of_rat b q) f64_zero"
    using round_pos_zero_or_pos [of "- q"] by (auto simp: f64_of_rat_def f64_le_def Let_def)
  then show ?thesis using f64_of_rat_nonneg [OF \<open>0 \<le> q'\<close>] by (rule f64_le_trans)
qed

lemma f64_of_rat_repr_le:
  assumes "q \<le> q'" "f64_repr (Finite q')"
  shows "f64_le (f64_of_rat b q) (Finite q')"
  using f64_of_rat_mono [OF assms(1), of b False] assms(2) by simp

lemma f64_repr_zero: "f64_repr (Finite 0)"
  by (simp add: f64_of_rat_def)

lemma f64_add_repr: "f64_repr (f64_add x y)"
  by (cases x; cases y) (simp_all add: f64_of_rat_repr del: f64_repr.simps(1))

lemma f64_neg_sub_repr: "f64_repr (f64_sub x y)"
  by (simp add: f64_sub_def f64_add_repr)

lemma f64_of_u64_repr: "f64_repr (f64_of_u64 w)"
  by (simp add: f64_of_u64_def f64_of_rat_repr)

lemma f64_min_repr: "f64_repr x \<Longrightarrow> f64_repr y \<Longrightarrow> f64_repr (f64_min x y)"
  by (simp add: f64_min_def)

text \<open>Subtracting a finite non-negative value does not exceed the minuend.\<close>

lemma f64_sub_finite:
  "is_finite x \<Longrightarrow> is_finite y \<Longrightarrow> \<exists>b. f64_sub x y = f64_of_rat b (f64_val x - f64_val y)"
  unfolding f64_sub_def by (cases x; cases y) auto

lemma f64_sub_infinity: "is_finite y \<Longrightarrow> f64_sub (Infinity n) y = Infinity n"
  unfolding f64_sub_def by (cases y) auto

lemma f64_sub_le:
  assumes "f64_repr x" "x \<noteq> NaN" "x \<noteq> Infinity True" "f64_le f64_zero y" "is_finite y"
  shows "f64_le (f64_sub x y) x" "f64_sub x y \<noteq> NaN" "f64_sub x y \<noteq> Infinity False \<or> x = Infinity False"
proof -
  have q: "0 \<le> f64_val y" using assms(4,5) by (auto simp: f64_nonneg_iff)
  consider "x = Infinity False" | "is_finite x" using assms(2,3) by (cases x) auto
  then have "f64_le (f64_sub x y) x \<and> f64_sub x y \<noteq> NaN"
  proof cases
    case 1
    then show ?thesis by (simp add: f64_sub_infinity [OF assms(5)])
  next
    case 2
    obtain b where s: "f64_sub x y = f64_of_rat b (f64_val x - f64_val y)"
      using f64_sub_finite [OF 2 assms(5)] by blast
    have "f64_repr (Finite (f64_val x))" using 2 assms(1) f64_repr_zero by (cases x) auto
    then have "f64_le (f64_sub x y) (Finite (f64_val x))"
      unfolding s by (rule f64_of_rat_repr_le [rotated]) (use q in simp)
    moreover have "f64_le (Finite (f64_val x)) x" using 2 by (cases x) (auto simp: f64_le_def)
    ultimately show ?thesis using f64_le_trans by (simp add: s)
  qed
  then show "f64_le (f64_sub x y) x" "f64_sub x y \<noteq> NaN" by simp_all
  then show "f64_sub x y \<noteq> Infinity False \<or> x = Infinity False"
    using assms(2,3) by (cases x) (auto simp: f64_le_def)
qed

lemma f64_repr_2_64: "f64_repr (Finite (2 ^ 64))"
proof -
  have "(2::rat) powi ilog2 (2 ^ 64) \<le> 2 powi 64" using ilog2_bounds(1) [of "2 ^ 64"] by simp
  then have "\<not> (2::rat) powi 64 < 2 powi ilog2 (2 ^ 64)" by (simp only: not_less)
  then have "ilog2 (2 ^ 64) \<le> 64" by (simp only: powi_two_less_iff not_less)
  then have "round_pos (2 ^ 64) = 2 ^ 64"
    by (intro round_pos_exact [where n = 1 and e = 64]) (simp_all add: ulp_exp_def)
  then show ?thesis by (simp add: f64_of_rat_def f64_overflow_def)
qed

lemma f64_of_u64_finite: "is_finite (f64_of_u64 w)"
proof -
  have "(of_nat (unat w) :: rat) \<le> of_nat (2 ^ 64)"
    using unat_bound [of w] by (simp only: of_nat_le_iff) simp
  then have "(of_nat (unat w) :: rat) \<le> 2 ^ 64" by simp
  then have "f64_le (f64_of_u64 w) (Finite (2 ^ 64))"
    unfolding f64_of_u64_def using f64_repr_2_64 by (rule f64_of_rat_repr_le)
  moreover have "f64_le f64_zero (f64_of_u64 w)" by (rule f64_of_u64_nonneg)
  ultimately show ?thesis by (auto simp: f64_le_def)
qed

end
