(* ===== verification/Ops.thy ===== *)
theory Ops
  imports Float64
begin

text \<open>
  The operation kinds (\<open>fusecraft-core/src/op.rs\<close>), the error type with its map to errno
  values (\<open>fusecraft-core/src/error.rs\<close>) and the errno constants of Linux that the sources
  take from \<open>libc\<close>.
\<close>

section \<open>Operation kinds\<close>

datatype FsOp = Lookup | GetAttr | Open | Read | Write | Flush | Release | Fsync | Readdir
  | Statfs | Access

definition FsOp_ALL :: "FsOp list" where
  "FsOp_ALL = [Lookup, GetAttr, Open, Read, Write, Flush, Release, Fsync, Readdir, Statfs, Access]"

fun as_str :: "FsOp \<Rightarrow> string" where
  "as_str Lookup = ''lookup''"
| "as_str GetAttr = ''getattr''"
| "as_str Open = ''open''"
| "as_str Read = ''read''"
| "as_str Write = ''write''"
| "as_str Flush = ''flush''"
| "as_str Release = ''release''"
| "as_str Fsync = ''fsync''"
| "as_str Readdir = ''readdir''"
| "as_str Statfs = ''statfs''"
| "as_str Access = ''access''"

text \<open>\<open>op as u64\<close>: the discriminant is the position in the declaration.\<close>

fun FsOp_discr :: "FsOp \<Rightarrow> u64" where
  "FsOp_discr Lookup = 0"
| "FsOp_discr GetAttr = 1"
| "FsOp_discr Open = 2"
| "FsOp_discr Read = 3"
| "FsOp_discr Write = 4"
| "FsOp_discr Flush = 5"
| "FsOp_discr Release = 6"
| "FsOp_discr Fsync = 7"
| "FsOp_discr Readdir = 8"
| "FsOp_discr Statfs = 9"
| "FsOp_discr Access = 10"

text \<open>
  The \<open>serde\<close> attribute \<open>rename_all = "lowercase"\<close> makes the name of a variant in a
  configuration file the identifier in lower case.
\<close>

fun variant_ident :: "FsOp \<Rightarrow> string" where
  "variant_ident Lookup = ''Lookup''"
| "variant_ident GetAttr = ''GetAttr''"
| "variant_ident Open = ''Open''"
| "variant_ident Read = ''Read''"
| "variant_ident Write = ''Write''"
| "variant_ident Flush = ''Flush''"
| "variant_ident Release = ''Release''"
| "variant_ident Fsync = ''Fsync''"
| "variant_ident Readdir = ''Readdir''"
| "variant_ident Statfs = ''Statfs''"
| "variant_ident Access = ''Access''"

definition ascii_lower :: "char \<Rightarrow> char" where
  "ascii_lower c = (if 65 \<le> (of_char c :: nat) \<and> (of_char c :: nat) \<le> 90
                    then char_of ((of_char c :: nat) + 32) else c)"

definition serde_name :: "FsOp \<Rightarrow> string" where
  "serde_name op = map ascii_lower (variant_ident op)"

definition FsOp_of_serde :: "string \<Rightarrow> FsOp option" where
  "FsOp_of_serde s = find (\<lambda>op. serde_name op = s) FsOp_ALL"

text \<open>\<open>matches!(op, FsOp::Read | FsOp::Write)\<close>.\<close>

definition is_data_op :: "FsOp \<Rightarrow> bool" where
  "is_data_op op = (case op of Read \<Rightarrow> True | Write \<Rightarrow> True | _ \<Rightarrow> False)"

lemma is_data_op_iff [simp]: "is_data_op op \<longleftrightarrow> op = Read \<or> op = Write"
  by (cases op) (simp_all add: is_data_op_def)

lemma FsOp_ALL_complete: "set FsOp_ALL = UNIV"
proof -
  have "op \<in> set FsOp_ALL" for op
    by (cases op) (simp_all add: FsOp_ALL_def)
  then show ?thesis by blast
qed

lemma FsOp_ALL_distinct: "distinct FsOp_ALL"
  by (simp add: FsOp_ALL_def)

lemma FsOp_discr_inj: "FsOp_discr a = FsOp_discr b \<longleftrightarrow> a = b"
  by (cases a; cases b) simp_all

instantiation FsOp :: finite
begin

instance
proof
  show "finite (UNIV :: FsOp set)"
    by (metis FsOp_ALL_complete List.finite_set)
qed

end

section \<open>Errors\<close>

text \<open>
  An \<open>io::Error\<close> is its raw OS error if it carries one (\<open>raw_os_error\<close>); errors made
  from a message carry none. The text of a configuration error is kept as the format
  string that makes it, one constructor each, with its arguments: the dotted key path and
  the values printed.
\<close>

datatype ConfigMsg =
    UnknownErrno string
  | InodeCountZero
  | FileSizeZero
  | ConcurrencyCapZero string
  | SizeTierOnMetadataOp string FsOp
  | ThresholdZero string
  | FaultOpMismatch string nat FsOp FsOp
  | FaultRateRange string nat f64
  | BandwidthNotFinite string f64
  | LatencyNotFinite string string f64
  | MaxBelowBase string u64 u64
  | ParetoWeightRange string f64
  | ParetoAlphaNotPositive string
  | LognormalMedianNegative string
  | LognormalSigmaNegative string

datatype FsError = Errno i32 | Config_err ConfigMsg | Io "i32 option"

definition EIO :: i32 where "EIO = 5"
definition ENOENT :: i32 where "ENOENT = 2"
definition ESTALE :: i32 where "ESTALE = 116"
definition ENOSPC :: i32 where "ENOSPC = 28"
definition EAGAIN :: i32 where "EAGAIN = 11"
definition EINTR :: i32 where "EINTR = 4"
definition EINVAL :: i32 where "EINVAL = 22"
definition ENOTDIR :: i32 where "ENOTDIR = 20"

lemmas errno_defs = EIO_def ENOENT_def ESTALE_def ENOSPC_def EAGAIN_def EINTR_def EINVAL_def
  ENOTDIR_def

fun as_errno :: "FsError \<Rightarrow> i32" where
  "as_errno (Errno e) = e"
| "as_errno (Io raw) = (case raw of Some e \<Rightarrow> e | None \<Rightarrow> EIO)"
| "as_errno (Config_err _) = EINVAL"

type_synonym 'a fs_result = "(FsError, 'a) rresult"

text \<open>The two names of an operation, and reading them back.\<close>

lemma as_str_serde_name: "as_str op = serde_name op"
  by (cases op) (simp_all add: serde_name_def ascii_lower_def char_of_def bit_0)

lemma FsOp_of_serde_name [simp]: "FsOp_of_serde (serde_name op) = Some op"
  by (cases op) (simp_all add: FsOp_of_serde_def FsOp_ALL_def flip: as_str_serde_name)

section \<open>Properties\<close>

text \<open>
  The name an operation has in a configuration file (the lower-cased identifier of its
  variant) is the name \<open>as_str\<close> prints, and reading that name back gives the operation.
\<close>

theorem op_name_roundtrip:
  "as_str op = serde_name op \<and> FsOp_of_serde (as_str op) = Some op"
  by (simp add: as_str_serde_name)

end
