(* ===== verification/Configuration.thy ===== *)
theory Configuration
  imports Ops
begin

text \<open>
  The configuration of the simulator (\<open>fusecraft-core/src/config.rs\<close>): the structures, their
  defaults, the errno names, the two hand-written \<open>Deserialize\<close> conversions, and
  \<open>Config::validate\<close> with its helpers. The specification of validation is \<open>valid_config\<close>,
  the list of rules of \<open>docs/config.md\<close>; the main lemma says that validation accepts exactly
  the configurations that satisfy it.
\<close>

section \<open>Structures\<close>

record MountConfig =
  fs_name :: string
  subtype :: string
  auto_unmount :: bool
  default_permissions :: bool
  read_only :: bool
  direct_io :: bool

datatype RootLayout = Flat

datatype WriteMode = Discard

record FilesConfig =
  inode_count :: u64
  file_size_bytes :: u64
  root_layout :: RootLayout
  write_mode :: WriteMode

record LatencyProfile =
  base_us :: u64
  lognormal_median_us :: f64
  lognormal_sigma :: f64
  pareto_weight :: f64
  pareto_xm_us :: f64
  pareto_alpha :: f64
  max_us :: u64

record BandwidthProfile =
  bytes_per_sec :: f64
  burst_bytes :: u64

record FaultRule =
  rule_op :: FsOp
  rule_errno :: i32
  rule_rate :: f64

record LargeTierPolicy =
  large_latency :: LatencyProfile
  large_bandwidth :: "BandwidthProfile option"
  large_faults :: "FaultRule list"

record SizeTier =
  threshold_bytes :: u64
  tier_large :: LargeTierPolicy

record OpPolicy =
  concurrency_cap :: usize
  queue_cap :: usize
  latency :: LatencyProfile
  bandwidth :: "BandwidthProfile option"
  faults :: "FaultRule list"
  size_tier :: "SizeTier option"

record MetricsConfig =
  jsonl_path :: "string option"

text \<open>
  The \<open>HashMap\<close> of policies is its list of entries in iteration order, which Rust does not
  specify; the keys of such a list are distinct (\<open>wf_ops\<close>).
\<close>

record Config =
  cfg_seed :: u64
  cfg_mount :: MountConfig
  cfg_files :: FilesConfig
  cfg_ops :: "(FsOp \<times> OpPolicy) list"
  cfg_metrics :: MetricsConfig

definition wf_ops :: "Config \<Rightarrow> bool" where
  "wf_ops c \<longleftrightarrow> distinct (map fst (cfg_ops c))"

section \<open>Defaults\<close>

definition default_seed :: u64 where "default_seed = 42"
definition default_fs_name :: string where "default_fs_name = ''fusecraft''"
definition default_subtype :: string where "default_subtype = ''sim''"
definition default_inode_count :: u64 where "default_inode_count = 1000"
definition default_file_size_bytes :: u64 where "default_file_size_bytes = 65536"
definition default_concurrency_cap :: usize where "default_concurrency_cap = 64"
definition default_lognormal_median :: f64 where "default_lognormal_median = Finite 100"
definition default_lognormal_sigma :: f64 where "default_lognormal_sigma = Finite (1/2)"
definition default_pareto_xm :: f64 where "default_pareto_xm = Finite 1000"
definition default_pareto_alpha :: f64 where "default_pareto_alpha = Finite (3/2)"
definition default_max_us :: u64 where "default_max_us = 1000000"

lemmas default_value_defs = default_seed_def default_fs_name_def default_subtype_def
  default_inode_count_def default_file_size_bytes_def default_concurrency_cap_def
  default_lognormal_median_def default_lognormal_sigma_def default_pareto_xm_def
  default_pareto_alpha_def default_max_us_def

definition MountConfig_default :: MountConfig where
  "MountConfig_default = \<lparr> fs_name = default_fs_name, subtype = default_subtype,
     auto_unmount = True, default_permissions = True, read_only = False, direct_io = False \<rparr>"

definition FilesConfig_default :: FilesConfig where
  "FilesConfig_default = \<lparr> inode_count = default_inode_count,
     file_size_bytes = default_file_size_bytes, root_layout = Flat, write_mode = Discard \<rparr>"

definition LatencyProfile_default :: LatencyProfile where
  "LatencyProfile_default = \<lparr> base_us = 0, lognormal_median_us = default_lognormal_median,
     lognormal_sigma = default_lognormal_sigma, pareto_weight = Finite 0,
     pareto_xm_us = default_pareto_xm, pareto_alpha = default_pareto_alpha,
     max_us = default_max_us \<rparr>"

definition LargeTierPolicy_default :: LargeTierPolicy where
  "LargeTierPolicy_default = \<lparr> large_latency = LatencyProfile_default,
     large_bandwidth = None, large_faults = [] \<rparr>"

definition OpPolicy_default :: OpPolicy where
  "OpPolicy_default = \<lparr> concurrency_cap = default_concurrency_cap, queue_cap = 0,
     latency = LatencyProfile_default, bandwidth = None, faults = [], size_tier = None \<rparr>"

definition Config_default :: Config where
  "Config_default = \<lparr> cfg_seed = default_seed, cfg_mount = MountConfig_default,
     cfg_files = FilesConfig_default, cfg_ops = [], cfg_metrics = \<lparr> jsonl_path = None \<rparr> \<rparr>"

section \<open>Errno names and the hand-written conversions\<close>

definition parse_errno :: "string \<Rightarrow> i32 fs_result" where
  "parse_errno name =
     (if name = ''EIO'' then Ok EIO
      else if name = ''ENOENT'' then Ok ENOENT
      else if name = ''ESTALE'' then Ok ESTALE
      else if name = ''ENOSPC'' then Ok ENOSPC
      else if name = ''EAGAIN'' then Ok EAGAIN
      else if name = ''EINTR'' then Ok EINTR
      else Err (Config_err (UnknownErrno name)))"

text \<open>The TOML file gives MiB per second; the multiplications are left-associated.\<close>

record BandwidthProfileRaw =
  mib_per_sec :: f64
  raw_burst_bytes :: u64

definition BandwidthProfile_of_raw :: "BandwidthProfileRaw \<Rightarrow> BandwidthProfile" where
  "BandwidthProfile_of_raw raw =
     \<lparr> bytes_per_sec = f64_mul (f64_mul (mib_per_sec raw) (Finite 1024)) (Finite 1024),
       burst_bytes = raw_burst_bytes raw \<rparr>"

record FaultRuleRaw =
  raw_op :: FsOp
  raw_errno :: string
  raw_rate :: f64

definition FaultRule_of_raw :: "FaultRuleRaw \<Rightarrow> FaultRule fs_result" where
  "FaultRule_of_raw raw =
     try_ok (parse_errno (raw_errno raw)) (\<lambda>e.
       Ok \<lparr> rule_op = raw_op raw, rule_errno = e, rule_rate = raw_rate raw \<rparr>)"

section \<open>Validation\<close>

definition config_error :: "ConfigMsg \<Rightarrow> 'a fs_result" where
  "config_error m = Err (Config_err m)"

fun check_finite :: "string \<Rightarrow> (string \<times> f64) list \<Rightarrow> unit fs_result" where
  "check_finite prefix [] = Ok ()"
| "check_finite prefix ((name, v) # rest) =
     (if \<not> is_finite v then config_error (LatencyNotFinite prefix name v)
      else check_finite prefix rest)"

definition validate_latency :: "LatencyProfile \<Rightarrow> string \<Rightarrow> unit fs_result" where
  "validate_latency l prefix =
     try_ok (check_finite prefix
       [(''lognormal_median_us'', lognormal_median_us l),
        (''lognormal_sigma'', lognormal_sigma l),
        (''pareto_weight'', pareto_weight l),
        (''pareto_xm_us'', pareto_xm_us l),
        (''pareto_alpha'', pareto_alpha l)]) (\<lambda>_.
     if max_us l < base_us l then config_error (MaxBelowBase prefix (max_us l) (base_us l))
     else if f64_lt (pareto_weight l) f64_zero \<or> f64_lt (Finite 1) (pareto_weight l)
       then config_error (ParetoWeightRange prefix (pareto_weight l))
     else if f64_lt f64_zero (pareto_weight l) \<and> f64_le (pareto_alpha l) f64_zero
       then config_error (ParetoAlphaNotPositive prefix)
     else if f64_lt (lognormal_median_us l) f64_zero
       then config_error (LognormalMedianNegative prefix)
     else if f64_lt (lognormal_sigma l) f64_zero
       then config_error (LognormalSigmaNegative prefix)
     else Ok ())"

definition validate_bandwidth :: "BandwidthProfile \<Rightarrow> string \<Rightarrow> unit fs_result" where
  "validate_bandwidth b prefix =
     (if \<not> is_finite (bytes_per_sec b)
      then config_error (BandwidthNotFinite prefix (bytes_per_sec b)) else Ok ())"

fun validate_faults_from ::
  "nat \<Rightarrow> FaultRule list \<Rightarrow> FsOp \<Rightarrow> string \<Rightarrow> unit fs_result" where
  "validate_faults_from i [] expected_op prefix = Ok ()"
| "validate_faults_from i (f # fs) expected_op prefix =
     (if rule_op f \<noteq> expected_op
      then config_error (FaultOpMismatch prefix i (rule_op f) expected_op)
      else if \<not> is_finite (rule_rate f) \<or> f64_lt (rule_rate f) f64_zero
        \<or> f64_lt (Finite 1) (rule_rate f)
      then config_error (FaultRateRange prefix i (rule_rate f))
      else validate_faults_from (Suc i) fs expected_op prefix)"

definition validate_faults :: "FaultRule list \<Rightarrow> FsOp \<Rightarrow> string \<Rightarrow> unit fs_result" where
  "validate_faults fs expected_op prefix = validate_faults_from 0 fs expected_op prefix"

text \<open>\<open>if let Some(x) = opt { check(x)?; }\<close>.\<close>

definition check_some :: "'a option \<Rightarrow> ('a \<Rightarrow> unit fs_result) \<Rightarrow> unit fs_result" where
  "check_some x check = (case x of None \<Rightarrow> Ok () | Some v \<Rightarrow> check v)"

definition validate_size_tier :: "FsOp \<Rightarrow> SizeTier \<Rightarrow> string \<Rightarrow> unit fs_result" where
  "validate_size_tier op tier prefix =
     (if \<not> is_data_op op then config_error (SizeTierOnMetadataOp prefix op)
      else if threshold_bytes tier = 0 then config_error (ThresholdZero prefix)
      else
        try_ok (validate_latency (large_latency (tier_large tier))
                  (prefix @ ''.size_tier.large.latency'')) (\<lambda>_.
        try_ok (check_some (large_bandwidth (tier_large tier))
                  (\<lambda>b. validate_bandwidth b (prefix @ ''.size_tier.large.bandwidth''))) (\<lambda>_.
        validate_faults (large_faults (tier_large tier)) op
          (prefix @ ''.size_tier.large.faults''))))"

definition validate_op_policy :: "FsOp \<Rightarrow> OpPolicy \<Rightarrow> string \<Rightarrow> unit fs_result" where
  "validate_op_policy op p prefix =
     (if concurrency_cap p = 0 then config_error (ConcurrencyCapZero prefix)
      else
        try_ok (validate_latency (latency p) (prefix @ ''.latency'')) (\<lambda>_.
        try_ok (check_some (bandwidth p)
                  (\<lambda>b. validate_bandwidth b (prefix @ ''.bandwidth''))) (\<lambda>_.
        try_ok (validate_faults (faults p) op (prefix @ ''.faults'')) (\<lambda>_.
        check_some (size_tier p) (\<lambda>tier. validate_size_tier op tier prefix)))))"

fun validate_ops :: "(FsOp \<times> OpPolicy) list \<Rightarrow> unit fs_result" where
  "validate_ops [] = Ok ()"
| "validate_ops ((op, p) # rest) =
     try_ok (validate_op_policy op p (''ops.'' @ as_str op)) (\<lambda>_. validate_ops rest)"

definition validate :: "Config \<Rightarrow> unit fs_result" where
  "validate c =
     (if inode_count (cfg_files c) = 0 then config_error InodeCountZero
      else if file_size_bytes (cfg_files c) = 0 then config_error FileSizeZero
      else validate_ops (cfg_ops c))"

section \<open>The rules a valid configuration satisfies\<close>

definition unit_interval :: "f64 \<Rightarrow> bool" where
  "unit_interval x \<longleftrightarrow> is_finite x \<and> 0 \<le> f64_val x \<and> f64_val x \<le> 1"

definition nonneg_finite :: "f64 \<Rightarrow> bool" where
  "nonneg_finite x \<longleftrightarrow> is_finite x \<and> 0 \<le> f64_val x"

definition valid_latency :: "LatencyProfile \<Rightarrow> bool" where
  "valid_latency l \<longleftrightarrow>
     base_us l \<le> max_us l \<and> unit_interval (pareto_weight l)
     \<and> (0 < f64_val (pareto_weight l) \<longrightarrow> 0 < f64_val (pareto_alpha l))
     \<and> nonneg_finite (lognormal_median_us l) \<and> nonneg_finite (lognormal_sigma l)
     \<and> is_finite (pareto_xm_us l) \<and> is_finite (pareto_alpha l)"

definition valid_bandwidth :: "BandwidthProfile \<Rightarrow> bool" where
  "valid_bandwidth b \<longleftrightarrow> is_finite (bytes_per_sec b)"

definition valid_faults :: "FsOp \<Rightarrow> FaultRule list \<Rightarrow> bool" where
  "valid_faults op fs \<longleftrightarrow> (\<forall>f\<in>set fs. rule_op f = op \<and> unit_interval (rule_rate f))"

definition valid_tier :: "FsOp \<Rightarrow> SizeTier \<Rightarrow> bool" where
  "valid_tier op t \<longleftrightarrow> is_data_op op \<and> threshold_bytes t \<noteq> 0
     \<and> valid_latency (large_latency (tier_large t))
     \<and> pred_option valid_bandwidth (large_bandwidth (tier_large t))
     \<and> valid_faults op (large_faults (tier_large t))"

definition valid_policy :: "FsOp \<Rightarrow> OpPolicy \<Rightarrow> bool" where
  "valid_policy op p \<longleftrightarrow> concurrency_cap p \<noteq> 0 \<and> valid_latency (latency p)
     \<and> pred_option valid_bandwidth (bandwidth p) \<and> valid_faults op (faults p)
     \<and> pred_option (valid_tier op) (size_tier p)"

definition valid_config :: "Config \<Rightarrow> bool" where
  "valid_config c \<longleftrightarrow> inode_count (cfg_files c) \<noteq> 0 \<and> file_size_bytes (cfg_files c) \<noteq> 0
     \<and> (\<forall>(op, p)\<in>set (cfg_ops c). valid_policy op p)"

lemma config_error_neq_Ok [simp]: "config_error m \<noteq> Ok v" "Ok v \<noteq> config_error m"
  by (simp_all add: config_error_def)

lemma if_config_error_eq_Ok [simp]:
  "(if b then config_error m else r) = Ok v \<longleftrightarrow> \<not> b \<and> r = Ok v"
  by simp

lemma finite_lt_iff:
  "is_finite x \<Longrightarrow> f64_lt x (Finite q) \<longleftrightarrow> f64_val x < q"
  "is_finite x \<Longrightarrow> f64_lt (Finite q) x \<longleftrightarrow> q < f64_val x"
  "is_finite x \<Longrightarrow> f64_le x (Finite q) \<longleftrightarrow> f64_val x \<le> q"
  "is_finite x \<Longrightarrow> f64_le (Finite q) x \<longleftrightarrow> q \<le> f64_val x"
  by (cases x; auto simp: f64_lt_def f64_le_def)+

lemma check_finite_iff:
  "check_finite prefix vs = Ok () \<longleftrightarrow> (\<forall>(n, v)\<in>set vs. is_finite v)"
  by (induction vs) auto

lemma validate_latency_iff: "validate_latency l prefix = Ok () \<longleftrightarrow> valid_latency l"
proof (cases "is_finite (lognormal_median_us l) \<and> is_finite (lognormal_sigma l)
    \<and> is_finite (pareto_weight l) \<and> is_finite (pareto_xm_us l) \<and> is_finite (pareto_alpha l)")
  case True
  then have "validate_latency l prefix = Ok () \<longleftrightarrow>
      base_us l \<le> max_us l \<and> (0 \<le> f64_val (pareto_weight l) \<and> f64_val (pareto_weight l) \<le> 1)
      \<and> (0 < f64_val (pareto_weight l) \<longrightarrow> 0 < f64_val (pareto_alpha l))
      \<and> 0 \<le> f64_val (lognormal_median_us l) \<and> 0 \<le> f64_val (lognormal_sigma l)"
    by (simp add: validate_latency_def finite_lt_iff not_less not_le imp_conv_disj)
  with True show ?thesis
    by (simp add: valid_latency_def unit_interval_def nonneg_finite_def)
next
  case False
  then have "validate_latency l prefix \<noteq> Ok ()"
    unfolding validate_latency_def try_ok_eq_Ok_iff check_finite.simps if_config_error_eq_Ok
    by blast
  moreover have "\<not> valid_latency l"
    using False by (auto simp: valid_latency_def unit_interval_def nonneg_finite_def)
  ultimately show ?thesis by simp
qed

lemma validate_bandwidth_iff: "validate_bandwidth b prefix = Ok () \<longleftrightarrow> valid_bandwidth b"
  by (simp add: validate_bandwidth_def valid_bandwidth_def)

lemma rate_guard_iff:
  "(\<not> is_finite x \<or> f64_lt x f64_zero \<or> f64_lt (Finite 1) x) \<longleftrightarrow> \<not> unit_interval x"
  by (cases "is_finite x") (simp_all add: unit_interval_def finite_lt_iff not_le)

lemma validate_faults_from_iff:
  "validate_faults_from i fs op prefix = Ok () \<longleftrightarrow> valid_faults op fs"
proof (induction fs arbitrary: i)
  case (Cons f fs)
  have "validate_faults_from i (f # fs) op prefix = Ok () \<longleftrightarrow>
      rule_op f = op \<and> unit_interval (rule_rate f) \<and> valid_faults op fs"
    by (simp only: validate_faults_from.simps rate_guard_iff if_config_error_eq_Ok Cons.IH)
      simp
  then show ?case by (simp add: valid_faults_def)
qed (simp add: valid_faults_def)

lemma validate_faults_iff: "validate_faults fs op prefix = Ok () \<longleftrightarrow> valid_faults op fs"
  by (simp add: validate_faults_def validate_faults_from_iff)

lemma check_some_iff:
  "(\<And>v. check v = Ok () \<longleftrightarrow> P v) \<Longrightarrow> check_some x check = Ok () \<longleftrightarrow> pred_option P x"
  by (cases x) (simp_all add: check_some_def)

lemmas validate_iffs = validate_latency_iff validate_faults_iff
  check_some_iff [OF validate_bandwidth_iff]

lemma validate_size_tier_iff: "validate_size_tier op t prefix = Ok () \<longleftrightarrow> valid_tier op t"
  by (simp add: validate_size_tier_def valid_tier_def validate_iffs)

lemma validate_op_policy_iff: "validate_op_policy op p prefix = Ok () \<longleftrightarrow> valid_policy op p"
  by (simp add: validate_op_policy_def valid_policy_def validate_iffs
      check_some_iff [OF validate_size_tier_iff])

lemma validate_ops_iff: "validate_ops ps = Ok () \<longleftrightarrow> (\<forall>(op, p)\<in>set ps. valid_policy op p)"
  by (induction ps rule: validate_ops.induct) (auto simp: validate_op_policy_iff)

lemma validate_iff: "validate c = Ok () \<longleftrightarrow> valid_config c"
  by (simp add: validate_def valid_config_def validate_ops_iff)

text \<open>Every error of validation is a configuration error.\<close>

definition is_config_error :: "'a fs_result \<Rightarrow> bool" where
  "is_config_error r = (case r of Inl (Config_err _) \<Rightarrow> True | _ \<Rightarrow> False)"

lemma is_config_error_simps [simp]:
  "is_config_error (config_error m)" "is_config_error (Err (Config_err m))"
  "\<not> is_config_error (Ok v)" "\<not> is_config_error (Err (Errno n))" "\<not> is_config_error (Err (Io r))"
  by (simp_all add: is_config_error_def config_error_def)

text \<open>A checker whose only failures are configuration errors.\<close>

definition config_checked :: "unit fs_result \<Rightarrow> bool" where
  "config_checked r \<longleftrightarrow> r = Ok () \<or> is_config_error r"

lemma config_checked_simps [simp]:
  "config_checked (Ok ())" "config_checked (config_error m)"
  by (simp_all add: config_checked_def)

lemma config_checked_if: "config_checked a \<Longrightarrow> config_checked b \<Longrightarrow> config_checked (if c then a else b)"
  by simp

lemma config_checked_try: "config_checked a \<Longrightarrow> config_checked b \<Longrightarrow> config_checked (try_ok a (\<lambda>_. b))"
  by (cases a) (auto simp: config_checked_def is_config_error_def split: FsError.splits)

lemma check_finite_checked: "config_checked (check_finite prefix vs)"
  by (induction prefix vs rule: check_finite.induct) simp_all

lemma check_some_checked: "(\<And>v. config_checked (check v)) \<Longrightarrow> config_checked (check_some x check)"
  by (cases x) (simp_all add: check_some_def)

lemma validate_faults_from_checked: "config_checked (validate_faults_from i fs op prefix)"
  by (induction i fs op prefix rule: validate_faults_from.induct) simp_all

lemma validate_latency_checked: "config_checked (validate_latency l prefix)"
  unfolding validate_latency_def
  by (intro config_checked_try config_checked_if check_finite_checked config_checked_simps)

lemma validate_bandwidth_checked: "config_checked (validate_bandwidth b prefix)"
  by (simp add: validate_bandwidth_def)

lemmas validate_parts_checked = validate_latency_checked validate_bandwidth_checked
  validate_faults_from_checked [of 0, folded validate_faults_def]

lemma validate_size_tier_checked: "config_checked (validate_size_tier op t prefix)"
  unfolding validate_size_tier_def Let_def
  by (intro config_checked_try config_checked_if check_some_checked validate_parts_checked config_checked_simps)

lemma validate_op_policy_checked: "config_checked (validate_op_policy op p prefix)"
  unfolding validate_op_policy_def Let_def
  by (intro config_checked_try config_checked_if check_some_checked validate_parts_checked
      validate_size_tier_checked config_checked_simps)

lemma validate_ops_checked: "config_checked (validate_ops ps)"
  by (induction ps rule: validate_ops.induct)
    (simp_all add: config_checked_try validate_op_policy_checked)

section \<open>Properties\<close>

text \<open>C24. Validation accepts exactly the configurations the rules allow: positive file counts and
  sizes, and for every operation a positive concurrency cap, a sane latency profile, a finite
  bandwidth rate, fault rules for that operation with rates in the unit interval, and a size tier
  only on reads and writes, with a positive threshold and a valid large policy.\<close>

theorem validate_accepts_exactly_valid:
  "validate c = Ok () \<longleftrightarrow> valid_config c"
  by (rule validate_iff)

text \<open>Validation fails only with configuration errors, which the mount would report as
  EINVAL, and the default configuration validates.\<close>

theorem validate_errors_are_config_errors:
  "(validate c = Ok () \<or> is_config_error (validate c))
   \<and> (case validate c of Inl e \<Rightarrow> as_errno e = EINVAL | Inr _ \<Rightarrow> True)
   \<and> validate Config_default = Ok ()"
proof (intro conjI)
  have c: "config_checked (validate c)"
    unfolding validate_def by (intro config_checked_if validate_ops_checked config_checked_simps)
  then show "validate c = Ok () \<or> is_config_error (validate c)" by (simp add: config_checked_def)
  show "case validate c of Inl e \<Rightarrow> as_errno e = EINVAL | Inr _ \<Rightarrow> True"
    using c by (auto simp: config_checked_def is_config_error_def split: sum.splits FsError.splits)
  show "validate Config_default = Ok ()"
    by (simp add: validate_iff valid_config_def Config_default_def FilesConfig_default_def
        default_inode_count_def default_file_size_bytes_def)
qed

text \<open>The errno names of fault rules form a closed table: a name parses exactly when it is one
  of the six supported names, each to its own positive errno, and any other name is a
  configuration error that a fault rule passes on.\<close>

theorem errno_names_closed:
  "(parse_errno nm = Ok n \<longleftrightarrow> (nm, n) \<in> {(''EIO'', 5), (''ENOENT'', 2), (''ESTALE'', 116),
      (''ENOSPC'', 28), (''EAGAIN'', 11), (''EINTR'', 4)})
   \<and> ((\<exists>n. parse_errno nm = Ok n) \<or> FaultRule_of_raw (raw\<lparr>raw_errno := nm\<rparr>)
       = Err (Config_err (UnknownErrno nm)))
   \<and> (FaultRule_of_raw raw = Ok rule \<longleftrightarrow> parse_errno (raw_errno raw) = Ok (rule_errno rule)
       \<and> rule_op rule = raw_op raw \<and> rule_rate rule = raw_rate raw)"
  by (cases rule) (auto simp: parse_errno_def FaultRule_of_raw_def errno_defs)

end
