(* ===== verification/Sampler.thy ===== *)
theory Sampler
  imports Configuration
begin

text \<open>
  The deterministic samplers (\<open>fusecraft-core/src/sampler\<close>): the sampling key and its mixing
  function (\<open>key.rs\<close>), the fault sampler (\<open>fault.rs\<close>) and the latency sampler
  (\<open>latency.rs\<close>).

  The generator is the \<open>StdRng\<close> of the \<open>rand\<close> crate and the transcendental functions of
  \<open>f64\<close> have unspecified precision; both are parameters, the records \<open>rng\<close> and
  \<open>libm\<close>. What the lemmas need of them is named: \<open>rng_unit\<close> (a random \<open>f64\<close> lies in
  the half-open unit interval) and \<open>libm_sane\<close> (an exponential is never negative, a power of
  a non-negative base is never negative and has no sign).
\<close>

section \<open>Parameters: the generator and the transcendental functions\<close>

record 'r rng =
  seed_from_u64 :: "u64 \<Rightarrow> 'r"
  random_f64 :: "'r \<Rightarrow> f64 \<times> 'r"

record libm =
  f64_ln :: "f64 \<Rightarrow> f64"
  f64_exp :: "f64 \<Rightarrow> f64"
  f64_powf :: "f64 \<Rightarrow> f64 \<Rightarrow> f64"
  f64_cos :: "f64 \<Rightarrow> f64"

definition rng_unit :: "'r rng \<Rightarrow> bool" where
  "rng_unit g \<longleftrightarrow> (\<forall>r. f64_le f64_zero (fst (random_f64 g r)) \<and> f64_lt (fst (random_f64 g r)) (Finite 1))"

definition libm_sane :: "libm \<Rightarrow> bool" where
  "libm_sane m \<longleftrightarrow>
     (\<forall>x. is_nan (f64_exp m x) \<or> f64_le f64_zero (f64_exp m x))
     \<and> (\<forall>x y. f64_le f64_zero x \<longrightarrow>
          is_nan (f64_powf m x y) \<or> (f64_le f64_zero (f64_powf m x y) \<and> f64_powf m x y \<noteq> NegZero))"

section \<open>Keys\<close>

definition LATENCY_STREAM :: u64 where "LATENCY_STREAM = 0xA5A5A5A5A5A5A5A5"
definition FAULT_STREAM :: u64 where "FAULT_STREAM = 0x5A5A5A5A5A5A5A5A"

record SampleKey =
  key_seed :: u64
  key_op :: FsOp
  key_ino :: u64
  key_offset :: u64
  key_len :: u32
  key_seq :: u64

text \<open>The fields and the stream, rotated and combined, then the splitmix64 finalizer.\<close>

definition mix_fields :: "SampleKey \<Rightarrow> u64 \<Rightarrow> u64" where
  "mix_fields k stream =
     key_seed k XOR word_rotl 11 (FsOp_discr (key_op k)) XOR word_rotl 23 (key_ino k)
     XOR word_rotl 37 (key_offset k) XOR word_rotl 47 (ucast (key_len k))
     XOR word_rotl 53 (key_seq k) XOR stream"

definition xor_shift :: "nat \<Rightarrow> u64 \<Rightarrow> u64" where
  "xor_shift n z = z XOR drop_bit n z"

definition splitmix_finalize :: "u64 \<Rightarrow> u64" where
  "splitmix_finalize z0 =
     (let z1 = xor_shift 30 z0 * 0xbf58476d1ce4e5b9;
          z2 = xor_shift 27 z1 * 0x94d049bb133111eb
      in xor_shift 31 z2)"

definition mix :: "SampleKey \<Rightarrow> u64 \<Rightarrow> u64" where
  "mix k stream = splitmix_finalize (mix_fields k stream)"

definition latency_rng :: "'r rng \<Rightarrow> SampleKey \<Rightarrow> 'r" where
  "latency_rng g k = seed_from_u64 g (mix k LATENCY_STREAM)"

definition fault_rng :: "'r rng \<Rightarrow> SampleKey \<Rightarrow> 'r" where
  "fault_rng g k = seed_from_u64 g (mix k FAULT_STREAM)"

section \<open>Faults\<close>

fun fault_loop :: "'r rng \<Rightarrow> FaultRule list \<Rightarrow> 'r \<Rightarrow> i32 option" where
  "fault_loop g [] r = None"
| "fault_loop g (rule # rules) r =
     (let (u, r') = random_f64 g r in
      if f64_lt u (rule_rate rule) then Some (rule_errno rule) else fault_loop g rules r')"

definition sample_fault :: "'r rng \<Rightarrow> FaultRule list \<Rightarrow> SampleKey \<Rightarrow> i32 option" where
  "sample_fault g rules k =
     fault_loop g (filter (\<lambda>rule. rule_op rule = key_op k) rules) (fault_rng g k)"

section \<open>Latencies\<close>

definition F64_MIN_POSITIVE :: f64 where
  "F64_MIN_POSITIVE = Finite (1 / 2 ^ 1022)"

definition F64_PI :: f64 where
  "F64_PI = Finite (884279719003555 / 281474976710656)"

definition sample_standard_normal :: "libm \<Rightarrow> 'r rng \<Rightarrow> 'r \<Rightarrow> f64 \<times> 'r" where
  "sample_standard_normal m g r =
     (let (a, r1) = random_f64 g r; u1 = f64_max a F64_MIN_POSITIVE;
          (u2, r2) = random_f64 g r1
      in (f64_mul (f64_sqrt (f64_mul (Finite (- 2)) (f64_ln m u1)))
            (f64_cos m (f64_mul (f64_mul (Finite 2) F64_PI) u2)), r2))"

definition sample_lognormal :: "libm \<Rightarrow> 'r rng \<Rightarrow> 'r \<Rightarrow> f64 \<Rightarrow> f64 \<Rightarrow> f64" where
  "sample_lognormal m g r median sigma =
     (if f64_le median f64_zero \<or> f64_le sigma f64_zero then f64_max median f64_zero
      else let mu = f64_ln m median; (z, _) = sample_standard_normal m g r
        in f64_exp m (f64_add mu (f64_mul sigma z)))"

definition sample_pareto :: "libm \<Rightarrow> 'r rng \<Rightarrow> 'r \<Rightarrow> f64 \<Rightarrow> f64 \<Rightarrow> f64" where
  "sample_pareto m g r xm alpha =
     (let (a, _) = random_f64 g r; u = f64_max a F64_MIN_POSITIVE
      in f64_div xm (f64_powf m u (f64_div (Finite 1) alpha)))"

definition latency_body :: "libm \<Rightarrow> 'r rng \<Rightarrow> LatencyProfile \<Rightarrow> 'r \<Rightarrow> f64" where
  "latency_body m g p r =
     (if f64_lt f64_zero (pareto_weight p) then
        let (u, r1) = random_f64 g r in
        if f64_lt u (pareto_weight p) then sample_pareto m g r1 (pareto_xm_us p) (pareto_alpha p)
        else sample_lognormal m g r1 (lognormal_median_us p) (lognormal_sigma p)
      else sample_lognormal m g r (lognormal_median_us p) (lognormal_sigma p))"

definition clamp_latency :: "LatencyProfile \<Rightarrow> f64 \<Rightarrow> u64" where
  "clamp_latency p t =
     min (f64_to_u64 (f64_round (f64_max (f64_min t (f64_of_u64 (max_us p))) f64_zero)))
       (max_us p)"

definition sample_latency_us :: "libm \<Rightarrow> 'r rng \<Rightarrow> LatencyProfile \<Rightarrow> SampleKey \<Rightarrow> u64" where
  "sample_latency_us m g p k =
     clamp_latency p (f64_add (f64_of_u64 (base_us p)) (latency_body m g p (latency_rng g k)))"

section \<open>The mixing function\<close>

lemma xor_shift_inj:
  assumes "xor_shift n x = xor_shift n y" "0 < n"
  shows "x = y"
proof (rule bit_word_eqI)
  have eq: "bit x i = bit y i" if "bit x (i + n) = bit y (i + n)" "i < 64" for i
  proof -
    have "bit (xor_shift n x) i = bit (xor_shift n y) i" using assms(1) by simp
    then show ?thesis using that by (auto simp: xor_shift_def bit_simps add.commute)
  qed
  have "bit x i = bit y i" for i
  proof (induction "64 - i" arbitrary: i rule: less_induct)
    case less
    show ?case
    proof (cases "i < 64")
      case True
      have "bit x (i + n) = bit y (i + n)" using less True assms(2) by simp
      then show ?thesis using eq True by simp
    next
      case False
      then show ?thesis by (simp add: bit_word.rep_eq bit_take_bit_iff)
    qed
  qed
  then show "bit x i = bit y i" for i by simp
qed

lemma mult_word_inj:
  fixes x y :: u64
  assumes "c * d = 1"
  shows "x * c = y * c \<longleftrightarrow> x = y"
proof
  assume "x * c = y * c"
  then have "x * c * d = y * c * d" by simp
  then show "x = y" using assms by (simp add: mult.assoc)
qed simp

lemma odd_factors:
  "(0xbf58476d1ce4e5b9 :: u64) * 0x96de1b173f119089 = 1"
  "(0x94d049bb133111eb :: u64) * 0x319642b2d24d8ec3 = 1"
  by simp_all

lemma splitmix_finalize_inj: "splitmix_finalize x = splitmix_finalize y \<longleftrightarrow> x = y"
proof
  assume eq: "splitmix_finalize x = splitmix_finalize y"
  have "xor_shift 27 (xor_shift 30 x * 0xbf58476d1ce4e5b9) * 0x94d049bb133111eb
      = xor_shift 27 (xor_shift 30 y * 0xbf58476d1ce4e5b9) * 0x94d049bb133111eb"
    by (rule xor_shift_inj [of 31]) (use eq in \<open>simp_all only: splitmix_finalize_def Let_def zero_less_numeral\<close>)
  then have "xor_shift 27 (xor_shift 30 x * 0xbf58476d1ce4e5b9)
      = xor_shift 27 (xor_shift 30 y * 0xbf58476d1ce4e5b9)"
    by (simp only: mult_word_inj [OF odd_factors(2)])
  then have "xor_shift 30 x * 0xbf58476d1ce4e5b9 = xor_shift 30 y * 0xbf58476d1ce4e5b9"
    by (rule xor_shift_inj) simp
  then have "xor_shift 30 x = xor_shift 30 y"
    by (simp only: mult_word_inj [OF odd_factors(1)])
  then show "x = y" by (rule xor_shift_inj) simp
qed simp

lemma word_rotl_inj: "word_rotl n x = word_rotl n y \<longleftrightarrow> x = y"
  by (metis word_rot_lr)

lemma xor_cancel:
  "a XOR c = b XOR c \<longleftrightarrow> a = b" "c XOR a = c XOR b \<longleftrightarrow> a = b" for a b c :: u64
proof -
  have twice: "(x XOR c) XOR c = x" for x by (simp only: xor.assoc xor_self_eq xor.right_neutral)
  show right: "a XOR c = b XOR c \<longleftrightarrow> a = b"
  proof
    assume "a XOR c = b XOR c"
    then have "(a XOR c) XOR c = (b XOR c) XOR c" by (rule arg_cong)
    then show "a = b" by (simp only: twice)
  qed (rule arg_cong)
  show "c XOR a = c XOR b \<longleftrightarrow> a = b" unfolding xor.commute [of c] by (rule right)
qed

lemma ucast_u32_inj: "(ucast a :: u64) = ucast b \<longleftrightarrow> a = b" for a b :: u32
proof
  assume "(ucast a :: u64) = ucast b"
  then have "(ucast (ucast a :: u64) :: u32) = ucast (ucast b :: u64)" by simp
  moreover have "(ucast (ucast c :: u64) :: u32) = c" for c :: u32
    by (rule bit_word_eqI) (simp add: bit_simps)
  ultimately show "a = b" by simp
qed simp

lemma mix_eq_iff: "mix k s = mix k' s' \<longleftrightarrow> mix_fields k s = mix_fields k' s'"
  by (simp add: mix_def splitmix_finalize_inj)

text \<open>
  A 64 KiB stride: multiplying the block number by \<open>65536\<close> and rotating by 37 is rotating
  the block number by 53, the rotation of the sequence number.
\<close>

lemma rotl_stride:
  fixes i :: u64
  assumes "i < 2 ^ 48"
  shows "word_rotl 37 (65536 * i) = word_rotl 53 i"
proof -
  have hi: "\<not> bit i n" if "48 \<le> n" for n
  proof -
    have "take_bit 48 i = i"
      using assms
      by (simp add: word_unat_eq_iff unsigned_take_bit_eq take_bit_nat_eq_self word_less_nat_alt)
    then show ?thesis using that by (metis bit_take_bit_iff not_le)
  qed
  have "65536 * i = push_bit 16 i" by (simp add: push_bit_eq_mult)
  also have "\<dots> = word_rotl 16 i"
  proof (rule bit_word_eqI)
    fix n
    assume "n < LENGTH(64)"
    moreover from this have "(n + 48) mod 64 = (if 16 \<le> n then n - 16 else n + 48)"
      by (simp add: mod_if)
    ultimately show "bit (push_bit 16 i) n = bit (word_rotl 16 i) n"
      using hi [of "n + 48"] by (simp add: bit_simps)
  qed
  finally have "word_rotl 37 (65536 * i) = word_rotl 37 (word_rotl 16 i)" by simp
  also have "\<dots> = word_rotl 53 i"
  proof (rule bit_word_eqI)
    fix n
    assume "n < LENGTH(64)"
    then have "bit (word_rotl 37 (word_rotl 16 i)) n = bit i ((n + 27 + 48) mod 64)"
      "bit (word_rotl 53 i) n = bit i ((n + 11) mod 64)"
      by (simp_all add: bit_word_rotl_iff mod_add_left_eq)
    moreover have "(n + 27 + 48) mod 64 = (n + 11) mod 64"
      using mod_add_self2 [of "n + 11" 64] by (simp only: add.assoc) (simp add: add.commute)
    ultimately show "bit (word_rotl 37 (word_rotl 16 i)) n = bit (word_rotl 53 i) n"
      by (simp only:)
  qed
  finally show ?thesis .
qed

section \<open>The fault sampler\<close>

text \<open>
  The reference: the \<open>i\<close>-th matching rule is decided by the \<open>i\<close>-th draw of the stream, and
  the first rule whose draw is below its rate fires.
\<close>

primrec draws :: "'r rng \<Rightarrow> nat \<Rightarrow> 'r \<Rightarrow> f64 list" where
  "draws g 0 r = []"
| "draws g (Suc n) r = fst (random_f64 g r) # draws g n (snd (random_f64 g r))"

definition fires :: "f64 \<times> FaultRule \<Rightarrow> bool" where
  "fires = (\<lambda>(u, rule). f64_lt u (rule_rate rule))"

definition matching :: "SampleKey \<Rightarrow> FaultRule list \<Rightarrow> FaultRule list" where
  "matching k rules = filter (\<lambda>rule. rule_op rule = key_op k) rules"

lemma fault_loop_eq_find:
  "fault_loop g rules r
     = map_option (\<lambda>(u, rule). rule_errno rule) (find fires (zip (draws g (length rules) r) rules))"
  by (induction g rules r rule: fault_loop.induct) (auto simp: fires_def split: prod.splits)

lemma sample_fault_eq_find:
  "sample_fault g rules k
     = map_option (\<lambda>(u, rule). rule_errno rule)
         (find fires (zip (draws g (length (matching k rules)) (fault_rng g k)) (matching k rules)))"
  by (simp add: sample_fault_def fault_loop_eq_find matching_def)

lemma rng_unitD:
  assumes "rng_unit g"
  shows "f64_le f64_zero (fst (random_f64 g r))" "f64_lt (fst (random_f64 g r)) (Finite 1)"
  using assms by (auto simp: rng_unit_def)

lemma draw_below_certain_rate:
  assumes "rng_unit g" "f64_le (Finite 1) rate"
  shows "f64_lt (fst (random_f64 g r)) rate"
  using rng_unitD(2) [OF assms(1), of r] assms(2)
  by (auto simp: f64_lt_def dest: f64_le_trans)

lemma draw_not_below_zero_rate:
  assumes "rng_unit g" "f64_le rate f64_zero"
  shows "\<not> f64_lt (fst (random_f64 g r)) rate"
  using rng_unitD(1) [OF assms(1), of r] assms(2)
  by (auto simp: f64_lt_def dest: f64_le_trans)

lemma fault_loop_append_never:
  assumes "rng_unit g" "\<forall>rule\<in>set pre. f64_le (rule_rate rule) f64_zero"
  shows "\<exists>r'. fault_loop g (pre @ rules) r = fault_loop g rules r'"
  using assms(2)
proof (induction pre arbitrary: r)
  case (Cons a pre)
  then show ?case
    using draw_not_below_zero_rate [OF assms(1), of "rule_rate a" r]
    by (auto split: prod.splits)
qed auto

lemma fault_loop_certain:
  "rng_unit g \<Longrightarrow> f64_le (Finite 1) (rule_rate rule)
     \<Longrightarrow> fault_loop g (rule # rules) r = Some (rule_errno rule)"
  using draw_below_certain_rate [of g "rule_rate rule" r] by (auto split: prod.splits)

lemma fault_loop_SomeD:
  assumes "rng_unit g" "fault_loop g rules r = Some e"
  shows "\<exists>rule\<in>set rules. rule_errno rule = e \<and> f64_lt f64_zero (rule_rate rule)"
  using assms(2)
proof (induction rules arbitrary: r)
  case (Cons a rules)
  have "f64_lt f64_zero (rule_rate a)" if "f64_lt (fst (random_f64 g r)) (rule_rate a)"
    using that rng_unitD(1) [OF assms(1), of r]
    by (auto simp: f64_lt_def dest: f64_le_trans)
  with Cons show ?case by (auto split: prod.splits if_splits)
qed simp

section \<open>The latency sampler\<close>

lemma clamp_latency_le_max: "clamp_latency p t \<le> max_us p"
  by (simp add: clamp_latency_def)

text \<open>
  Clamping keeps an exact lower bound, and turns a NaN into the maximum.
\<close>

lemma clamp_latency_ge:
  assumes "n \<le> unat (max_us p)" "n \<le> 2 ^ 53" "is_nan t \<or> f64_le (Finite (of_nat n)) t"
  shows "n \<le> unat (clamp_latency p t)"
proof -
  have m: "f64_le (Finite (of_nat n)) (f64_of_u64 (max_us p))"
    unfolding f64_of_u64_def using assms(1,2)
    by (intro f64_of_rat_ge_nat) (simp_all only: of_nat_le_iff)
  have "f64_le (Finite (of_nat n)) (f64_min t (f64_of_u64 (max_us p)))"
    using assms(3) m by (auto simp: f64_min_def)
  then have "f64_le (Finite (of_nat n))
      (f64_round (f64_max (f64_min t (f64_of_u64 (max_us p))) f64_zero))"
    by (intro f64_round_ge_nat f64_max_geI1 assms(2))
  moreover have "n < 2 ^ 64" using assms(2) by simp
  ultimately show ?thesis
    using f64_to_u64_ge_nat assms(1) by (auto simp: clamp_latency_def min_def)
qed

lemma sample_lognormal_nonneg:
  assumes "libm_sane m"
  shows "is_nan (sample_lognormal m g r a b) \<or> f64_le f64_zero (sample_lognormal m g r a b)"
proof -
  have "f64_le f64_zero (f64_max a f64_zero)" by (rule f64_max_ge) simp
  then show ?thesis
    using assms by (auto simp: sample_lognormal_def libm_sane_def split: prod.splits)
qed

lemma sample_pareto_nonneg:
  assumes "libm_sane m" "f64_le f64_zero xm"
  shows "is_nan (sample_pareto m g r xm a) \<or> f64_le f64_zero (sample_pareto m g r xm a)"
proof -
  define u where "u = f64_max (fst (random_f64 g r)) F64_MIN_POSITIVE"
  define d where "d = f64_powf m u (f64_div (Finite 1) a)"
  have "f64_le f64_zero F64_MIN_POSITIVE" by (simp add: F64_MIN_POSITIVE_def)
  moreover have "f64_le F64_MIN_POSITIVE u"
    unfolding u_def by (rule f64_max_ge) (simp add: F64_MIN_POSITIVE_def)
  ultimately have "f64_le f64_zero u" by (rule f64_le_trans)
  then have d: "is_nan d \<or> (f64_le f64_zero d \<and> d \<noteq> NegZero)"
    using assms(1) by (simp add: libm_sane_def d_def)
  have s: "sample_pareto m g r xm a = f64_div xm d"
    by (simp add: sample_pareto_def d_def u_def split: prod.splits)
  show ?thesis
  proof (cases "f64_val d = 0 \<and> is_finite d")
    case True
    then have "d = f64_zero \<or> is_nan d" using d by (cases d) auto
    then show ?thesis
      unfolding s using assms(2) by (cases xm) (auto simp: f64_nonneg_iff [of xm] f64_le_def split: if_splits)
  next
    case False
    then have "is_nan d \<or> d = Infinity False \<or> (\<exists>q. d = Finite q \<and> 0 < q)"
      using d by (cases d) (auto simp: f64_nonneg_iff)
    then show ?thesis
      unfolding s using assms(2) by (auto simp: f64_nonneg_iff [of xm] intro!: f64_of_rat_nonneg)
  qed
qed

lemma latency_body_nonneg:
  assumes "libm_sane m" "f64_le f64_zero (pareto_xm_us p)"
  shows "is_nan (latency_body m g p r) \<or> f64_le f64_zero (latency_body m g p r)"
  unfolding latency_body_def Let_def split_def
  by (simp only: sample_lognormal_nonneg [OF assms(1)] sample_pareto_nonneg [OF assms]
      if_True if_False split: if_split) blast

lemma f64_add_nan: "is_nan y \<Longrightarrow> is_nan (f64_add x y)"
  by (cases x) simp_all

lemma sample_latency_ge_base:
  assumes "libm_sane m" "f64_le f64_zero (pareto_xm_us p)"
    and "base_us p \<le> max_us p" "unat (base_us p) \<le> 2 ^ 53"
  shows "base_us p \<le> sample_latency_us m g p k"
proof -
  define b where "b = latency_body m g p (latency_rng g k)"
  define n where "n = unat (base_us p)"
  have base: "f64_of_u64 (base_us p) = Finite (of_nat n)"
    unfolding n_def by (rule f64_of_u64_exact) (rule assms(4))
  have "is_nan (f64_add (Finite (of_nat n)) b) \<or>
      f64_le (Finite (of_nat n)) (f64_add (Finite (of_nat n)) b)"
    using latency_body_nonneg [OF assms(1,2), of g "latency_rng g k"] f64_add_ge_nat [of n b]
      f64_add_nan [of b "Finite (of_nat n)"] assms(4)
    unfolding b_def [symmetric] n_def [symmetric] by blast
  then have "n \<le> unat (sample_latency_us m g p k)"
    using assms(3,4)
    unfolding sample_latency_us_def base b_def [symmetric]
    by (intro clamp_latency_ge) (simp_all add: n_def word_le_nat_alt)
  then show ?thesis by (simp add: n_def word_le_nat_alt)
qed

lemma f64_round_nat: "n \<le> 2 ^ 53 \<Longrightarrow> f64_round (Finite (of_nat n)) = Finite (of_nat n)"
proof -
  assume "n \<le> 2 ^ 53"
  moreover have "\<lfloor>(of_nat n :: rat) + 1/2\<rfloor> = int n"
    by (rule floor_unique) simp_all
  ultimately show ?thesis by simp
qed

lemma f64_to_u64_nat: "n < 2 ^ 64 \<Longrightarrow> f64_to_u64 (Finite (of_nat n)) = of_nat n"
  by simp

text \<open>A profile without body and tail is its base latency, exactly.\<close>

lemma sample_latency_fixed:
  assumes "\<not> f64_lt f64_zero (pareto_weight p)" "lognormal_median_us p = f64_zero"
    and "base_us p \<le> max_us p" "unat (base_us p) \<le> 2 ^ 53"
  shows "sample_latency_us m g p k = base_us p"
proof -
  define n where "n = unat (base_us p)"
  have n: "n \<le> 2 ^ 53" "base_us p = of_nat n" using assms(4) by (simp_all add: n_def)
  have base: "f64_of_u64 (base_us p) = Finite (of_nat n)"
    unfolding n_def by (rule f64_of_u64_exact) (rule assms(4))
  have m: "f64_le (Finite (of_nat n)) (f64_of_u64 (max_us p))"
    unfolding f64_of_u64_def n_def using assms(3,4)
    by (intro f64_of_rat_ge_nat) (simp_all only: of_nat_le_iff word_le_nat_alt)
  have z: "f64_max f64_zero f64_zero = f64_zero" by (simp add: f64_max_def)
  have "f64_add (Finite (of_nat n)) (latency_body m g p (latency_rng g k)) = Finite (of_nat n)"
    using assms(1,2) n(1) by (simp add: latency_body_def sample_lognormal_def z)
  moreover have "f64_min (Finite (of_nat n)) (f64_of_u64 (max_us p)) = Finite (of_nat n)"
    using m by (simp add: f64_min_def f64_lt_def)
  moreover have "f64_max (Finite (of_nat n)) f64_zero = Finite (of_nat n)"
    by (simp add: f64_max_def f64_lt_def)
  moreover have "f64_to_u64 (Finite (of_nat n)) = base_us p"
    using n by (subst f64_to_u64_nat) simp_all
  ultimately show ?thesis
    using assms(3)
    by (simp only: sample_latency_us_def base clamp_latency_def f64_round_nat [OF n(1)] min_absorb1)
qed

section \<open>Concrete parameters\<close>

text \<open>
  A generator and a library of functions on which the hypotheses hold: a linear congruential
  generator whose draws are the upper bits of the state, and constant functions.
\<close>

definition lcg_next :: "u64 \<Rightarrow> u64" where
  "lcg_next s = s * 6364136223846793005 + 1442695040888963407"

definition lcg_rng :: "u64 rng" where
  "lcg_rng = \<lparr>seed_from_u64 = lcg_next,
     random_f64 = (\<lambda>s. (Finite (of_nat (unat (drop_bit 11 s)) / 2 ^ 53), lcg_next s))\<rparr>"

definition flat_libm :: libm where
  "flat_libm = \<lparr>f64_ln = (\<lambda>_. f64_zero), f64_exp = (\<lambda>_. Finite 50),
     f64_powf = (\<lambda>_ _. Finite (1/2)), f64_cos = (\<lambda>_. Finite 1)\<rparr>"

lemma lcg_rng_unit: "rng_unit lcg_rng"
proof -
  have "(of_nat (unat (drop_bit 11 s)) / 2 ^ 53 :: rat) < 1" for s :: u64
  proof -
    have "unat (drop_bit 11 s) < 2 ^ 53"
      using unat_bound [of s] by (simp add: drop_bit_eq_div unat_div)
    then have "(of_nat (unat (drop_bit 11 s)) :: rat) < of_nat (2 ^ 53)"
      by (simp only: of_nat_less_iff)
    then show ?thesis by simp
  qed
  moreover have "0 \<le> (of_nat (unat (drop_bit 11 s)) / 2 ^ 53 :: rat)" for s :: u64
    by (intro divide_nonneg_nonneg of_nat_0_le_iff) simp
  ultimately show ?thesis
    unfolding rng_unit_def lcg_rng_def f64_le_def f64_lt_def
    by (simp del: unat_drop_bit_eq add: less_imp_le not_le)
qed

lemma flat_libm_sane: "libm_sane flat_libm"
  by (simp add: libm_sane_def flat_libm_def f64_le_def)

section \<open>Properties\<close>

text \<open>C34. Mixing loses no single field: changing exactly one of the seed, the operation, the
  inode, the offset, the length, the sequence number or the stream constant always changes the
  generator seed; in particular the latency and the fault stream of one key never share a
  seed.\<close>

theorem mix_separates_each_field:
  "(mix (k\<lparr>key_seed := a\<rparr>) s = mix (k\<lparr>key_seed := a'\<rparr>) s \<longleftrightarrow> a = a')
   \<and> (mix (k\<lparr>key_op := f\<rparr>) s = mix (k\<lparr>key_op := f'\<rparr>) s \<longleftrightarrow> f = f')
   \<and> (mix (k\<lparr>key_ino := a\<rparr>) s = mix (k\<lparr>key_ino := a'\<rparr>) s \<longleftrightarrow> a = a')
   \<and> (mix (k\<lparr>key_offset := a\<rparr>) s = mix (k\<lparr>key_offset := a'\<rparr>) s \<longleftrightarrow> a = a')
   \<and> (mix (k\<lparr>key_len := b\<rparr>) s = mix (k\<lparr>key_len := b'\<rparr>) s \<longleftrightarrow> b = b')
   \<and> (mix (k\<lparr>key_seq := a\<rparr>) s = mix (k\<lparr>key_seq := a'\<rparr>) s \<longleftrightarrow> a = a')
   \<and> (mix k s = mix k s' \<longleftrightarrow> s = s')
   \<and> mix k LATENCY_STREAM \<noteq> mix k FAULT_STREAM"
  by (simp add: mix_eq_iff mix_fields_def xor_cancel word_rotl_inj ucast_u32_inj FsOp_discr_inj
      LATENCY_STREAM_def FAULT_STREAM_def)


definition scan_key :: "u64 \<Rightarrow> SampleKey" where
  "scan_key i = \<lparr>key_seed = 42, key_op = Read, key_ino = 2, key_offset = 65536 * i,
     key_len = 65536, key_seq = i\<rparr>"


text \<open>The fault sampler is the search for the first rule, among the rules of the key's
  operation in configuration order, whose own draw of the key's fault stream lies below its
  rate; the errno of that rule is injected, and nothing is when there is no such rule.\<close>

theorem fault_is_first_firing_rule:
  "sample_fault g rules k
     = map_option (\<lambda>(u, rule). rule_errno rule)
         (find fires (zip (draws g (length (matching k rules)) (fault_rng g k)) (matching k rules)))"
  by (rule sample_fault_eq_find)

text \<open>An injected errno always comes from a rule for the operation of the key with a
  positive rate: an operation without a rule, or with rates of zero only, never fails.\<close>

theorem fault_comes_from_positive_rule:
  assumes "rng_unit g" "sample_fault g rules k = Some e"
  shows "\<exists>rule\<in>set rules. rule_op rule = key_op k \<and> rule_errno rule = e
    \<and> f64_lt f64_zero (rule_rate rule)"
  using fault_loop_SomeD [OF assms(1) assms(2) [unfolded sample_fault_def]] by auto

definition eio_rule :: FaultRule where
  "eio_rule = \<lparr>rule_op = Read, rule_errno = EIO, rule_rate = Finite 1\<rparr>"

lemma sample_fault_eio: "sample_fault lcg_rng [eio_rule] (scan_key 0) = Some EIO"
  using fault_loop_certain [OF lcg_rng_unit, of eio_rule "[]"]
  by (simp add: sample_fault_def eio_rule_def scan_key_def f64_le_def)

theorem fault_comes_from_positive_rule_witness:
  "\<exists>rule\<in>set [eio_rule]. rule_op rule = key_op (scan_key 0) \<and> rule_errno rule = EIO
    \<and> f64_lt f64_zero (rule_rate rule)"
  by (rule fault_comes_from_positive_rule [OF lcg_rng_unit sample_fault_eio])

text \<open>A rule with rate one for the key's operation fires on every call when the rules in
  front of it are for other operations or have rate zero: the sampler returns its errno.\<close>

theorem certain_rule_fires:
  assumes "rng_unit g" "rule_op rule = key_op k" "f64_le (Finite 1) (rule_rate rule)"
    and "\<forall>r\<in>set pre. rule_op r \<noteq> key_op k \<or> f64_le (rule_rate r) f64_zero"
  shows "sample_fault g (pre @ rule # post) k = Some (rule_errno rule)"
proof -
  have "\<forall>r\<in>set (filter (\<lambda>r. rule_op r = key_op k) pre). f64_le (rule_rate r) f64_zero"
    using assms(4) by auto
  from fault_loop_append_never [OF assms(1) this] obtain r' where
    "fault_loop g (filter (\<lambda>r. rule_op r = key_op k) pre
        @ rule # filter (\<lambda>r. rule_op r = key_op k) post) (fault_rng g k)
      = fault_loop g (rule # filter (\<lambda>r. rule_op r = key_op k) post) r'"
    by blast
  then show ?thesis
    using assms(2) fault_loop_certain [OF assms(1,3)]
    by (simp add: sample_fault_def del: fault_loop.simps)
qed

theorem certain_rule_fires_witness:
  "sample_fault lcg_rng ([\<lparr>rule_op = FsOp.Write, rule_errno = ENOSPC, rule_rate = Finite 1\<rparr>]
     @ eio_rule # []) (scan_key 3) = Some EIO"
  using certain_rule_fires [OF lcg_rng_unit, of eio_rule "scan_key 3"
      "[\<lparr>rule_op = FsOp.Write, rule_errno = ENOSPC, rule_rate = Finite 1\<rparr>]" "[]"]
  by (simp add: eio_rule_def scan_key_def f64_le_def)



text \<open>A profile with neither a lognormal body nor a Pareto tail is deterministic: every
  call gets exactly its base latency.\<close>

theorem fixed_latency_is_base:
  assumes "\<not> f64_lt f64_zero (pareto_weight p)" "lognormal_median_us p = f64_zero"
    and "base_us p \<le> max_us p" "unat (base_us p) \<le> 2 ^ 53"
  shows "sample_latency_us m g p k = base_us p"
  by (rule sample_latency_fixed [OF assms])

definition fixed_profile :: LatencyProfile where
  "fixed_profile = LatencyProfile_default\<lparr>base_us := 300, lognormal_median_us := f64_zero,
     pareto_weight := f64_zero, max_us := 1000\<rparr>"

theorem fixed_latency_is_base_witness:
  "sample_latency_us flat_libm lcg_rng fixed_profile (scan_key 5) = 300"
  using fixed_latency_is_base [of fixed_profile]
  by (simp add: fixed_profile_def f64_lt_def)

end
