(* ===== verification/Std_Time.thy ===== *)
theory Std_Time
  imports Float64
begin

text \<open>
  \<open>std::time::Duration\<close> and \<open>std::time::Instant\<close>, as the sources use them. A duration is
  its number of nanoseconds; every duration of a program is at most \<open>DURATION_MAX\<close>
  (\<open>u64::MAX\<close> seconds and 999999999 nanoseconds). An instant is the reading of the
  monotonic clock in nanoseconds; on Linux its seconds are a signed 64-bit number, which
  bounds the instants by \<open>INSTANT_MAX\<close>. A \<open>SystemTime\<close> is its distance from the Unix epoch
  in nanoseconds, negative for times before it.
\<close>

type_synonym duration = nat
type_synonym instant = nat
type_synonym system_time = int

definition DURATION_MAX :: duration where
  "DURATION_MAX = 2 ^ 64 * 1000000000 - 1"

definition INSTANT_MAX :: instant where
  "INSTANT_MAX = 2 ^ 63 * 1000000000 - 1"

definition from_micros :: "u64 \<Rightarrow> duration" where
  "from_micros us = unat us * 1000"

definition from_nanos :: "u64 \<Rightarrow> duration" where
  "from_nanos ns = unat ns"

text \<open>\<open>d.as_micros() as u64\<close> and \<open>d.as_nanos() as u64\<close>: the casts keep the low 64 bits.\<close>

definition as_micros_u64 :: "duration \<Rightarrow> u64" where
  "as_micros_u64 d = of_nat (d div 1000)"

definition as_nanos_u64 :: "duration \<Rightarrow> u64" where
  "as_nanos_u64 d = of_nat d"

text \<open>The \<open>+\<close> of two durations panics on overflow.\<close>

definition duration_add :: "duration \<Rightarrow> duration \<Rightarrow> duration may_panic" where
  "duration_add a b = (if a + b \<le> DURATION_MAX then Returns (a + b) else Panics)"

definition as_secs_f64 :: "duration \<Rightarrow> f64" where
  "as_secs_f64 d = f64_add (f64_of_rat False (of_nat (d div 1000000000)))
     (f64_div (f64_of_rat False (of_nat (d mod 1000000000))) (Finite 1000000000))"

text \<open>
  \<open>Duration::try_from_secs_f64\<close>: an error for negative, non-finite and too large values,
  otherwise the nearest number of nanoseconds, ties to even.
\<close>

fun try_from_secs_f64 :: "f64 \<Rightarrow> duration option" where
  "try_from_secs_f64 (Finite q) =
     (if q < 0 \<or> 2 ^ 64 \<le> q then None
      else let n = nat (round_even (q * 1000000000)) in
        if n \<le> DURATION_MAX then Some n else None)"
| "try_from_secs_f64 NegZero = Some 0"
| "try_from_secs_f64 _ = None"

text \<open>\<open>duration_since\<close> and \<open>saturating_duration_since\<close> saturate at zero.\<close>

definition duration_since :: "instant \<Rightarrow> instant \<Rightarrow> duration" where
  "duration_since now earlier = now - earlier"

text \<open>\<open>Instant + Duration\<close> panics when the sum is no instant.\<close>

definition instant_add :: "instant \<Rightarrow> duration \<Rightarrow> instant may_panic" where
  "instant_add t d = (if t + d \<le> INSTANT_MAX then Returns (t + d) else Panics)"

lemma from_micros_le_MAX: "from_micros us \<le> DURATION_MAX"
proof -
  have "unat us < 2 ^ 64" using unat_bound [of us] by simp
  then show ?thesis by (simp add: from_micros_def DURATION_MAX_def)
qed

lemma as_micros_from_micros [simp]: "as_micros_u64 (from_micros us) = us"
  by (simp add: as_micros_u64_def from_micros_def)

lemma from_micros_eq_0_iff [simp]: "from_micros us = 0 \<longleftrightarrow> us = 0"
  by (simp add: from_micros_def unat_eq_zero)

lemma try_from_secs_f64_le_MAX: "try_from_secs_f64 x = Some d \<Longrightarrow> d \<le> DURATION_MAX"
  by (cases x) (auto simp: Let_def split: if_splits)

lemma as_secs_f64_nonneg: "f64_le f64_zero (as_secs_f64 d)"
  unfolding as_secs_f64_def
  by (intro f64_add_nonneg f64_div_nonneg f64_of_rat_nonneg of_nat_0_le_iff) simp

end
