(* ===== verification/Limiter.thy ===== *)
theory Limiter
  imports Ops Std_Time
begin

text \<open>
  The blocking concurrency limiter (\<open>fusecraft-core/src/limiter/concurrency.rs\<close>).

  Every critical section of the source, from one acquisition of the mutex to its release or to
  the wait on the condition variable, is one definition on the state the mutex protects; clock
  readings are arguments. The step relation \<open>lim_step\<close> runs any number of threads through
  these sections, with the condition variable of \<open>parking_lot\<close>: a notification moves one
  sleeping thread to the woken ones, a thread may wake without a notification, and a wait with
  a timeout may end by the timeout.
\<close>

section \<open>State and critical sections\<close>

record LimiterStats =
  stats_inflight :: usize
  stats_queued :: usize
  stats_acquired :: u64
  stats_rejected :: u64
  stats_queue_wait :: duration

record LimiterState =
  inflight :: usize
  queued :: usize
  total_acquired :: u64
  total_rejected :: u64
  total_queue_wait_ns :: u64

text \<open>The immutable part of a limiter; the state is passed explicitly.\<close>

record BlockingLimiter =
  cap :: usize
  queue_cap :: usize

definition BlockingLimiter_new :: "usize \<Rightarrow> usize \<Rightarrow> BlockingLimiter \<times> LimiterState" where
  "BlockingLimiter_new c q =
     (\<lparr>cap = c, queue_cap = q\<rparr>,
      \<lparr>inflight = 0, queued = 0, total_acquired = 0, total_rejected = 0, total_queue_wait_ns = 0\<rparr>)"

text \<open>How the first critical section of an acquisition ends.\<close>

datatype entry = Rejected | Admitted | Enqueued

definition acquire_enter :: "BlockingLimiter \<Rightarrow> LimiterState \<Rightarrow> entry \<times> LimiterState" where
  "acquire_enter l st =
     (if cap l = 0 then (Rejected, st\<lparr>total_rejected := total_rejected st + 1\<rparr>)
      else if inflight st < cap l then
        (Admitted, st\<lparr>inflight := inflight st + 1, total_acquired := total_acquired st + 1\<rparr>)
      else if queue_cap l \<le> queued st then
        (Rejected, st\<lparr>total_rejected := total_rejected st + 1\<rparr>)
      else (Enqueued, st\<lparr>queued := queued st + 1\<rparr>))"

text \<open>
  The loop body of \<open>acquire\<close> after the wait: the guard's queue wait, or \<open>None\<close> to wait again.
\<close>

definition acquire_wake ::
    "BlockingLimiter \<Rightarrow> LimiterState \<Rightarrow> instant \<Rightarrow> instant \<Rightarrow> duration option \<times> LimiterState" where
  "acquire_wake l st start now =
     (if inflight st < cap l then
        let queue_wait = duration_since now start in
        (Some queue_wait,
         st\<lparr>inflight := inflight st + 1, queued := queued st - 1,
            total_acquired := total_acquired st + 1,
            total_queue_wait_ns := total_queue_wait_ns st + as_nanos_u64 queue_wait\<rparr>)
      else (None, st))"

text \<open>\<open>acquire_timeout\<close>: give up the place in the queue.\<close>

definition timeout_leave :: "LimiterState \<Rightarrow> LimiterState" where
  "timeout_leave st = st\<lparr>queued := queued st - 1, total_rejected := total_rejected st + 1\<rparr>"

text \<open>
  The head of its loop: leave when the deadline has passed, otherwise wait for what remains.
\<close>

definition timeout_check :: "LimiterState \<Rightarrow> instant \<Rightarrow> instant \<Rightarrow> duration option \<times> LimiterState" where
  "timeout_check st deadline now =
     (let remaining = duration_since deadline now in
      if remaining = 0 then (None, timeout_leave st) else (Some remaining, st))"

text \<open>
  The deadline and the first check, after \<open>queued\<close> was incremented; the sum of the instant
  and the timeout may panic.
\<close>

definition timeout_arm ::
    "LimiterState \<Rightarrow> instant \<Rightarrow> duration \<Rightarrow> instant \<Rightarrow> (instant \<times> duration) option may_panic \<times> LimiterState" where
  "timeout_arm st start timeout now =
     (case instant_add start timeout of
        Panics \<Rightarrow> (Panics, st)
      | Returns deadline \<Rightarrow>
          (case timeout_check st deadline now of
             (None, st') \<Rightarrow> (Returns None, st')
           | (Some remaining, st') \<Rightarrow> (Returns (Some (deadline, remaining)), st')))"

text \<open>The loop body after the wait: a guard, a rejection, or another round of the loop.\<close>

datatype timed_wake = Timed_Admitted duration | Timed_Rejected | Timed_Waits

definition timeout_wake ::
    "BlockingLimiter \<Rightarrow> LimiterState \<Rightarrow> instant \<Rightarrow> instant \<Rightarrow> bool \<Rightarrow> instant \<Rightarrow> timed_wake \<times> LimiterState" where
  "timeout_wake l st start deadline timed_out now =
     (case acquire_wake l st start now of
        (Some queue_wait, st') \<Rightarrow> (Timed_Admitted queue_wait, st')
      | (None, st') \<Rightarrow>
          if timed_out then (Timed_Rejected, timeout_leave st')
          else (case timeout_check st' deadline now of
            (None, st'') \<Rightarrow> (Timed_Rejected, st'')
          | (Some _, st'') \<Rightarrow> (Timed_Waits, st'')))"

definition limiter_stats :: "LimiterState \<Rightarrow> LimiterStats" where
  "limiter_stats st =
     \<lparr>stats_inflight = inflight st, stats_queued = queued st, stats_acquired = total_acquired st,
      stats_rejected = total_rejected st, stats_queue_wait = from_nanos (total_queue_wait_ns st)\<rparr>"

text \<open>\<open>release\<close>, the drop of a guard: the notification is a part of the step relation.\<close>

definition release :: "LimiterState \<Rightarrow> LimiterState" where
  "release st = st\<lparr>inflight := inflight st - 1\<rparr>"

section \<open>The contract of an admission\<close>

text \<open>
  What a caller may rely on: \<open>load\<close> is how many threads are inside and in front; a rejection
  leaves it alone, an admission is undone by leaving, and leaving depends on nothing but the
  load.
\<close>

locale admission =
  fixes enter :: "'st \<Rightarrow> entry \<times> 'st"
    and leave :: "'st \<Rightarrow> 'st"
    and load :: "'st \<Rightarrow> usize \<times> usize"
  assumes rejected_keeps: "enter st = (Rejected, st') \<Longrightarrow> load st' = load st"
    and admitted_undone: "enter st = (Admitted, st') \<Longrightarrow> load (leave st') = load st"
    and leave_by_load: "load s = load s' \<Longrightarrow> load (leave s) = load (leave s')"
begin

text \<open>A visit that does not wait: enter, and leave after a use that keeps the load.\<close>

definition visit :: "('st \<Rightarrow> 'st) \<Rightarrow> 'st \<Rightarrow> 'st" where
  "visit use st = (case enter st of (Admitted, st1) \<Rightarrow> leave (use st1) | (_, st1) \<Rightarrow> st1)"

lemma used_slot_returned:
  "enter st = (Admitted, st1) \<Longrightarrow> load (use st1) = load st1 \<Longrightarrow> load (leave (use st1)) = load st"
  using admitted_undone leave_by_load by metis

lemma visit_keeps_load:
  assumes "\<And>s. load (use s) = load s" "fst (enter st) \<noteq> Enqueued"
  shows "load (visit use st) = load st"
proof (cases "enter st")
  case (Pair e st1)
  then show ?thesis
    using assms by (cases e) (simp_all add: visit_def rejected_keeps used_slot_returned)
qed

end

definition slots :: "LimiterState \<Rightarrow> usize \<times> usize" where
  "slots st = (inflight st, queued st)"

interpretation adm: admission "acquire_enter l" release slots for l
  by unfold_locales (auto simp: acquire_enter_def release_def slots_def split: if_splits)

section \<open>Threads\<close>

text \<open>
  Where a thread is: outside the limiter, asleep on the condition variable, taken off its
  queue but not running yet (with the flag whether the wait timed out), holding a guard, or
  unwound by a panic inside \<open>acquire_timeout\<close>.
\<close>

datatype lim_thread =
    Idle
  | Sleeping instant "instant option"
  | Woken instant "instant option" bool
  | Holding duration
  | Unwound

record lim_world =
  lim_state :: LimiterState
  lim_threads :: "lim_thread list"

definition set_thread :: "nat \<Rightarrow> lim_thread \<Rightarrow> LimiterState \<Rightarrow> lim_world \<Rightarrow> lim_world" where
  "set_thread i t st w = \<lparr>lim_state = st, lim_threads = (lim_threads w)[i := t]\<rparr>"

text \<open>Where the thread is after the first section of \<open>acquire\<close>.\<close>

definition after_enter :: "instant \<Rightarrow> entry \<Rightarrow> lim_thread" where
  "after_enter start e = (case e of Rejected \<Rightarrow> Idle | Admitted \<Rightarrow> Holding 0 | Enqueued \<Rightarrow> Sleeping start None)"

inductive lim_step :: "BlockingLimiter \<Rightarrow> lim_world \<Rightarrow> lim_world \<Rightarrow> bool" for l where
  acquire: "lim_step l w (set_thread i (after_enter start e) st w)"
    if "i < length (lim_threads w)" "lim_threads w ! i = Idle"
      "acquire_enter l (lim_state w) = (e, st)"
| acquire_timeout_now: "lim_step l w (set_thread i (after_enter start e) st w)"
    if "i < length (lim_threads w)" "lim_threads w ! i = Idle"
      "acquire_enter l (lim_state w) = (e, st)" "e \<noteq> Enqueued"
| acquire_timeout_arms:
    "lim_step l w (set_thread i
       (case r of Panics \<Rightarrow> Unwound | Returns None \<Rightarrow> Idle
        | Returns (Some (deadline, _)) \<Rightarrow> Sleeping start (Some deadline)) st' w)"
    if "i < length (lim_threads w)" "lim_threads w ! i = Idle"
      "acquire_enter l (lim_state w) = (Enqueued, st)" "timeout_arm st start timeout now = (r, st')"
| spurious_wake: "lim_step l w (set_thread i (Woken start d False) (lim_state w) w)"
    if "i < length (lim_threads w)" "lim_threads w ! i = Sleeping start d"
| wait_times_out: "lim_step l w (set_thread i (Woken start (Some d) True) (lim_state w) w)"
    if "i < length (lim_threads w)" "lim_threads w ! i = Sleeping start (Some d)"
| resume: "lim_step l w (set_thread i
       (case r of Some queue_wait \<Rightarrow> Holding queue_wait | None \<Rightarrow> Sleeping start None) st w)"
    if "i < length (lim_threads w)" "lim_threads w ! i = Woken start None b"
      "acquire_wake l (lim_state w) start now = (r, st)"
| resume_timeout: "lim_step l w (set_thread i
       (case r of Timed_Admitted queue_wait \<Rightarrow> Holding queue_wait | Timed_Rejected \<Rightarrow> Idle
        | Timed_Waits \<Rightarrow> Sleeping start (Some d)) st w)"
    if "i < length (lim_threads w)" "lim_threads w ! i = Woken start (Some d) b"
      "timeout_wake l (lim_state w) start d b now = (r, st)"
| release_notifies: "lim_step l w (set_thread j (Woken start d False) (release (lim_state w))
       (set_thread i Idle (release (lim_state w)) w))"
    if "i < length (lim_threads w)" "lim_threads w ! i = Holding q"
      "j < length (lim_threads w)" "lim_threads w ! j = Sleeping start d"
| release_unnoticed: "lim_step l w (set_thread i Idle (release (lim_state w)) w)"
    if "i < length (lim_threads w)" "lim_threads w ! i = Holding q"
      "\<forall>t\<in>set (lim_threads w). \<nexists>start d. t = Sleeping start d"

inductive_cases lim_stepE: "lim_step l w w'"

definition lim_init :: "BlockingLimiter \<Rightarrow> nat \<Rightarrow> lim_world" where
  "lim_init l n = \<lparr>lim_state = snd (BlockingLimiter_new (cap l) (queue_cap l)),
     lim_threads = replicate n Idle\<rparr>"

inductive lim_reachable :: "BlockingLimiter \<Rightarrow> lim_world \<Rightarrow> bool" for l where
  init: "lim_reachable l (lim_init l n)"
| step: "lim_reachable l w \<Longrightarrow> lim_step l w w' \<Longrightarrow> lim_reachable l w'"

section \<open>Invariants\<close>

fun is_holding :: "lim_thread \<Rightarrow> bool" where
  "is_holding (Holding _) = True"
| "is_holding _ = False"

fun is_sleeping :: "lim_thread \<Rightarrow> bool" where
  "is_sleeping (Sleeping _ _) = True"
| "is_sleeping _ = False"

fun is_woken :: "lim_thread \<Rightarrow> bool" where
  "is_woken (Woken _ _ _) = True"
| "is_woken _ = False"

text \<open>The threads the queue counter counts: the waiting ones, and the ones a panic unwound.\<close>

fun in_queue :: "lim_thread \<Rightarrow> bool" where
  "in_queue (Sleeping _ _) = True"
| "in_queue (Woken _ _ _) = True"
| "in_queue Unwound = True"
| "in_queue _ = False"

definition holders :: "lim_world \<Rightarrow> nat" where "holders w = count_if is_holding (lim_threads w)"
definition sleepers :: "lim_world \<Rightarrow> nat" where "sleepers w = count_if is_sleeping (lim_threads w)"
definition wakers :: "lim_world \<Rightarrow> nat" where "wakers w = count_if is_woken (lim_threads w)"
definition queuers :: "lim_world \<Rightarrow> nat" where "queuers w = count_if in_queue (lim_threads w)"

lemmas thread_counts = holders_def sleepers_def wakers_def queuers_def

text \<open>
  The counters of the state are the numbers of threads, within the capacities; and a free slot
  is never overlooked: while threads sleep there are at least as many woken threads as free
  slots.
\<close>

definition lim_inv :: "BlockingLimiter \<Rightarrow> lim_world \<Rightarrow> bool" where
  "lim_inv l w \<longleftrightarrow>
     unat (inflight (lim_state w)) = holders w \<and> holders w \<le> unat (cap l)
     \<and> unat (queued (lim_state w)) = queuers w \<and> queuers w \<le> unat (queue_cap l)
     \<and> (cap l = 0 \<longrightarrow> queuers w = 0)
     \<and> (0 < sleepers w \<longrightarrow> unat (cap l) - holders w \<le> wakers w)"

lemma lim_inv_init: "lim_inv l (lim_init l n)"
  by (simp add: lim_inv_def lim_init_def BlockingLimiter_new_def thread_counts count_if_replicate)

lemma set_thread_sel [simp]:
  "lim_state (set_thread i t st w) = st"
  "lim_threads (set_thread i t st w) = (lim_threads w)[i := t]"
  by (simp_all add: set_thread_def)

text \<open>How the counts move when one thread moves.\<close>

lemma set_thread_counts:
  assumes "i < length (lim_threads w)"
  shows "holders (set_thread i t st w) + of_bool (is_holding (lim_threads w ! i))
      = holders w + of_bool (is_holding t)"
    and "sleepers (set_thread i t st w) + of_bool (is_sleeping (lim_threads w ! i))
      = sleepers w + of_bool (is_sleeping t)"
    and "wakers (set_thread i t st w) + of_bool (is_woken (lim_threads w ! i))
      = wakers w + of_bool (is_woken t)"
    and "queuers (set_thread i t st w) + of_bool (in_queue (lim_threads w ! i))
      = queuers w + of_bool (in_queue t)"
  by (simp_all add: thread_counts count_if_update [OF assms])

lemma queuers_ge: "sleepers w + wakers w \<le> queuers w"
proof -
  have "count_if is_sleeping ts + count_if is_woken ts \<le> count_if in_queue ts" for ts
    by (induction ts) (auto simp: count_if_def elim!: is_sleeping.elims is_woken.elims)
  then show ?thesis by (simp add: thread_counts)
qed

text \<open>The effect of the critical sections on the counters, as numbers.\<close>

lemma unat_dec: "0 < unat a \<Longrightarrow> unat (a - 1) = unat a - 1" for a :: "'a::len word"
  by (rule unat_minus_one_pos) (simp add: word_less_nat_alt)

lemma acquire_enter_cases:
  assumes "acquire_enter l st = (e, st')"
  shows "e = Rejected \<and> (cap l = 0 \<or> \<not> inflight st < cap l \<and> queue_cap l \<le> queued st)
      \<and> inflight st' = inflight st \<and> queued st' = queued st
    \<or> e = Admitted \<and> cap l \<noteq> 0 \<and> inflight st < cap l
      \<and> unat (inflight st') = Suc (unat (inflight st)) \<and> queued st' = queued st
    \<or> e = Enqueued \<and> cap l \<noteq> 0 \<and> \<not> inflight st < cap l \<and> queued st < queue_cap l
      \<and> inflight st' = inflight st \<and> unat (queued st') = Suc (unat (queued st))"
  using assms
  by (auto simp: acquire_enter_def unat_Suc_no_overflow [of _ "cap l"]
      unat_Suc_no_overflow [of _ "queue_cap l"] split: if_splits)

lemma acquire_wake_cases:
  assumes "acquire_wake l st start now = (r, st')" "0 < unat (queued st)"
  shows "r = None \<and> \<not> inflight st < cap l \<and> st' = st
    \<or> (\<exists>q. r = Some q) \<and> inflight st < cap l \<and> unat (inflight st') = Suc (unat (inflight st))
      \<and> unat (queued st') = unat (queued st) - 1"
  using assms
  by (auto simp: acquire_wake_def unat_Suc_no_overflow unat_dec Let_def split: if_splits)

lemma timeout_leave_counters:
  "0 < unat (queued st) \<Longrightarrow> unat (queued (timeout_leave st)) = unat (queued st) - 1"
  "inflight (timeout_leave st) = inflight st"
  by (simp_all add: timeout_leave_def unat_dec)

lemma timeout_check_cases:
  assumes "timeout_check st deadline now = (r, st')"
  shows "r = None \<and> st' = timeout_leave st \<or> (\<exists>q. r = Some q) \<and> st' = st"
  using assms by (auto simp: timeout_check_def Let_def split: if_splits)

lemma timeout_arm_cases:
  assumes "timeout_arm st start timeout now = (r, st')"
  shows "r = Panics \<and> st' = st \<or> r = Returns None \<and> st' = timeout_leave st
    \<or> (\<exists>deadline q. r = Returns (Some (deadline, q))) \<and> st' = st"
  using assms timeout_check_cases
  by (fastforce simp: timeout_arm_def split: may_panic.splits prod.splits option.splits)

lemma timeout_wake_cases:
  assumes "timeout_wake l st start deadline b now = (r, st')" "0 < unat (queued st)"
  shows "r = Timed_Waits \<and> \<not> inflight st < cap l \<and> st' = st
    \<or> r = Timed_Rejected \<and> \<not> inflight st < cap l \<and> st' = timeout_leave st
    \<or> (\<exists>q. r = Timed_Admitted q) \<and> inflight st < cap l \<and> unat (inflight st') = Suc (unat (inflight st))
      \<and> unat (queued st') = unat (queued st) - 1"
proof -
  obtain v st1 where v: "acquire_wake l st start now = (v, st1)" by fastforce
  show ?thesis
    using assms(1) acquire_wake_cases [OF v assms(2)] v timeout_check_cases [of st deadline now]
    by (fastforce simp: timeout_wake_def split: option.splits prod.splits if_splits)
qed

lemma unat_zero_iff: "unat a = 0 \<longleftrightarrow> a = 0" for a :: "'a::len word"
  by (simp add: unat_eq_zero)

text \<open>One thread moves from one place to another.\<close>

lemma lim_inv_enter:
  assumes "lim_inv l w" "i < length (lim_threads w)" "lim_threads w ! i = Idle"
    and "acquire_enter l (lim_state w) = (e, st)"
  shows "lim_inv l (set_thread i (after_enter start e) st w)"
proof -
  note inv = assms(1) [unfolded lim_inv_def]
  note new = set_thread_counts [OF assms(2), of "after_enter start e" st]
  from acquire_enter_cases [OF assms(4)] show ?thesis
  proof (elim disjE conjE)
    assume "e = Rejected" "inflight st = inflight (lim_state w)" "queued st = queued (lim_state w)"
    then show ?thesis
      using inv new assms(3) by (simp add: lim_inv_def after_enter_def)
  next
    assume a: "e = Admitted" "inflight (lim_state w) < cap l" "cap l \<noteq> 0"
      "unat (inflight st) = Suc (unat (inflight (lim_state w)))" "queued st = queued (lim_state w)"
    then have "Suc (unat (inflight (lim_state w))) \<le> unat (cap l)" by (simp add: word_less_nat_alt)
    then show ?thesis
      using inv new assms(3) a by (auto simp: lim_inv_def after_enter_def)
  next
    assume a: "e = Enqueued" "\<not> inflight (lim_state w) < cap l" "cap l \<noteq> 0"
      "queued (lim_state w) < queue_cap l" "inflight st = inflight (lim_state w)"
      "unat (queued st) = Suc (unat (queued (lim_state w)))"
    then have "unat (cap l) \<le> unat (inflight (lim_state w))"
      "Suc (unat (queued (lim_state w))) \<le> unat (queue_cap l)"
      by (simp_all add: word_less_nat_alt)
    then show ?thesis
      using inv new assms(3) a by (auto simp: lim_inv_def after_enter_def)
  qed (use inv new assms(3) in \<open>simp add: lim_inv_def after_enter_def\<close>)
qed

lemma lim_inv_arm:
  assumes "lim_inv l w" "i < length (lim_threads w)" "lim_threads w ! i = Idle"
    and "acquire_enter l (lim_state w) = (Enqueued, st)" "timeout_arm st start timeout now = (r, st')"
  shows "lim_inv l (set_thread i
    (case r of Panics \<Rightarrow> Unwound | Returns None \<Rightarrow> Idle
     | Returns (Some (deadline, _)) \<Rightarrow> Sleeping start (Some deadline)) st' w)"
    (is "lim_inv l (set_thread i ?t st' w)")
proof -
  have e: "cap l \<noteq> 0" "\<not> inflight (lim_state w) < cap l" "queued (lim_state w) < queue_cap l"
    "inflight st = inflight (lim_state w)" "unat (queued st) = Suc (unat (queued (lim_state w)))"
    using acquire_enter_cases [OF assms(4)] by simp_all
  have l: "unat (queued (timeout_leave st)) = unat (queued (lim_state w))"
    "inflight (timeout_leave st) = inflight (lim_state w)"
    using timeout_leave_counters [of st] e(4,5) by simp_all
  from timeout_arm_cases [OF assms(5)] show ?thesis
    using assms(1,3) e l set_thread_counts [OF assms(2), of ?t st']
    by (auto simp: lim_inv_def word_less_nat_alt split: option.splits)
qed

lemma lim_inv_rewake:
  assumes "lim_inv l w" "i < length (lim_threads w)" "is_sleeping (lim_threads w ! i)"
  shows "lim_inv l (set_thread i (Woken start d b) (lim_state w) w)"
  using assms(1,3) set_thread_counts [OF assms(2), of "Woken start d b" "lim_state w"]
  by (cases "lim_threads w ! i") (auto simp: lim_inv_def)

lemma woken_in_queue:
  assumes "lim_inv l w" "i < length (lim_threads w)" "is_woken (lim_threads w ! i)"
  shows "0 < unat (queued (lim_state w))" "0 < wakers w"
proof -
  show "0 < wakers w" using assms(2,3) by (auto simp: wakers_def count_if_pos)
  then show "0 < unat (queued (lim_state w))"
    using assms(1) queuers_ge [of w] by (simp add: lim_inv_def)
qed

lemma lim_inv_resume:
  assumes "lim_inv l w" "i < length (lim_threads w)" "is_woken (lim_threads w ! i)"
    and "\<not> inflight (lim_state w) < cap l \<and> is_sleeping t \<and> st = lim_state w
      \<or> \<not> inflight (lim_state w) < cap l \<and> t = Idle \<and> st = timeout_leave (lim_state w)
      \<or> inflight (lim_state w) < cap l \<and> is_holding t
        \<and> unat (inflight st) = Suc (unat (inflight (lim_state w)))
        \<and> unat (queued st) = unat (queued (lim_state w)) - 1"
  shows "lim_inv l (set_thread i t st w)"
proof -
  have q: "0 < unat (queued (lim_state w))" "0 < wakers w"
    by (rule woken_in_queue [OF assms(1-3)])+
  have old: "\<not> is_holding (lim_threads w ! i)" "\<not> is_sleeping (lim_threads w ! i)"
    "in_queue (lim_threads w ! i)"
    using assms(3) by (auto elim!: is_woken.elims)
  have new: "is_sleeping t \<Longrightarrow> \<not> is_holding t \<and> \<not> is_woken t \<and> in_queue t"
    "is_holding t \<Longrightarrow> \<not> is_sleeping t \<and> \<not> is_woken t \<and> \<not> in_queue t"
    by (cases t; simp)+
  show ?thesis
    using assms(1,3,4) q old new set_thread_counts [OF assms(2), of t st]
      timeout_leave_counters(1) [OF q(1)] timeout_leave_counters(2) [of "lim_state w"]
    by (auto simp: lim_inv_def word_less_nat_alt)
qed

lemma lim_inv_release:
  assumes "lim_inv l w" "i < length (lim_threads w)" "lim_threads w ! i = Holding q"
  shows "unat (inflight (release (lim_state w))) = holders (set_thread i Idle st w)"
    "holders (set_thread i Idle st w) + 1 = holders w"
    "sleepers (set_thread i Idle st w) = sleepers w"
    "wakers (set_thread i Idle st w) = wakers w"
    "queuers (set_thread i Idle st w) = queuers w"
  using assms(1,3) set_thread_counts [OF assms(2), of Idle st]
  by (auto simp: lim_inv_def release_def unat_dec)

lemma lim_inv_step: "lim_step l w w' \<Longrightarrow> lim_inv l w \<Longrightarrow> lim_inv l w'"
proof (induction rule: lim_step.induct)
  case (acquire i w e st start)
  then show ?case by (intro lim_inv_enter)
next
  case (acquire_timeout_now i w e st start)
  then show ?case by (intro lim_inv_enter)
next
  case (acquire_timeout_arms i w st start timeout now r st')
  then show ?case by (intro lim_inv_arm)
next
  case (resume i w start b now r st)
  show ?case
    by (rule lim_inv_resume [OF resume.prems resume.hyps(1)])
      (use resume.hyps acquire_wake_cases [OF resume.hyps(3)]
        woken_in_queue(1) [OF resume.prems resume.hyps(1)] in auto)
next
  case (resume_timeout i w start d b now r st)
  show ?case
    by (rule lim_inv_resume [OF resume_timeout.prems resume_timeout.hyps(1)])
      (use resume_timeout.hyps timeout_wake_cases [OF resume_timeout.hyps(3)]
        woken_in_queue(1) [OF resume_timeout.prems resume_timeout.hyps(1)] in auto)
next
  case (release_notifies i w q j start d)
  let ?w = "set_thread i Idle (release (lim_state w)) w"
  have r: "unat (inflight (release (lim_state w))) = holders ?w" "holders ?w + 1 = holders w"
    "sleepers ?w = sleepers w" "wakers ?w = wakers w" "queuers ?w = queuers w"
    by (rule lim_inv_release [OF release_notifies.prems release_notifies.hyps(1,2)])+
  have j: "j < length (lim_threads ?w)" "lim_threads ?w ! j = Sleeping start d"
    using release_notifies.hyps by (auto simp: nth_list_update)
  have "is_sleeping (lim_threads w ! j)" using release_notifies.hyps(4) by simp
  then have "0 < sleepers w"
    unfolding sleepers_def count_if_pos using nth_mem [OF release_notifies.hyps(3)] by blast
  then show ?case
    using release_notifies.prems r j(2)
      set_thread_counts [OF j(1), of "Woken start d False" "release (lim_state w)"]
    by (auto simp: lim_inv_def release_def)
next
  case (release_unnoticed i w q)
  have "sleepers w = 0" using release_unnoticed.hyps(3) by (auto simp: sleepers_def count_if_eq_0 elim!: is_sleeping.elims)
  then show ?case
    using release_unnoticed.prems lim_inv_release [OF release_unnoticed.prems release_unnoticed.hyps(1,2)]
    by (auto simp: lim_inv_def release_def)
qed (auto intro!: lim_inv_rewake)

lemma lim_reachable_inv: "lim_reachable l w \<Longrightarrow> lim_inv l w"
  by (induction rule: lim_reachable.induct) (auto intro: lim_inv_init lim_inv_step)

section \<open>Properties\<close>

text \<open>C13. In every interleaving of any number of threads, with spurious wake-ups, time-outs and
  panics, the limiter never admits more threads than its capacity: \<open>inflight\<close> is the number of
  threads that hold a guard, and \<open>queued\<close> the number of threads in the queue, which never
  exceeds the queue capacity; no counter ever wraps around.\<close>

theorem limiter_counts_threads:
  assumes "lim_reachable l w"
  shows "unat (inflight (lim_state w)) = holders w
    \<and> holders w \<le> unat (cap l)
    \<and> unat (queued (lim_state w)) = queuers w
    \<and> queuers w \<le> unat (queue_cap l)"
  using lim_reachable_inv [OF assms] by (simp_all add: lim_inv_def)

definition two_by_one :: BlockingLimiter where
  "two_by_one = \<lparr>cap = 2, queue_cap = 1\<rparr>"

theorem limiter_counts_threads_witness: "holders (lim_init two_by_one 5) \<le> 2"
  using limiter_counts_threads [OF lim_reachable.init, of two_by_one 5]
  by (simp add: two_by_one_def)

text \<open>C14. No wake-up is lost: while a thread sleeps in the queue, some thread holds a slot and
  will release it, or some thread is already woken; and when a slot is free a woken thread
  exists, and that thread takes the slot as soon as it runs.\<close>

theorem no_lost_wakeup:
  assumes "lim_reachable l w" "\<exists>t\<in>set (lim_threads w). is_sleeping t"
  shows "((\<exists>t\<in>set (lim_threads w). is_holding t) \<or> (\<exists>t\<in>set (lim_threads w). is_woken t))
    \<and> (holders w < unat (cap l) \<longrightarrow> (\<exists>t\<in>set (lim_threads w). is_woken t)
      \<and> (\<forall>start now. fst (acquire_wake l (lim_state w) start now) = Some (duration_since now start)))"
proof (intro conjI impI)
  have inv: "lim_inv l w" by (rule lim_reachable_inv [OF assms(1)])
  have s: "0 < sleepers w" using assms(2) by (simp add: sleepers_def count_if_pos)
  then have "cap l \<noteq> 0" using inv queuers_ge [of w] by (auto simp: lim_inv_def)
  then have "0 < unat (cap l)" by (simp add: unat_gt_0)
  then have "0 < holders w \<or> 0 < wakers w" using inv s by (auto simp: lim_inv_def)
  then show "(\<exists>t\<in>set (lim_threads w). is_holding t) \<or> (\<exists>t\<in>set (lim_threads w). is_woken t)"
    by (simp add: thread_counts count_if_pos)
  show "\<exists>t\<in>set (lim_threads w). is_woken t" if "holders w < unat (cap l)"
  proof -
    have "0 < wakers w" using inv s that by (auto simp: lim_inv_def)
    then show ?thesis by (simp add: wakers_def count_if_pos)
  qed
  show "\<forall>start now. fst (acquire_wake l (lim_state w) start now) = Some (duration_since now start)"
    if "holders w < unat (cap l)"
  proof -
    have "inflight (lim_state w) < cap l" using inv that by (simp add: lim_inv_def word_less_nat_alt)
    then show ?thesis by (simp add: acquire_wake_def Let_def)
  qed
qed

text \<open>A run in which the holder of the only slot releases it to a sleeping thread.\<close>

definition one_by_one :: BlockingLimiter where
  "one_by_one = \<lparr>cap = 1, queue_cap = 1\<rparr>"

definition contended_state :: LimiterState where
  "contended_state = \<lparr>inflight = 1, queued = 1, total_acquired = 1, total_rejected = 0,
     total_queue_wait_ns = 0\<rparr>"

lemma one_by_one_admits:
  "lim_reachable one_by_one \<lparr>lim_state = contended_state\<lparr>queued := 0\<rparr>, lim_threads = [Holding 0, Idle]\<rparr>"
proof -
  have "lim_step one_by_one (lim_init one_by_one 2)
      (set_thread 0 (after_enter 0 Admitted) (contended_state\<lparr>queued := 0\<rparr>) (lim_init one_by_one 2))"
    by (rule lim_step.acquire)
      (simp_all add: lim_init_def one_by_one_def BlockingLimiter_new_def acquire_enter_def contended_state_def)
  then show ?thesis
    using lim_reachable.step [OF lim_reachable.init]
    by (fastforce simp: set_thread_def lim_init_def after_enter_def numeral_2_eq_2)
qed

lemma one_by_one_queues:
  "lim_reachable one_by_one \<lparr>lim_state = contended_state, lim_threads = [Holding 0, Sleeping 5 None]\<rparr>"
proof -
  let ?w = "\<lparr>lim_state = contended_state\<lparr>queued := 0\<rparr>, lim_threads = [Holding 0, Idle]\<rparr>"
  have "lim_step one_by_one ?w (set_thread 1 (after_enter 5 Enqueued) contended_state ?w)"
    by (rule lim_step.acquire)
      (simp_all add: one_by_one_def acquire_enter_def contended_state_def)
  then show ?thesis
    using lim_reachable.step [OF one_by_one_admits] by (fastforce simp: set_thread_def after_enter_def)
qed

theorem no_lost_wakeup_witness:
  "\<exists>t\<in>set [Holding 0, Sleeping 5 None]. is_holding t \<or> is_woken t"
  using no_lost_wakeup [OF one_by_one_queues] by simp

text \<open>An acquisition is rejected exactly when the capacity is zero, or all slots are taken
  and the queue is full; it is admitted at once exactly when a slot is free; otherwise it
  queues. Every branch updates its own counters only, and releasing the guard restores the
  occupancy from before the admission.\<close>

theorem acquire_decides:
  "(fst (acquire_enter l st) = Rejected
      \<longleftrightarrow> cap l = 0 \<or> cap l \<le> inflight st \<and> queue_cap l \<le> queued st)
   \<and> (fst (acquire_enter l st) = Admitted \<longleftrightarrow> inflight st < cap l)
   \<and> snd (acquire_enter l st) =
       (case fst (acquire_enter l st) of
          Rejected \<Rightarrow> st\<lparr>total_rejected := total_rejected st + 1\<rparr>
        | Admitted \<Rightarrow> st\<lparr>inflight := inflight st + 1, total_acquired := total_acquired st + 1\<rparr>
        | Enqueued \<Rightarrow> st\<lparr>queued := queued st + 1\<rparr>)
   \<and> inflight (release (st\<lparr>inflight := inflight st + 1\<rparr>)) = inflight st"
  by (auto simp: acquire_enter_def release_def not_less)

text \<open>A thread that \<open>acquire_timeout\<close> unwound stays so, and keeps its place in the queue.\<close>

lemma others_stay: "x \<in> set xs \<Longrightarrow> xs ! i \<noteq> x \<Longrightarrow> x \<in> set (xs[i := y])"
  by (metis in_set_conv_nth length_list_update nth_list_update_neq)

lemma unwound_stays:
  "lim_step l w w' \<Longrightarrow> Unwound \<in> set (lim_threads w) \<Longrightarrow> Unwound \<in> set (lim_threads w')"
  by (elim lim_stepE) (auto intro!: others_stay simp: nth_list_update split: if_splits)

lemma unwound_for_ever:
  "(lim_step l)\<^sup>*\<^sup>* w w' \<Longrightarrow> Unwound \<in> set (lim_threads w) \<Longrightarrow> Unwound \<in> set (lim_threads w')"
  by (induction rule: rtranclp_induct) (auto intro: unwound_stays)

lemma lim_reachable_path: "(lim_step l)\<^sup>*\<^sup>* w w' \<Longrightarrow> lim_reachable l w \<Longrightarrow> lim_reachable l w'"
  by (induction rule: rtranclp_induct) (auto intro: lim_reachable.step)

lemma unwound_fills_queue:
  assumes "lim_reachable l w" "Unwound \<in> set (lim_threads w)" "queue_cap l = 1"
  shows "queued (lim_state w) = 1"
proof -
  have "0 < queuers w" using assms(2) by (force simp: queuers_def count_if_pos)
  then have "unat (queued (lim_state w)) = 1" using lim_reachable_inv [OF assms(1)] assms(3) by (simp add: lim_inv_def)
  then show ?thesis by (simp add: word_unat_eq_iff)
qed

definition leaked_world :: lim_world where
  "leaked_world = \<lparr>lim_state = contended_state, lim_threads = [Holding 0, Unwound]\<rparr>"

text \<open>C37. A timeout that does not fit the clock leaks a queue slot: \<open>acquire_timeout\<close> counts
  itself into the queue before it computes its deadline, so the panic of that sum leaves
  \<open>queued\<close> incremented for ever. With a queue of one, one such call leaves the counter at one in
  every later state, so that no caller is ever queued again, although no thread may be waiting.\<close>

theorem timeout_overflow_leaks_queue_slot:
  "timeout_arm st start DURATION_MAX now = (Panics, st)
   \<and> lim_reachable one_by_one leaked_world \<and> lim_threads leaked_world = [Holding 0, Unwound]
   \<and> {w. (lim_step one_by_one)\<^sup>*\<^sup>* leaked_world w}
       \<subseteq> {w. queued (lim_state w) = 1 \<and> fst (acquire_enter one_by_one (lim_state w)) \<noteq> Enqueued}"
proof (intro conjI subsetI CollectI; (elim CollectE)?)
  let ?w = "\<lparr>lim_state = contended_state\<lparr>queued := 0\<rparr>, lim_threads = [Holding 0, Idle]\<rparr>"
  show arm: "timeout_arm st start DURATION_MAX now = (Panics, st)" for st start now
    by (simp add: timeout_arm_def instant_add_def DURATION_MAX_def INSTANT_MAX_def)
  have "lim_step one_by_one ?w (set_thread 1 Unwound contended_state ?w)"
    using lim_step.acquire_timeout_arms [of 1 ?w one_by_one contended_state 5 DURATION_MAX 5 Panics contended_state]
    by (simp add: one_by_one_def acquire_enter_def contended_state_def arm)
  then show reach: "lim_reachable one_by_one leaked_world"
    using lim_reachable.step [OF one_by_one_admits] by (fastforce simp: set_thread_def leaked_world_def)
  show "lim_threads leaked_world = [Holding 0, Unwound]" by (simp add: leaked_world_def)
  fix w
  assume later: "(lim_step one_by_one)\<^sup>*\<^sup>* leaked_world w"
  have "Unwound \<in> set (lim_threads w)"
    by (rule unwound_for_ever [OF later]) (simp add: leaked_world_def)
  then have "queued (lim_state w) = 1"
    using unwound_fills_queue [OF lim_reachable_path [OF later reach]] by (simp add: one_by_one_def)
  then show "queued (lim_state w) = 1" "fst (acquire_enter one_by_one (lim_state w)) \<noteq> Enqueued"
    by (simp_all add: acquire_enter_def one_by_one_def)
qed

end
