(* ===== verification/Bandwidth.thy ===== *)
theory Bandwidth
  imports Float64_Order Configuration Std_Time
begin

text \<open>
  The token-bucket bandwidth limiter (\<open>fusecraft-core/src/limiter/bandwidth.rs\<close>). The state
  the mutex protects is passed explicitly and every reading of the monotonic clock is an
  argument.
\<close>

section \<open>The bucket\<close>

record BandwidthStats =
  tokens_available :: f64
  stats_bytes_per_sec :: f64
  stats_burst_bytes :: u64
  stats_bytes_reserved :: u64
  stats_throttled :: u64

record BucketState =
  tokens :: f64
  last_refill :: instant
  total_bytes_reserved :: u64
  total_throttled :: u64

record BandwidthLimiter =
  rate :: f64
  capacity :: f64

definition BandwidthLimiter_new :: "BandwidthProfile \<Rightarrow> instant \<Rightarrow> BandwidthLimiter \<times> BucketState" where
  "BandwidthLimiter_new profile now =
     (\<lparr>rate = bytes_per_sec profile, capacity = f64_of_u64 (burst_bytes profile)\<rparr>,
      \<lparr>tokens = f64_of_u64 (burst_bytes profile), last_refill = now, total_bytes_reserved = 0,
       total_throttled = 0\<rparr>)"

definition refill :: "BandwidthLimiter \<Rightarrow> BucketState \<Rightarrow> instant \<Rightarrow> BucketState" where
  "refill l st now =
     (let elapsed = duration_since now (last_refill st) in
      if elapsed = 0 then st
      else
        let st1 =
          (if f64_lt f64_zero (rate l) then
             let added = f64_mul (as_secs_f64 elapsed) (rate l) in
             st\<lparr>tokens := f64_min (f64_add (tokens st) added) (capacity l)\<rparr>
           else st)
        in st1\<lparr>last_refill := now\<rparr>)"

definition reserve :: "BandwidthLimiter \<Rightarrow> BucketState \<Rightarrow> u64 \<Rightarrow> instant \<Rightarrow> duration \<times> BucketState" where
  "reserve l st bytes now =
     (if bytes = 0 then (0, st)
      else
        let st1 = st\<lparr>total_bytes_reserved := saturating_add (total_bytes_reserved st) bytes\<rparr> in
        if f64_le (rate l) f64_zero then (0, st1)
        else
          let st2 = refill l st1 now;
              needed = f64_of_u64 bytes;
              st3 = st2\<lparr>tokens := f64_sub (tokens st2) needed\<rparr> in
          if f64_le f64_zero (tokens st3) then (0, st3)
          else
            let st4 = st3\<lparr>total_throttled := total_throttled st3 + 1\<rparr>;
                deficit = f64_neg (tokens st4);
                wait_secs = f64_div deficit (rate l) in
            (case try_from_secs_f64 wait_secs of Some d \<Rightarrow> d | None \<Rightarrow> DURATION_MAX, st4))"

definition bandwidth_stats :: "BandwidthLimiter \<Rightarrow> BucketState \<Rightarrow> instant \<Rightarrow> BandwidthStats \<times> BucketState" where
  "bandwidth_stats l st now =
     (let st1 = refill l st now in
      (\<lparr>tokens_available = f64_max (tokens st1) f64_zero, stats_bytes_per_sec = rate l,
        stats_burst_bytes = f64_to_u64 (capacity l),
        stats_bytes_reserved = total_bytes_reserved st1, stats_throttled = total_throttled st1\<rparr>,
       st1))"

section \<open>The token balance\<close>

text \<open>
  A bucket whose balance is a representable number that does not exceed the capacity; the
  capacity is a finite non-negative number.
\<close>

definition bucket_ok :: "BandwidthLimiter \<Rightarrow> BucketState \<Rightarrow> bool" where
  "bucket_ok l st \<longleftrightarrow> is_finite (capacity l) \<and> f64_le f64_zero (capacity l) \<and> f64_repr (capacity l)
     \<and> f64_repr (tokens st) \<and> f64_le (tokens st) (capacity l)"

lemma bucket_ok_new:
  assumes "BandwidthLimiter_new profile now = (l, st)"
  shows "bucket_ok l st"
  using assms
  by (auto simp: BandwidthLimiter_new_def bucket_ok_def f64_of_u64_finite f64_of_u64_nonneg
      f64_of_u64_repr intro!: f64_le_refl)

lemma bucket_ok_refill: "bucket_ok l st \<Longrightarrow> bucket_ok l (refill l st now)"
  by (auto simp: bucket_ok_def refill_def Let_def intro!: f64_min_repr f64_add_repr f64_min_le
      dest: f64_le_nanD)

lemma f64_le_finite_not_inf: "f64_le x y \<Longrightarrow> is_finite y \<Longrightarrow> x \<noteq> Infinity False"
  by (auto simp: f64_le_def)

lemma f64_sub_le_bound:
  assumes "f64_repr x" "f64_le x c" "f64_le f64_zero y" "is_finite y"
  shows "f64_le (f64_sub x y) c"
proof (cases "x = Infinity True")
  case True
  then show ?thesis using assms(2) by (auto simp: f64_sub_infinity [OF assms(4)] dest: f64_le_nanD)
next
  case False
  have "x \<noteq> NaN" using assms(2) by (auto dest: f64_le_nanD)
  then show ?thesis
    using f64_sub_le(1) [OF assms(1) _ False assms(3,4)] assms(2) f64_le_trans by blast
qed

lemma bucket_ok_tokens:
  "bucket_ok l st \<Longrightarrow> tokens st' = tokens st \<Longrightarrow> bucket_ok l st'"
  by (simp add: bucket_ok_def)

lemma bucket_ok_reserve: "bucket_ok l st \<Longrightarrow> bucket_ok l (snd (reserve l st bytes now))"
proof -
  assume ok: "bucket_ok l st"
  define st2 where "st2 = refill l (st\<lparr>total_bytes_reserved := saturating_add (total_bytes_reserved st) bytes\<rparr>) now"
  have "bucket_ok l (st\<lparr>total_bytes_reserved := saturating_add (total_bytes_reserved st) bytes\<rparr>)"
    using ok by (simp add: bucket_ok_def)
  moreover from this have "bucket_ok l st2" unfolding st2_def by (rule bucket_ok_refill)
  then have "bucket_ok l (st2\<lparr>tokens := f64_sub (tokens st2) (f64_of_u64 bytes)\<rparr>)"
    by (simp add: bucket_ok_def f64_neg_sub_repr f64_sub_le_bound f64_of_u64_nonneg f64_of_u64_finite)
  ultimately show ?thesis
    using ok by (simp add: reserve_def Let_def st2_def [symmetric] bucket_ok_def)
qed

text \<open>A sequence of reservations and snapshots, each with its reading of the clock.\<close>

datatype bucket_call = Reserve u64 instant | Snapshot instant

fun bucket_run :: "BandwidthLimiter \<Rightarrow> BucketState \<Rightarrow> bucket_call list \<Rightarrow> BucketState" where
  "bucket_run l st [] = st"
| "bucket_run l st (Reserve bytes now # calls) = bucket_run l (snd (reserve l st bytes now)) calls"
| "bucket_run l st (Snapshot now # calls) = bucket_run l (snd (bandwidth_stats l st now)) calls"

lemma bucket_ok_run: "bucket_ok l st \<Longrightarrow> bucket_ok l (bucket_run l st calls)"
  by (induction l st calls rule: bucket_run.induct)
    (simp_all add: bucket_ok_reserve bucket_ok_refill bandwidth_stats_def Let_def)

section \<open>Accounting\<close>

fun bytes_reserved :: "bucket_call list \<Rightarrow> nat" where
  "bytes_reserved [] = 0"
| "bytes_reserved (Reserve bytes _ # calls) = unat bytes + bytes_reserved calls"
| "bytes_reserved (Snapshot _ # calls) = bytes_reserved calls"

lemma total_refill [simp]: "total_bytes_reserved (refill l st now) = total_bytes_reserved st"
  by (simp add: refill_def Let_def)

lemma total_reserve:
  "total_bytes_reserved (snd (reserve l st bytes now)) = saturating_add (total_bytes_reserved st) bytes"
proof (cases "bytes = 0")
  case True
  then have "saturating_add (total_bytes_reserved st) bytes = total_bytes_reserved st"
    using unat_bound [of "total_bytes_reserved st"] by (simp add: saturating_add_def)
  then show ?thesis using True by (simp add: reserve_def)
qed (simp add: reserve_def Let_def)

lemma total_run:
  "unat (total_bytes_reserved (bucket_run l st calls))
     = min (unat (total_bytes_reserved st) + bytes_reserved calls) (2 ^ 64 - 1)"
proof (induction l st calls rule: bucket_run.induct)
  case (1 l st)
  then show ?case using unat_bound [of "total_bytes_reserved st"] by simp
next
  case (2 l st bytes now calls)
  then show ?case by (simp add: total_reserve unat_saturating_add)
next
  case (3 l st now calls)
  then show ?case by (simp add: bandwidth_stats_def Let_def)
qed

section \<open>The integral bucket\<close>

text \<open>
  The specification: a bucket with an integral balance \<open>k\<close>, a burst of \<open>b\<close> and a rate of \<open>r\<close>
  bytes per second, whose reservations happen at whole seconds. As long as all quantities
  stay within \<open>2 ^ 53\<close> the arithmetic of the code is exact and computes this bucket.
\<close>

fun int_run :: "nat \<Rightarrow> nat \<Rightarrow> int \<Rightarrow> nat \<Rightarrow> (nat \<times> nat) list \<Rightarrow> int" where
  "int_run b r k last_s [] = k"
| "int_run b r k last_s ((n, s) # calls) =
     (if n = 0 then int_run b r k last_s calls
      else int_run b r (min (k + int (r * (s - last_s))) (int b) - int n) s calls)"

fun last_second :: "nat \<Rightarrow> (nat \<times> nat) list \<Rightarrow> nat" where
  "last_second last_s [] = last_s"
| "last_second last_s ((n, s) # calls) = (if n = 0 then last_second last_s calls else last_second s calls)"

definition reserve_at :: "instant \<Rightarrow> nat \<times> nat \<Rightarrow> bucket_call" where
  "reserve_at t0 = (\<lambda>(n, s). Reserve (of_nat n) (t0 + s * 1000000000))"

fun seconds_ascend :: "nat \<Rightarrow> (nat \<times> nat) list \<Rightarrow> bool" where
  "seconds_ascend last_s [] = True"
| "seconds_ascend last_s ((n, s) # calls) = (last_s \<le> s \<and> seconds_ascend s calls)"

lemma seconds_ascend_mono: "seconds_ascend s calls \<Longrightarrow> s' \<le> s \<Longrightarrow> seconds_ascend s' calls"
  by (cases calls) auto

lemma last_second_ge: "seconds_ascend s calls \<Longrightarrow> s \<le> last_second s calls"
proof (induction s calls rule: last_second.induct)
  case (2 last_s n s calls)
  then show ?case using seconds_ascend_mono [of s calls last_s] by (auto intro: order_trans)
qed simp

text \<open>The bytes granted never exceed the burst, the refill so far and the debt.\<close>

lemma int_run_le:
  "seconds_ascend last_s calls \<Longrightarrow>
     int_run b r k last_s calls + int (sum_list (map fst calls))
       \<le> k + int (r * (last_second last_s calls - last_s))"
proof (induction b r k last_s calls rule: int_run.induct)
  case (2 b r k last_s n s calls)
  show ?case
  proof (cases "n = 0")
    case True
    then show ?thesis using 2 seconds_ascend_mono [of s calls last_s] by simp
  next
    case False
    define e where "e = last_second s calls"
    define k1 where "k1 = min (k + int (r * (s - last_s))) (int b) - int n"
    have se: "last_s \<le> s" "s \<le> e" using 2(3) last_second_ge [of s calls] by (simp_all add: e_def)
    have "r * (s - last_s) + r * (e - s) = r * (e - last_s)"
      using se by (simp add: add_mult_distrib2 [symmetric])
    then have sum: "int (r * (e - last_s)) = int (r * (s - last_s)) + int (r * (e - s))"
      by (metis of_nat_add)
    have "int_run b r k1 s calls + int (sum_list (map fst calls)) \<le> k1 + int (r * (e - s))"
      using 2(2) [OF False] 2(3) unfolding k1_def e_def by simp
    moreover have "k1 \<le> k + int (r * (s - last_s)) - int n" by (simp add: k1_def)
    ultimately have "int_run b r k1 s calls + int (sum_list (map fst calls)) + int n
        \<le> k + int (r * (e - last_s))"
      unfolding sum by linarith
    then show ?thesis using False by (simp add: k1_def e_def)
  qed
qed simp

lemma f64_of_rat_int:
  assumes "\<bar>k\<bar> \<le> 2 ^ 53"
  shows "f64_of_rat False (of_int k) = Finite (of_int k)"
proof (cases "0 \<le> k")
  case True
  then show ?thesis using f64_of_rat_nat [of "nat k"] assms by simp
next
  case False
  define n where "n = nat (- k)"
  have n: "0 < n" "n \<le> 2 ^ 53" "(of_int k :: rat) = - of_nat n" using False assms by (simp_all add: n_def)
  have "(of_nat n :: rat) \<le> of_nat (2 ^ 53)" using n(2) by (simp only: of_nat_le_iff)
  also have "\<dots> < f64_overflow" by (simp add: f64_overflow_def)
  finally show ?thesis
    using round_pos_int [OF n(1,2)] n(1) by (simp add: f64_of_rat_def Let_def n(3))
qed

lemma f64_add_int:
  assumes "\<bar>j + k\<bar> \<le> 2 ^ 53"
  shows "f64_add (Finite (of_int j)) (Finite (of_int k)) = Finite (of_int (j + k))"
proof -
  have "f64_of_rat True 0 = NegZero" by (simp add: f64_of_rat_def)
  show ?thesis
  proof (cases "j + k = 0")
    case True
    then have "(of_int j :: rat) + of_int k = 0" "\<not> (j < 0 \<and> k < 0)"
      by (simp_all flip: of_int_add)
    then show ?thesis using True by (simp add: f64_of_rat_def del: of_int_add)
  next
    case False
    have b: "f64_of_rat b (of_int (j + k)) = f64_of_rat False (of_int (j + k))" for b
      using False unfolding f64_of_rat_def by (simp del: of_int_add)
    show ?thesis using f64_of_rat_int [OF assms] b by (simp flip: of_int_add)
  qed
qed

lemma f64_sub_int:
  assumes "\<bar>j - k\<bar> \<le> 2 ^ 53" "k \<noteq> 0"
  shows "f64_sub (Finite (of_int j)) (Finite (of_int k)) = Finite (of_int (j - k))"
  using f64_add_int [of j "- k"] assms by (simp add: f64_sub_def)

lemma as_secs_f64_whole:
  assumes "s \<le> 2 ^ 53"
  shows "as_secs_f64 (s * 1000000000) = Finite (of_nat s)"
  using assms f64_of_rat_nat [OF assms] f64_of_rat_nat [of 0]
  by (simp add: as_secs_f64_def f64_of_rat_def [of _ 0])

lemma f64_mul_nat:
  "m * n \<le> 2 ^ 53 \<Longrightarrow> f64_mul (Finite (of_nat m)) (Finite (of_nat n)) = Finite (of_nat (m * n))"
  using f64_of_rat_nat [of "m * n"] by simp

lemma f64_min_int: "f64_min (Finite (of_int j)) (Finite (of_int k)) = Finite (of_int (min j k))"
  by (auto simp: f64_min_def f64_lt_def min_def)

text \<open>A bucket of the code that represents an integral balance.\<close>

definition integral :: "nat \<Rightarrow> nat \<Rightarrow> instant \<Rightarrow> BandwidthLimiter \<Rightarrow> int \<Rightarrow> nat \<Rightarrow> BucketState \<Rightarrow> bool" where
  "integral b r t0 l k last_s st \<longleftrightarrow> rate l = Finite (of_nat r) \<and> capacity l = Finite (of_nat b)
     \<and> tokens st = Finite (of_int k) \<and> last_refill st = t0 + last_s * 1000000000"

lemma refill_integral:
  assumes "integral b r t0 l k last_s st" "0 < r" "last_s \<le> s" "k \<le> int b"
    and "r * (s - last_s) \<le> 2 ^ 53" "\<bar>k + int (r * (s - last_s))\<bar> \<le> 2 ^ 53"
  shows "integral b r t0 l (min (k + int (r * (s - last_s))) (int b)) s
    (refill l st (t0 + s * 1000000000))"
proof (cases "s = last_s")
  case True
  then show ?thesis using assms(1,4) by (simp add: integral_def refill_def duration_since_def)
next
  case False
  define d where "d = s - last_s"
  have "d \<le> r * d" using assms(2) by simp
  also have "\<dots> \<le> 2 ^ 53" using assms(5) by (simp only: d_def)
  finally have d: "d \<le> 2 ^ 53" "0 < d" "t0 + s * 1000000000 - (t0 + last_s * 1000000000) = d * 1000000000"
    using False assms(3) by (simp_all add: d_def diff_mult_distrib)
  have "f64_mul (as_secs_f64 (d * 1000000000)) (rate l) = Finite (of_int (int (r * d)))"
    using assms(1,5) f64_mul_nat [of d r] as_secs_f64_whole [OF d(1)]
    by (simp add: integral_def d_def mult.commute)
  moreover have "f64_add (tokens st) (Finite (of_int (int (r * d)))) = Finite (of_int (k + int (r * d)))"
    using assms(1,6) f64_add_int [of k "int (r * d)"] by (simp only: integral_def d_def)
  moreover have "f64_min (Finite (of_int (k + int (r * d)))) (capacity l)
      = Finite (of_int (min (k + int (r * d)) (int b)))"
    using assms(1) f64_min_int [of "k + int (r * d)" "int b"] by (simp only: integral_def of_int_of_nat_eq)
  moreover have "f64_lt f64_zero (rate l)" using assms(1,2) by (simp add: integral_def f64_lt_def)
  ultimately show ?thesis
    using assms(1) d by (simp add: integral_def refill_def duration_since_def Let_def d_def [symmetric])
qed

lemma f64_of_u64_nat: "n \<le> 2 ^ 53 \<Longrightarrow> f64_of_u64 (of_nat n) = Finite (of_int (int n))"
  using f64_of_u64_exact [of "of_nat n"] by (simp add: unat_of_nat)

lemma word_of_nat_eq_0: "n \<le> 2 ^ 53 \<Longrightarrow> (of_nat n :: u64) = 0 \<longleftrightarrow> n = 0"
  by (simp add: word_unat_eq_iff unat_of_nat)

text \<open>One reservation on an integral balance, and the wait it returns.\<close>

definition wait_for :: "nat \<Rightarrow> int \<Rightarrow> duration" where
  "wait_for r k =
     (if 0 \<le> k then 0
      else case try_from_secs_f64 (f64_div (Finite (of_int (- k))) (Finite (of_nat r))) of
        Some d \<Rightarrow> d | None \<Rightarrow> DURATION_MAX)"

lemma reserve_integral:
  assumes "integral b r t0 l k last_s st" "0 < r" "last_s \<le> s" "k \<le> int b" "0 < n"
    and "\<bar>k\<bar> + int (r * (s - last_s)) + int n \<le> 2 ^ 53"
  defines "k' \<equiv> min (k + int (r * (s - last_s))) (int b) - int n"
  shows "integral b r t0 l k' s (snd (reserve l st (of_nat n) (t0 + s * 1000000000)))"
    and "fst (reserve l st (of_nat n) (t0 + s * 1000000000)) = wait_for r k'"
proof -
  define A where "A = int (r * (s - last_s))"
  define k1 where "k1 = min (k + A) (int b)"
  have A: "0 \<le> A" "\<bar>k\<bar> + A + int n \<le> 2 ^ 53" using assms(6) by (simp_all add: A_def)
  have "k1 \<le> k + A" "- \<bar>k\<bar> \<le> k1" using A(1) by (simp add: k1_def, auto simp: k1_def min_def)
  then have "\<bar>k1 - int n\<bar> \<le> \<bar>k\<bar> + A + int n" using A(1) by linarith
  moreover have "int n \<le> int (2 ^ 53)" using A by simp
  ultimately have bounds: "A \<le> 2 ^ 53" "\<bar>k + A\<bar> \<le> 2 ^ 53" "n \<le> 2 ^ 53" "\<bar>k1 - int n\<bar> \<le> 2 ^ 53"
    using A by (linarith, linarith, simp only: of_nat_le_iff, linarith)
  have "int (r * (s - last_s)) \<le> int (2 ^ 53)" using bounds(1) by (simp add: A_def)
  then have An: "r * (s - last_s) \<le> 2 ^ 53" by (simp only: of_nat_le_iff)
  let ?st1 = "st\<lparr>total_bytes_reserved := saturating_add (total_bytes_reserved st) (of_nat n)\<rparr>"
  define st2 where "st2 = refill l ?st1 (t0 + s * 1000000000)"
  have "integral b r t0 l k last_s ?st1" using assms(1) by (simp add: integral_def)
  then have st2: "integral b r t0 l k1 s st2"
    unfolding st2_def k1_def A_def
    by (rule refill_integral [OF _ assms(2,3,4) An bounds(2) [unfolded A_def]])
  have tok: "tokens st2 = Finite (of_int k1)" using st2 by (simp only: integral_def)
  have sub: "f64_sub (Finite (of_int k1)) (f64_of_u64 (of_nat n)) = Finite (of_int (k1 - int n))"
    using f64_sub_int [OF bounds(4)] assms(5) f64_of_u64_nat [OF bounds(3)] by simp
  have n0: "(of_nat n :: u64) \<noteq> 0" using word_of_nat_eq_0 [OF bounds(3)] assms(5) by simp
  have rate: "rate l = Finite (of_nat r)" "\<not> f64_le (rate l) f64_zero"
    using assms(1,2) by (simp_all add: integral_def)
  have k': "k' = k1 - int n" by (simp add: k'_def k1_def A_def)
  have neg: "f64_neg (Finite (of_int k')) = Finite (of_int (- k'))" if "k' < 0" using that by simp
  have sign: "f64_le f64_zero (Finite (of_int k')) \<longleftrightarrow> 0 \<le> k'" by simp
  show "integral b r t0 l k' s (snd (reserve l st (of_nat n) (t0 + s * 1000000000)))"
    using st2 n0 rate
    by (simp add: reserve_def Let_def st2_def [symmetric] tok sub [folded k'] integral_def del: of_int_diff)
  show "fst (reserve l st (of_nat n) (t0 + s * 1000000000)) = wait_for r k'"
    using n0 rate neg
    by (simp add: reserve_def Let_def st2_def [symmetric] tok sub [folded k'] wait_for_def del: f64_neg.simps f64_div.simps)
qed

lemma bucket_run_integral:
  assumes "integral b r t0 l k last_s st" "0 < r" "k \<le> int b" "seconds_ascend last_s calls"
    and "\<bar>k\<bar> + int (r * (last_second last_s calls - last_s)) + int (sum_list (map fst calls)) \<le> 2 ^ 53"
  shows "integral b r t0 l (int_run b r k last_s calls) (last_second last_s calls)
    (bucket_run l st (map (reserve_at t0) calls))"
  using assms
proof (induction b r k last_s calls arbitrary: st rule: int_run.induct)
  case (2 b r k last_s n s calls)
  show ?case
  proof (cases "n = 0")
    case True
    then show ?thesis
      using 2(1) [OF True 2(3,4,5)] 2(6,7) seconds_ascend_mono [of s calls last_s]
      by (simp add: reserve_at_def reserve_def)
  next
    case False
    define e where "e = last_second s calls"
    define k' where "k' = min (k + int (r * (s - last_s))) (int b) - int n"
    have se: "last_s \<le> s" "s \<le> e" using 2(6) last_second_ge [of s calls] by (simp_all add: e_def)
    have "r * (s - last_s) + r * (e - s) = r * (e - last_s)"
      using se by (simp add: add_mult_distrib2 [symmetric])
    then have sum: "int (r * (e - last_s)) = int (r * (s - last_s)) + int (r * (e - s))"
      by (metis of_nat_add)
    have total: "\<bar>k\<bar> + int (r * (s - last_s)) + int (r * (e - s)) + int n
        + int (sum_list (map fst calls)) \<le> 2 ^ 53"
      using 2(7) False sum by (simp add: e_def [symmetric] del: of_nat_mult)
    then have b1: "\<bar>k\<bar> + int (r * (s - last_s)) + int n \<le> 2 ^ 53" by linarith
    have "0 \<le> int (r * (s - last_s))" by simp
    then have b2: "\<bar>k'\<bar> + int (r * (e - s)) + int (sum_list (map fst calls)) \<le> 2 ^ 53"
      using total unfolding k'_def by linarith
    have step: "integral b r t0 l k' s (snd (reserve l st (of_nat n) (t0 + s * 1000000000)))"
      unfolding k'_def by (rule reserve_integral(1) [OF 2(3) 2(4) se(1) 2(5) _ b1]) (use False in simp)
    have "k' \<le> int b" by (simp add: k'_def)
    then show ?thesis
      using 2(2) [OF False step [unfolded k'_def] 2(4)] 2(6) b2 False
      by (simp add: k'_def e_def reserve_at_def)
  qed
qed simp

lemma wait_for_whole:
  assumes "0 < r" "r * d \<le> 2 ^ 53"
  shows "wait_for r (- int (r * d)) = d * 1000000000"
proof -
  have "1 * d \<le> r * d" using assms(1) by (intro mult_le_mono1) simp
  then have d: "d \<le> 2 ^ 53" using assms(2) by linarith
  have neg: "\<not> (of_nat r * of_nat d :: rat) < 0" by (simp only: not_less of_nat_mult [symmetric] of_nat_0_le_iff)
  have div: "f64_div (Finite (of_int (int (r * d)))) (Finite (of_nat r)) = Finite (of_nat d)"
    using assms(1) f64_of_rat_nat [OF d] neg by simp
  have n: "nat (round_even (of_nat d * 1000000000)) = d * 1000000000"
    using round_even_of_int [of "int (d * 1000000000)"] by simp
  have "(of_nat d :: rat) < of_nat (2 ^ 64)" using d by (simp only: of_nat_less_iff) simp
  then have lt: "\<not> (2 ^ 64 \<le> (of_nat d :: rat))" by simp
  have "d * 1000000000 \<le> DURATION_MAX" using d by (simp add: DURATION_MAX_def)
  then have t: "try_from_secs_f64 (Finite (of_nat d)) = Some (d * 1000000000)"
    using lt n by (simp add: Let_def)
  show ?thesis
  proof (cases "r * d = 0")
    case True
    then have "d = 0" using assms(1) by simp
    then show ?thesis by (simp add: wait_for_def)
  next
    case False
    then have "0 < int (r * d)" by (simp only: of_nat_0_less_iff neq0_conv)
    then have "\<not> 0 \<le> - int (r * d)" by linarith
    then show ?thesis
      unfolding wait_for_def by (simp only: if_False minus_minus div t option.case)
  qed
qed

section \<open>Properties\<close>

text \<open>Whatever the profile, the calls and the clock readings are, the token balance never
  exceeds the burst capacity and never becomes a NaN, so no burst larger than the configured
  one is ever granted; the balance a snapshot reports lies between zero and the capacity.\<close>

theorem balance_never_exceeds_burst:
  fixes profile :: BandwidthProfile and t0 now :: instant and calls :: "bucket_call list"
  defines "l \<equiv> fst (BandwidthLimiter_new profile t0)"
  defines "st \<equiv> bucket_run l (snd (BandwidthLimiter_new profile t0)) calls"
  shows "f64_le (tokens st) (f64_of_u64 (burst_bytes profile))
    \<and> f64_le f64_zero (tokens_available (fst (bandwidth_stats l st now)))
    \<and> f64_le (tokens_available (fst (bandwidth_stats l st now))) (f64_of_u64 (burst_bytes profile))"
proof (intro conjI impI)
  have cap: "capacity l = f64_of_u64 (burst_bytes profile)"
    by (simp add: l_def BandwidthLimiter_new_def)
  have ok: "bucket_ok l st"
    unfolding st_def l_def
    by (rule bucket_ok_run, rule bucket_ok_new [OF prod.collapse [symmetric]])
  then show "f64_le (tokens st) (f64_of_u64 (burst_bytes profile))" by (simp add: bucket_ok_def cap)
  have "bucket_ok l (refill l st now)" by (rule bucket_ok_refill [OF ok])
  then show "f64_le f64_zero (tokens_available (fst (bandwidth_stats l st now)))"
    and "f64_le (tokens_available (fst (bandwidth_stats l st now))) (f64_of_u64 (burst_bytes profile))"
    unfolding cap [symmetric]
    by (auto simp: bandwidth_stats_def Let_def bucket_ok_def intro!: f64_max_ge f64_max_leI)
qed

text \<open>The reported number of reserved bytes is the exact sum of all reservations, capped at
  the largest \<open>u64\<close> instead of wrapping around; a reservation of zero bytes changes nothing and
  never waits, even when the bucket is in debt; and with a rate that is not positive no
  reservation waits or touches the balance.\<close>

theorem reserved_bytes_accounted:
  "unat (total_bytes_reserved (bucket_run l st calls))
     = min (unat (total_bytes_reserved st) + bytes_reserved calls) (2 ^ 64 - 1)
   \<and> reserve l st 0 now = (0, st)
   \<and> (f64_lt f64_zero r \<or> r = NaN
      \<or> fst (reserve (l\<lparr>rate := r\<rparr>) st n now) = 0
        \<and> tokens (snd (reserve (l\<lparr>rate := r\<rparr>) st n now)) = tokens st)"
  using f64_le_linear [of r f64_zero]
  by (auto simp: total_run reserve_def Let_def f64_lt_iff)

lemma bucket_rate_law:
  assumes "0 < r" "seconds_ascend 0 calls"
    and "b + r * last_second 0 calls + sum_list (map fst calls) \<le> 2 ^ 53"
    and "bytes_per_sec profile = Finite (of_nat r)" "burst_bytes profile = of_nat b"
  shows "tokens (bucket_run (fst (BandwidthLimiter_new profile t0)) (snd (BandwidthLimiter_new profile t0))
      (map (reserve_at t0) calls)) = Finite (of_int (int_run b r (int b) 0 calls))
    \<and> int (sum_list (map fst calls)) + int_run b r (int b) 0 calls \<le> int b + int (r * last_second 0 calls)"
proof (intro conjI impI)
  have "b \<le> 2 ^ 53" using assms(3) by simp
  then have "integral b r t0 (fst (BandwidthLimiter_new profile t0)) (int b) 0
      (snd (BandwidthLimiter_new profile t0))"
    using assms(4,5) f64_of_u64_nat [of b] by (simp add: integral_def BandwidthLimiter_new_def)
  moreover have "int (b + r * last_second 0 calls + sum_list (map fst calls)) \<le> int (2 ^ 53)"
    using assms(3) by (simp only: of_nat_le_iff)
  ultimately have "integral b r t0 (fst (BandwidthLimiter_new profile t0))
      (int_run b r (int b) 0 calls) (last_second 0 calls)
      (bucket_run (fst (BandwidthLimiter_new profile t0)) (snd (BandwidthLimiter_new profile t0))
        (map (reserve_at t0) calls))"
    by (intro bucket_run_integral [OF _ assms(1) _ assms(2)]) simp_all
  then show "tokens (bucket_run (fst (BandwidthLimiter_new profile t0)) (snd (BandwidthLimiter_new profile t0))
      (map (reserve_at t0) calls)) = Finite (of_int (int_run b r (int b) 0 calls))"
    by (simp add: integral_def)
  show "int (sum_list (map fst calls)) + int_run b r (int b) 0 calls \<le> int b + int (r * last_second 0 calls)"
    using int_run_le [OF assms(2), of b r "int b"] by simp
qed


definition kib_profile :: BandwidthProfile where
  "kib_profile = \<lparr>bytes_per_sec = Finite (of_nat 1000), burst_bytes = of_nat 4096\<rparr>"


text \<open>The wait a reservation returns is zero when the balance covers it, and otherwise the
  time the debt takes at the configured rate: a debt of \<open>d\<close> seconds' worth of bytes waits
  exactly \<open>d\<close> seconds.\<close>

theorem wait_is_debt_over_rate:
  assumes "integral b r t0 l k last_s st" "0 < r" "last_s \<le> s" "k \<le> int b" "0 < n"
    and "\<bar>k\<bar> + int (r * (s - last_s)) + int n \<le> 2 ^ 53"
    and "int n = min (k + int (r * (s - last_s))) (int b) + int (r * d)" "r * d \<le> 2 ^ 53"
  shows "fst (reserve l st (of_nat n) (t0 + s * 1000000000)) = d * 1000000000"
proof -
  have "min (k + int (r * (s - last_s))) (int b) - int n = - int (r * d)" using assms(7) by simp
  then show ?thesis
    using reserve_integral(2) [OF assms(1-6)] wait_for_whole [OF assms(2,8)] by simp
qed

theorem wait_is_debt_over_rate_witness:
  "fst (reserve (fst (BandwidthLimiter_new kib_profile 7)) (snd (BandwidthLimiter_new kib_profile 7))
     (of_nat 6096) (7 + 0 * 1000000000)) = 2 * 1000000000"
  by (rule wait_is_debt_over_rate [where b = 4096 and r = 1000 and k = 4096 and last_s = 0])
    (use f64_of_u64_nat [of 4096] in \<open>simp_all add: integral_def BandwidthLimiter_new_def kib_profile_def\<close>)

end
