(* ===== verification/Events.thy ===== *)
theory Events
  imports Ops Std_Time
begin

text \<open>
  The event log (\<open>fusecraft-core/src/events\<close>): the event record, the fields it is serialized
  with, and the two sinks. A sink is a function from its state and an event to its new state.
  The text of a JSON object is produced by \<open>serde_json\<close> and is a parameter.
\<close>

type_synonym u128 = "128 word"

datatype Outcome = Outcome_Ok | Outcome_Error

record Event =
  ts_unix_nanos :: u128
  ev_seq :: u64
  ev_op :: FsOp
  ev_ino :: u64
  ev_offset :: u64
  ev_len :: usize
  ev_outcome :: Outcome
  ev_errno :: "i32 option"
  ev_queue_wait_us :: u64
  ev_injected_latency_us :: u64
  ev_bandwidth_delay_us :: u64
  ev_total_duration_us :: u64

type_synonym 's event_sink = "'s \<Rightarrow> Event \<Rightarrow> 's"

section \<open>Serialization\<close>

text \<open>The values of the serde data model an event is made of.\<close>

datatype json = JNum int | JStr string

text \<open>The name of an outcome under \<open>rename_all = "lowercase"\<close>.\<close>

fun outcome_name :: "Outcome \<Rightarrow> string" where
  "outcome_name Outcome_Ok = ''ok''"
| "outcome_name Outcome_Error = ''error''"

text \<open>
  The fields in the order of the declaration; \<open>errno\<close> is left out when there is none.
\<close>

definition event_fields :: "Event \<Rightarrow> (string \<times> json) list" where
  "event_fields e =
     [(''ts_unix_nanos'', JNum (uint (ts_unix_nanos e))), (''seq'', JNum (uint (ev_seq e))),
      (''op'', JStr (serde_name (ev_op e))), (''ino'', JNum (uint (ev_ino e))),
      (''offset'', JNum (uint (ev_offset e))), (''len'', JNum (uint (ev_len e))),
      (''outcome'', JStr (outcome_name (ev_outcome e)))]
     @ (case ev_errno e of None \<Rightarrow> [] | Some n \<Rightarrow> [(''errno'', JNum n)])
     @ [(''queue_wait_us'', JNum (uint (ev_queue_wait_us e))),
        (''injected_latency_us'', JNum (uint (ev_injected_latency_us e))),
        (''bandwidth_delay_us'', JNum (uint (ev_bandwidth_delay_us e))),
        (''total_duration_us'', JNum (uint (ev_total_duration_us e)))]"

section \<open>The sinks\<close>

definition null_emit :: "'s event_sink" where
  "null_emit s e = s"

text \<open>
  The JSON-lines sink: the bytes in the file and the bytes in the buffer. Writing a line may
  fail, with a part of it in the buffer; a failure is ignored. The argument \<open>accepts\<close> says how
  many bytes the writer takes before it fails, and \<open>None\<close> that it does not fail.
\<close>

record JsonlEventSink =
  jsonl_file :: string
  jsonl_buffer :: string

definition JsonlEventSink_create :: "string \<Rightarrow> JsonlEventSink" where
  "JsonlEventSink_create previous = \<lparr>jsonl_file = [], jsonl_buffer = []\<rparr>"

definition jsonl_flush :: "JsonlEventSink \<Rightarrow> JsonlEventSink" where
  "jsonl_flush s = s\<lparr>jsonl_file := jsonl_file s @ jsonl_buffer s, jsonl_buffer := []\<rparr>"

definition jsonl_emit ::
    "((string \<times> json) list \<Rightarrow> string option) \<Rightarrow> nat option \<Rightarrow> JsonlEventSink event_sink" where
  "jsonl_emit to_json accepts s e =
     (case to_json (event_fields e) of None \<Rightarrow> s
      | Some text \<Rightarrow>
          let line = text @ [CHR 0x0A];
              written = (case accepts of None \<Rightarrow> line | Some n \<Rightarrow> take n line)
          in s\<lparr>jsonl_buffer := jsonl_buffer s @ written\<rparr>)"

text \<open>The wall clock in nanoseconds since the epoch, zero for times before it.\<close>

definition now_unix_nanos :: "system_time \<Rightarrow> u128" where
  "now_unix_nanos now = (if 0 \<le> now then of_int now else 0)"

section \<open>The contract of a sink\<close>

text \<open>
  What the engine relies on: an event appends its own line to what was written, whatever was
  emitted before. The client's view of a sequence of emissions follows once for every sink.
\<close>

locale event_log =
  fixes emit :: "'s \<Rightarrow> Event \<Rightarrow> 's"
    and written :: "'s \<Rightarrow> string"
    and line :: "Event \<Rightarrow> string"
  assumes emit_writes: "written (emit s e) = written s @ line e"
begin

lemma emit_all_writes: "written (foldl emit s es) = written s @ concat (map line es)"
  by (induction es arbitrary: s) (simp_all add: emit_writes)

end

text \<open>The line of an event, empty when it cannot be serialized.\<close>

definition jsonl_line :: "((string \<times> json) list \<Rightarrow> string option) \<Rightarrow> Event \<Rightarrow> string" where
  "jsonl_line to_json e = (case to_json (event_fields e) of None \<Rightarrow> [] | Some text \<Rightarrow> text @ [CHR 0x0A])"

definition jsonl_written :: "JsonlEventSink \<Rightarrow> string" where
  "jsonl_written s = jsonl_file s @ jsonl_buffer s"

interpretation jl: event_log "jsonl_emit to_json None" jsonl_written "jsonl_line to_json" for to_json
  by unfold_locales (simp add: jsonl_emit_def jsonl_line_def jsonl_written_def split: option.split)

interpretation nl: event_log null_emit "\<lambda>_. []" "\<lambda>_. []"
  by unfold_locales simp

lemma jsonl_flush_writes: "jsonl_file (jsonl_flush s) = jsonl_written s"
  by (simp add: jsonl_flush_def jsonl_written_def)

section \<open>Properties\<close>

definition jsonl_text :: "((string \<times> json) list \<Rightarrow> string option) \<Rightarrow> Event list \<Rightarrow> string" where
  "jsonl_text to_json es = concat (map (jsonl_line to_json) es)"

lemma jsonl_log_text:
  "jsonl_file (jsonl_flush (foldl (jsonl_emit to_json None) (JsonlEventSink_create previous) es)) = jsonl_text to_json es"
  by (simp add: jsonl_flush_writes jl.emit_all_writes jsonl_text_def)
    (simp add: jsonl_written_def JsonlEventSink_create_def)

text \<open>As long as serialization and writing succeed, the JSON-lines file holds, after a final
  flush, exactly one line per emitted event, in the order of emission, and nothing of what the
  file held before; an event carries an \<open>errno\<close> field exactly when it has an errno.\<close>

theorem jsonl_file_is_the_log:
  assumes "\<forall>e\<in>set es. to_json (event_fields e) \<noteq> None"
  shows "jsonl_file (jsonl_flush (foldl (jsonl_emit to_json None) (JsonlEventSink_create previous) es))
      = concat (map (\<lambda>e. the (to_json (event_fields e)) @ [CHR 0x0A]) es)
    \<and> (''errno'' \<in> fst ` set (event_fields e) \<longleftrightarrow> ev_errno e \<noteq> None)"
proof
  have "map (jsonl_line to_json) es = map (\<lambda>e. the (to_json (event_fields e)) @ [CHR 0x0A]) es"
    using assms by (auto simp: jsonl_line_def)
  then show "jsonl_file (jsonl_flush (foldl (jsonl_emit to_json None) (JsonlEventSink_create previous) es))
      = concat (map (\<lambda>e. the (to_json (event_fields e)) @ [CHR 0x0A]) es)"
    by (simp only: jsonl_log_text jsonl_text_def)
  show "''errno'' \<in> fst ` set (event_fields e) \<longleftrightarrow> ev_errno e \<noteq> None"
    by (cases "ev_errno e") (simp_all add: event_fields_def)
qed

definition sample_event :: Event where
  "sample_event = \<lparr>ts_unix_nanos = 5, ev_seq = 0, ev_op = Read, ev_ino = 100, ev_offset = 0,
     ev_len = 4096, ev_outcome = Outcome_Error, ev_errno = Some EIO, ev_queue_wait_us = 0,
     ev_injected_latency_us = 50, ev_bandwidth_delay_us = 0, ev_total_duration_us = 60\<rparr>"

theorem jsonl_file_is_the_log_witness:
  "jsonl_file (jsonl_flush (foldl (jsonl_emit (\<lambda>fs. Some (concat (map fst fs))) None)
     (JsonlEventSink_create ''old'') [sample_event]))
   = concat (map fst (event_fields sample_event)) @ [CHR 0x0A]"
  using jsonl_file_is_the_log [of "[sample_event]" "\<lambda>fs. Some (concat (map fst fs))" "''old''" sample_event, THEN conjunct1]
  by simp

end
