(* ===== verification/Metrics.thy ===== *)
theory Metrics
  imports Ops Float64 "HOL-Library.Sublist"
begin

text \<open>
  The per-operation recorder (\<open>fusecraft-core/src/metrics\<close>). The histogram is the one of the
  \<open>hdrhistogram\<close> crate and a parameter, the record \<open>hdr\<close>: its constructor, recording a value
  (a recording that fails leaves the histogram as it is and the sources ignore it), and the
  value at a percentile. The map the mutex protects is passed explicitly.
\<close>

section \<open>State and operations\<close>

record 'h hdr =
  hdr_new :: "u64 \<Rightarrow> u64 \<Rightarrow> u8 \<Rightarrow> 'h option"
  hdr_record :: "'h \<Rightarrow> u64 \<Rightarrow> 'h"
  value_at_percentile :: "'h \<Rightarrow> f64 \<Rightarrow> u64"

definition HIST_LOW :: u64 where "HIST_LOW = 1"
definition HIST_HIGH :: u64 where "HIST_HIGH = 60000000"
definition HIST_SIGFIG :: u8 where "HIST_SIGFIG = 3"

record 'h OpHisto =
  count_ok :: u64
  count_err :: u64
  histo :: 'h

record OpSummary =
  sum_op :: FsOp
  sum_count :: u64
  sum_errors :: u64
  p50_us :: u64
  p95_us :: u64
  p99_us :: u64
  p999_us :: u64

type_synonym 'h recorder = "FsOp \<Rightarrow> 'h OpHisto option"

definition HistogramRecorder_new :: "'h recorder" where
  "HistogramRecorder_new = (\<lambda>_. None)"

definition clamp_duration :: "u64 \<Rightarrow> u64" where
  "clamp_duration d = (if d < HIST_LOW then HIST_LOW else if HIST_HIGH < d then HIST_HIGH else d)"

text \<open>\<open>entry(op).or_insert_with\<close>; the constructor of the histogram is expected to succeed.\<close>

definition op_entry :: "'h hdr \<Rightarrow> 'h recorder \<Rightarrow> FsOp \<Rightarrow> 'h OpHisto may_panic" where
  "op_entry h m f =
     (case m f of Some e \<Rightarrow> Returns e
      | None \<Rightarrow>
          (case hdr_new h HIST_LOW HIST_HIGH HIST_SIGFIG of
             None \<Rightarrow> Panics
           | Some hist \<Rightarrow> Returns \<lparr>count_ok = 0, count_err = 0, histo = hist\<rparr>))"

definition record_op :: "'h hdr \<Rightarrow> 'h recorder \<Rightarrow> FsOp \<Rightarrow> u64 \<Rightarrow> bool \<Rightarrow> 'h recorder may_panic" where
  "record_op h m f duration_us is_error =
     (case op_entry h m f of Panics \<Rightarrow> Panics
      | Returns e \<Rightarrow>
          let e1 = (if is_error then e\<lparr>count_err := count_err e + 1\<rparr>
                    else e\<lparr>count_ok := count_ok e + 1\<rparr>);
              clamped = clamp_duration duration_us
          in Returns (m(f \<mapsto> e1\<lparr>histo := hdr_record h (histo e1) clamped\<rparr>)))"

definition summary_of :: "'h hdr \<Rightarrow> 'h recorder \<Rightarrow> FsOp \<Rightarrow> OpSummary option" where
  "summary_of h m f =
     (case m f of None \<Rightarrow> None
      | Some e \<Rightarrow>
          let count = count_ok e + count_err e in
          if count = 0 then None
          else Some \<lparr>sum_op = f, sum_count = count, sum_errors = count_err e,
                 p50_us = value_at_percentile h (histo e) (Finite 50),
                 p95_us = value_at_percentile h (histo e) (Finite 95),
                 p99_us = value_at_percentile h (histo e) (Finite 99),
                 p999_us = value_at_percentile h (histo e) (f64_of_rat False (999/10))\<rparr>)"

definition summary :: "'h hdr \<Rightarrow> 'h recorder \<Rightarrow> OpSummary list" where
  "summary h m = List.map_filter (summary_of h m) FsOp_ALL"

section \<open>Counting\<close>

type_synonym sample = "FsOp \<times> u64 \<times> bool"

fun record_all :: "'h hdr \<Rightarrow> 'h recorder \<Rightarrow> sample list \<Rightarrow> 'h recorder may_panic" where
  "record_all h m [] = Returns m"
| "record_all h m ((f, d, err) # samples) =
     (case record_op h m f d err of Panics \<Rightarrow> Panics | Returns m' \<Rightarrow> record_all h m' samples)"

text \<open>The entry of an operation is determined by its own samples, in their order.\<close>

definition samples_of :: "FsOp \<Rightarrow> sample list \<Rightarrow> sample list" where
  "samples_of f = filter (\<lambda>(g, _, _). g = f)"

definition add_sample :: "'h hdr \<Rightarrow> 'h OpHisto \<Rightarrow> sample \<Rightarrow> 'h OpHisto" where
  "add_sample h e = (\<lambda>(_, d, err).
     \<lparr>count_ok = count_ok e + of_bool (\<not> err), count_err = count_err e + of_bool err,
      histo = hdr_record h (histo e) (clamp_duration d)\<rparr>)"

lemma record_op_Returns:
  assumes "op_entry h m f = Returns e"
  shows "record_op h m f d err = Returns (m(f \<mapsto> add_sample h e (f, d, err)))"
  using assms by (cases e) (auto simp: record_op_def add_sample_def Let_def)

lemma op_entry_total: "hdr_new h HIST_LOW HIST_HIGH HIST_SIGFIG \<noteq> None \<Longrightarrow> op_entry h m f \<noteq> Panics"
  by (auto simp: op_entry_def split: option.splits)

lemma record_all_entry:
  assumes "hdr_new h HIST_LOW HIST_HIGH HIST_SIGFIG = Some hist0"
  shows "\<exists>m'. record_all h m samples = Returns m' \<and>
    (\<forall>f. m' f = (if samples_of f samples = [] then m f
      else Some (foldl (add_sample h)
        (case m f of Some e \<Rightarrow> e | None \<Rightarrow> \<lparr>count_ok = 0, count_err = 0, histo = hist0\<rparr>)
        (samples_of f samples))))"
proof (induction samples arbitrary: m)
  case (Cons s samples)
  obtain g d err where s: "s = (g, d, err)" by (cases s) auto
  obtain e where e: "op_entry h m g = Returns e"
    using op_entry_total [of h m g] assms by (cases "op_entry h m g") auto
  have e': "e = (case m g of Some e \<Rightarrow> e | None \<Rightarrow> \<lparr>count_ok = 0, count_err = 0, histo = hist0\<rparr>)"
    using e assms by (auto simp: op_entry_def split: option.splits)
  from Cons.IH [of "m(g \<mapsto> add_sample h e s)"] obtain m' where
    m': "record_all h (m(g \<mapsto> add_sample h e s)) samples = Returns m'"
    "\<And>f. m' f = (if samples_of f samples = [] then (m(g \<mapsto> add_sample h e s)) f
      else Some (foldl (add_sample h)
        (case (m(g \<mapsto> add_sample h e s)) f of Some e \<Rightarrow> e
          | None \<Rightarrow> \<lparr>count_ok = 0, count_err = 0, histo = hist0\<rparr>) (samples_of f samples)))"
    by blast
  have "record_all h m (s # samples) = Returns m'"
    using m'(1) by (simp add: s record_op_Returns [OF e])
  moreover have "samples_of f (s # samples) = (if g = f then s # samples_of f samples else samples_of f samples)" for f
    by (simp add: s samples_of_def)
  ultimately show ?case using m'(2) e' by (auto simp: foldl_Nil)
qed (simp add: samples_of_def)

lemma add_samples_counts:
  "count_ok (foldl (add_sample h) e ss) = count_ok e + of_nat (length (filter (\<lambda>(_, _, err). \<not> err) ss))"
  "count_err (foldl (add_sample h) e ss) = count_err e + of_nat (length (filter (\<lambda>(_, _, err). err) ss))"
  "histo (foldl (add_sample h) e ss) = foldl (hdr_record h) (histo e) (map (\<lambda>(_, d, _). clamp_duration d) ss)"
  by (induction ss arbitrary: e) (auto simp: add_sample_def split: prod.splits)

lemma recorded_entry:
  assumes "hdr_new h HIST_LOW HIST_HIGH HIST_SIGFIG = Some hist0"
    and "record_all h HistogramRecorder_new samples = Returns m"
  shows "m f = (if samples_of f samples = [] then None
    else Some \<lparr>count_ok = of_nat (length (filter (\<lambda>(_, _, err). \<not> err) (samples_of f samples))),
      count_err = of_nat (length (filter (\<lambda>(_, _, err). err) (samples_of f samples))),
      histo = foldl (hdr_record h) hist0 (map (\<lambda>(_, us, _). clamp_duration us) (samples_of f samples))\<rparr>)"
proof -
  have m: "m f = (if samples_of f samples = [] then None
      else Some (foldl (add_sample h) \<lparr>count_ok = 0, count_err = 0, histo = hist0\<rparr> (samples_of f samples)))"
    using record_all_entry [OF assms(1), of HistogramRecorder_new samples] assms(2)
    by (auto simp: HistogramRecorder_new_def)
  have e: "e = \<lparr>count_ok = count_ok e, count_err = count_err e, histo = histo e\<rparr>" for e :: "'a OpHisto"
    by simp
  show ?thesis
    using m e [of "foldl (add_sample h) _ (samples_of f samples)"] by (auto simp: add_samples_counts)
qed

section \<open>Properties\<close>

lemma subseq_distinct': "subseq xs ys \<Longrightarrow> distinct ys \<Longrightarrow> distinct xs"
  by (induction rule: list_emb.induct) (auto dest: list_emb_set)

text \<open>Metrics lose no sample: when the histogram can be constructed, recording never panics,
  and the entry of an operation has one success or error count per sample of that operation
  (up to 64-bit wrap-around) and a histogram of the durations of those samples, clamped to the
  range from one microsecond to sixty seconds, in the order they were recorded; samples of other
  operations do not influence it.\<close>

theorem metrics_count_samples:
  assumes "hdr_new h HIST_LOW HIST_HIGH HIST_SIGFIG = Some hist0"
  shows "\<exists>m'. record_all h HistogramRecorder_new samples = Returns m' \<and>
    m' f = (if samples_of f samples = [] then None
      else Some \<lparr>count_ok = of_nat (length (filter (\<lambda>(_, _, err). \<not> err) (samples_of f samples))),
        count_err = of_nat (length (filter (\<lambda>(_, _, err). err) (samples_of f samples))),
        histo = foldl (hdr_record h) hist0 (map (\<lambda>(_, d, _). clamp_duration d) (samples_of f samples))\<rparr>)
    \<and> HIST_LOW \<le> clamp_duration d \<and> clamp_duration d \<le> HIST_HIGH"
proof -
  obtain m' where m': "record_all h HistogramRecorder_new samples = Returns m'"
    using record_all_entry [OF assms, of HistogramRecorder_new samples] by blast
  have clamp: "HIST_LOW \<le> clamp_duration d \<and> clamp_duration d \<le> HIST_HIGH"
    by (auto simp: clamp_duration_def HIST_LOW_def HIST_HIGH_def word_le_nat_alt word_less_nat_alt
        Suc_le_eq unat_gt_0)
  show ?thesis using m' recorded_entry [OF assms m', of f] clamp by blast
qed

text \<open>A histogram that keeps all values.\<close>

definition list_hdr :: "u64 list hdr" where
  "list_hdr = \<lparr>hdr_new = (\<lambda>_ _ _. Some []), hdr_record = (\<lambda>h v. h @ [v]),
     value_at_percentile = (\<lambda>h _. if h = [] then 0 else last h)\<rparr>"

theorem metrics_count_samples_witness:
  "\<exists>m'. record_all list_hdr HistogramRecorder_new [(Read, 0, False), (FsOp.Write, 5, False), (Read, 7, True)]
      = Returns m' \<and> m' Read = Some \<lparr>count_ok = 1, count_err = 1, histo = [1, 7]\<rparr>"
  using metrics_count_samples [of list_hdr "[]" "[(Read, 0, False), (FsOp.Write, 5, False), (Read, 7, True)]" Read 0]
  by (auto simp: list_hdr_def samples_of_def clamp_duration_def HIST_LOW_def HIST_HIGH_def
      word_less_nat_alt simp del: record_all.simps)

text \<open>The summary lists the recorded operations in the order of \<open>FsOp::ALL\<close>, each at most
  once, and an operation appears with exactly the counts of its entry; operations without a
  sample are left out.\<close>

theorem summary_in_op_order:
  "subseq (map sum_op (summary h m)) FsOp_ALL \<and> distinct (map sum_op (summary h m))
   \<and> (s \<in> set (summary h m) \<longleftrightarrow> (\<exists>f e. m f = Some e \<and> count_ok e + count_err e \<noteq> 0
      \<and> summary_of h m f = Some s \<and> sum_op s = f \<and> sum_count s = count_ok e + count_err e
      \<and> sum_errors s = count_err e))"
proof -
  have ops: "summary_of h m f = Some s \<Longrightarrow> sum_op s = f" for f s
    by (auto simp: summary_of_def Let_def split: option.splits if_splits)
  have sub: "subseq (map sum_op (List.map_filter (summary_of h m) fs)) fs" for fs
    by (induction fs) (auto simp: List.map_filter_simps ops split: option.splits)
  then have d: "distinct (map sum_op (List.map_filter (summary_of h m) FsOp_ALL))"
    using FsOp_ALL_distinct by (rule subseq_distinct')
  have "set (List.map_filter (summary_of h m) fs) = {s. \<exists>f\<in>set fs. summary_of h m f = Some s}" for fs
    by (induction fs) (auto simp: List.map_filter_simps split: option.splits)
  then have s: "s \<in> set (summary h m) \<longleftrightarrow> (\<exists>f. summary_of h m f = Some s)"
    by (simp add: summary_def FsOp_ALL_complete)
  have f: "summary_of h m f = Some s \<Longrightarrow> \<exists>e. m f = Some e \<and> count_ok e + count_err e \<noteq> 0
      \<and> sum_op s = f \<and> sum_count s = count_ok e + count_err e \<and> sum_errors s = count_err e" for f
    by (auto simp: summary_of_def Let_def split: option.splits if_splits)
  show ?thesis
    using sub [of FsOp_ALL] d s f unfolding summary_def by blast
qed

end
