(* ===== verification/Engine.thy ===== *)
theory Engine
  imports Sampler Limiter Bandwidth Events Metrics
begin

text \<open>
  The simulation engine (\<open>fusecraft-core/src/engine\<close>): the operation context, the resources of
  every operation, and the lifecycle \<open>run_op\<close> that takes an operation through the limiter, the
  samplers, the bandwidth limiter, the sleep, the reply closure, and the recording.

  The lifecycle is cut where the code can block: \<open>op_enter\<close> up to the decision of the limiter,
  \<open>op_sample\<close> from the admission to the sleep, \<open>op_finish\<close> from the end of the closure to the
  drop of the guard. \<open>run_op\<close> composes them for one thread; the step relation of the
  concurrent engine uses the same parts. The shared state is passed explicitly, the clock
  readings are arguments, and the closure acts on a world of its own.
\<close>

section \<open>Operation contexts\<close>

record OpContext =
  ctx_op :: FsOp
  ctx_ino :: u64
  ctx_offset :: u64
  ctx_len :: usize
  ctx_requested_len :: usize

definition OpContext_metadata :: "FsOp \<Rightarrow> u64 \<Rightarrow> OpContext" where
  "OpContext_metadata f ino =
     \<lparr>ctx_op = f, ctx_ino = ino, ctx_offset = 0, ctx_len = 0, ctx_requested_len = 0\<rparr>"

definition OpContext_data :: "FsOp \<Rightarrow> u64 \<Rightarrow> u64 \<Rightarrow> usize \<Rightarrow> OpContext" where
  "OpContext_data f ino offset len =
     \<lparr>ctx_op = f, ctx_ino = ino, ctx_offset = offset, ctx_len = len, ctx_requested_len = len\<rparr>"

definition with_requested_len :: "OpContext \<Rightarrow> usize \<Rightarrow> OpContext" where
  "with_requested_len ctx requested_len = ctx\<lparr>ctx_requested_len := requested_len\<rparr>"

section \<open>The engine\<close>

text \<open>The resources of one operation, with the state of its limiters.\<close>

record OpResources =
  res_policy :: OpPolicy
  res_limiter :: BlockingLimiter
  res_limiter_state :: LimiterState
  res_bandwidth :: "(BandwidthLimiter \<times> BucketState) option"
  res_large_bandwidth :: "(BandwidthLimiter \<times> BucketState) option"

record ('s, 'h) SimEngine =
  eng_seed :: u64
  eng_resources :: "FsOp \<Rightarrow> OpResources option"
  eng_seq :: u64
  eng_sink :: 's
  eng_metrics :: "'h recorder"

text \<open>What the engine calls: the generator, the mathematical functions, the sink, the histogram.\<close>

record ('r, 's, 'h) engine_env =
  env_rng :: "'r rng"
  env_libm :: libm
  env_emit :: "'s event_sink"
  env_hdr :: "'h hdr"

definition policy_for :: "Config \<Rightarrow> FsOp \<Rightarrow> OpPolicy" where
  "policy_for config f =
     (case map_of (cfg_ops config) f of Some p \<Rightarrow> p | None \<Rightarrow> OpPolicy_default)"

text \<open>Which of the two bandwidth limiters a reference points to.\<close>

datatype tier_ref = BaseTier | LargeTier

definition OpResources_new :: "OpPolicy \<Rightarrow> (tier_ref \<Rightarrow> instant) \<Rightarrow> OpResources" where
  "OpResources_new p now =
     (let lim = BlockingLimiter_new (concurrency_cap p) (OpPolicy.queue_cap p) in
      \<lparr>res_policy = p, res_limiter = fst lim, res_limiter_state = snd lim,
       res_bandwidth = map_option (\<lambda>b. BandwidthLimiter_new b (now BaseTier)) (bandwidth p),
       res_large_bandwidth =
         (case size_tier p of None \<Rightarrow> None
          | Some t \<Rightarrow> map_option (\<lambda>b. BandwidthLimiter_new b (now LargeTier)) (large_bandwidth (tier_large t)))\<rparr>)"

text \<open>
  The constructor: one entry for every operation. The clock is read once per bandwidth
  limiter; \<open>now\<close> gives the readings.
\<close>

definition SimEngine_new :: "Config \<Rightarrow> 's \<Rightarrow> (FsOp \<Rightarrow> tier_ref \<Rightarrow> instant) \<Rightarrow> ('s, 'h) SimEngine" where
  "SimEngine_new config sink now =
     \<lparr>eng_seed = cfg_seed config,
      eng_resources =
        fold (\<lambda>f m. m(f \<mapsto> OpResources_new (policy_for config f) (now f))) FsOp_ALL Map.empty,
      eng_seq = 0, eng_sink = sink, eng_metrics = HistogramRecorder_new\<rparr>"

definition set_resources :: "FsOp \<Rightarrow> OpResources \<Rightarrow> ('s, 'h) SimEngine \<Rightarrow> ('s, 'h) SimEngine" where
  "set_resources f res eng = eng\<lparr>eng_resources := (eng_resources eng)(f \<mapsto> res)\<rparr>"

text \<open>The engine without an event log, and its accessors.\<close>

definition SimEngine_new_without_events :: "Config \<Rightarrow> (FsOp \<Rightarrow> tier_ref \<Rightarrow> instant) \<Rightarrow> (unit, 'h) SimEngine" where
  "SimEngine_new_without_events config now = SimEngine_new config () now"

definition engine_seed :: "('s, 'h) SimEngine \<Rightarrow> u64" where "engine_seed eng = eng_seed eng"

definition engine_metrics :: "('s, 'h) SimEngine \<Rightarrow> 'h recorder" where "engine_metrics eng = eng_metrics eng"

section \<open>Tiers\<close>

definition is_data_ctx :: "FsOp \<Rightarrow> bool" where
  "is_data_ctx f \<longleftrightarrow> f = Read \<or> f = Write"

definition select_tier :: "OpResources \<Rightarrow> FsOp \<Rightarrow> usize \<Rightarrow> LatencyProfile \<times> FaultRule list \<times> tier_ref" where
  "select_tier res f requested_len =
     (let base = (latency (res_policy res), faults (res_policy res), BaseTier) in
      if is_data_ctx f then
        (case size_tier (res_policy res) of
           None \<Rightarrow> base
         | Some t \<Rightarrow>
             if threshold_bytes t < requested_len
             then (large_latency (tier_large t), large_faults (tier_large t), LargeTier)
             else base)
      else base)"

definition tier_bandwidth :: "tier_ref \<Rightarrow> OpResources \<Rightarrow> (BandwidthLimiter \<times> BucketState) option" where
  "tier_bandwidth t res = (case t of BaseTier \<Rightarrow> res_bandwidth res | LargeTier \<Rightarrow> res_large_bandwidth res)"

definition set_tier_bucket :: "tier_ref \<Rightarrow> BandwidthLimiter \<times> BucketState \<Rightarrow> OpResources \<Rightarrow> OpResources" where
  "set_tier_bucket t b res =
     (case t of BaseTier \<Rightarrow> res\<lparr>res_bandwidth := Some b\<rparr> | LargeTier \<Rightarrow> res\<lparr>res_large_bandwidth := Some b\<rparr>)"

section \<open>The parts of the lifecycle\<close>

definition emit_event ::
    "('r, 's, 'h) engine_env \<Rightarrow> ('s, 'h) SimEngine \<Rightarrow> OpContext \<Rightarrow> u64 \<Rightarrow> Outcome \<Rightarrow> i32 option
     \<Rightarrow> u64 \<Rightarrow> u64 \<Rightarrow> u64 \<Rightarrow> u64 \<Rightarrow> system_time \<Rightarrow> ('s, 'h) SimEngine" where
  "emit_event env eng ctx seq outcome errno queue_wait latency_us delay_us total_us wall =
     eng\<lparr>eng_sink := env_emit env (eng_sink eng)
       \<lparr>ts_unix_nanos = now_unix_nanos wall, ev_seq = seq, ev_op = ctx_op ctx, ev_ino = ctx_ino ctx,
        ev_offset = ctx_offset ctx, ev_len = ctx_len ctx, ev_outcome = outcome, ev_errno = errno,
        ev_queue_wait_us = queue_wait, ev_injected_latency_us = latency_us,
        ev_bandwidth_delay_us = delay_us, ev_total_duration_us = total_us\<rparr>\<rparr>"

text \<open>
  The sequence number is taken before anything else; \<open>None\<close> is the failed \<open>expect\<close> on a
  missing operation.
\<close>

definition next_seq :: "('s, 'h) SimEngine \<Rightarrow> u64 \<times> ('s, 'h) SimEngine" where
  "next_seq eng = (eng_seq eng, eng\<lparr>eng_seq := eng_seq eng + 1\<rparr>)"

definition op_enter :: "('s, 'h) SimEngine \<Rightarrow> OpContext \<Rightarrow> (u64 \<times> entry) option \<times> ('s, 'h) SimEngine" where
  "op_enter eng ctx =
     (let (seq, eng1) = next_seq eng in
      case eng_resources eng1 (ctx_op ctx) of
        None \<Rightarrow> (None, eng1)
      | Some res \<Rightarrow>
          let (e, st) = acquire_enter (res_limiter res) (res_limiter_state res) in
          (Some (seq, e), set_resources (ctx_op ctx) (res\<lparr>res_limiter_state := st\<rparr>) eng1))"

text \<open>The branch of a rejected acquisition: an event, a histogram sample, and EAGAIN.\<close>

definition op_reject ::
    "('r, 's, 'h) engine_env \<Rightarrow> ('s, 'h) SimEngine \<Rightarrow> OpContext \<Rightarrow> u64 \<Rightarrow> instant \<Rightarrow> instant \<Rightarrow> system_time
     \<Rightarrow> 'a fs_result may_panic \<times> ('s, 'h) SimEngine" where
  "op_reject env eng ctx seq start now wall =
     (let errno = as_errno (Errno EAGAIN);
          total_us = as_micros_u64 (duration_since now start);
          eng1 = emit_event env eng ctx seq Outcome_Error (Some errno) 0 0 0 total_us wall
      in case record_op (env_hdr env) (eng_metrics eng1) (ctx_op ctx) total_us True of
           Panics \<Rightarrow> (Panics, eng1)
         | Returns m \<Rightarrow> (Returns (Err (Errno errno)), eng1\<lparr>eng_metrics := m\<rparr>))"

definition sample_key :: "('s, 'h) SimEngine \<Rightarrow> OpContext \<Rightarrow> u64 \<Rightarrow> SampleKey" where
  "sample_key eng ctx seq =
     \<lparr>key_seed = eng_seed eng, key_op = ctx_op ctx, key_ino = ctx_ino ctx, key_offset = ctx_offset ctx,
      key_len = ucast (min (ctx_len ctx) 0xFFFFFFFF), key_seq = seq\<rparr>"

text \<open>
  Sampling and the bandwidth reservation: the injected errno, the latency in microseconds and
  the bandwidth delay, with the resources after the reservation.
\<close>

definition op_sample ::
    "('r, 's, 'h) engine_env \<Rightarrow> ('s, 'h) SimEngine \<Rightarrow> OpResources \<Rightarrow> OpContext \<Rightarrow> u64 \<Rightarrow> instant
     \<Rightarrow> (i32 option \<times> u64 \<times> duration) \<times> OpResources" where
  "op_sample env eng res ctx seq now =
     (let (latency_profile, fault_rules, t) = select_tier res (ctx_op ctx) (ctx_requested_len ctx);
          key = sample_key eng ctx seq;
          fault_errno = sample_fault (env_rng env) fault_rules key;
          latency_us = sample_latency_us (env_libm env) (env_rng env) latency_profile key;
          (delay, res1) =
            (case tier_bandwidth t res of
               None \<Rightarrow> (0, res)
             | Some (l, st) \<Rightarrow>
                 if is_data_ctx (ctx_op ctx) then
                   let (d, st1) = reserve l st (ctx_len ctx) now in (d, set_tier_bucket t (l, st1) res)
                 else (0, res))
      in ((fault_errno, latency_us, delay), res1))"

text \<open>The drop of the guard.\<close>

definition drop_guard :: "FsOp \<Rightarrow> ('s, 'h) SimEngine \<Rightarrow> ('s, 'h) SimEngine" where
  "drop_guard f eng =
     (case eng_resources eng f of None \<Rightarrow> eng
      | Some res \<Rightarrow> set_resources f (res\<lparr>res_limiter_state := release (res_limiter_state res)\<rparr>) eng)"

text \<open>The record of the outcome and the drop of the guard, which a panic also runs.\<close>

definition op_finish ::
    "('r, 's, 'h) engine_env \<Rightarrow> ('s, 'h) SimEngine \<Rightarrow> OpContext \<Rightarrow> u64 \<Rightarrow> 'a fs_result \<Rightarrow> duration \<Rightarrow> u64
     \<Rightarrow> duration \<Rightarrow> instant \<Rightarrow> instant \<Rightarrow> system_time \<Rightarrow> 'a fs_result may_panic \<times> ('s, 'h) SimEngine" where
  "op_finish env eng ctx seq result queue_wait latency_us delay start now wall =
     (let total_us = as_micros_u64 (duration_since now start);
          delay_us = as_micros_u64 delay;
          (outcome, errno) =
            (case result of Inr _ \<Rightarrow> (Outcome_Ok, None) | Inl e \<Rightarrow> (Outcome_Error, Some (as_errno e)));
          eng1 = emit_event env eng ctx seq outcome errno (as_micros_u64 queue_wait) latency_us delay_us
                   total_us wall
      in case record_op (env_hdr env) (eng_metrics eng1) (ctx_op ctx) total_us (outcome = Outcome_Error) of
           Panics \<Rightarrow> (Panics, drop_guard (ctx_op ctx) eng1)
         | Returns m \<Rightarrow> (Returns result, drop_guard (ctx_op ctx) (eng1\<lparr>eng_metrics := m\<rparr>)))"

section \<open>The lifecycle of one operation\<close>

text \<open>The readings of the clocks during one operation.\<close>

record readings =
  t_start :: instant
  t_reserve :: instant
  t_end :: instant
  t_wall :: system_time

text \<open>The closure: it acts on a world and returns a result or panics.\<close>

type_synonym ('w, 'a) body = "'w \<Rightarrow> 'a fs_result may_panic \<times> 'w"

text \<open>
  From the admission on. The sleep ends the part in which the time is decided; a panic in the
  sum of the delays or in the closure unwinds through the guard and records nothing.
\<close>

definition op_admitted ::
    "('r, 's, 'h) engine_env \<Rightarrow> ('s, 'h) SimEngine \<Rightarrow> OpContext \<Rightarrow> u64 \<Rightarrow> duration \<Rightarrow> ('w, 'a) body \<Rightarrow> 'w
     \<Rightarrow> readings \<Rightarrow> 'a fs_result may_panic \<times> ('s, 'h) SimEngine \<times> 'w" where
  "op_admitted env eng ctx seq queue_wait body w t =
     (case eng_resources eng (ctx_op ctx) of
        None \<Rightarrow> (Panics, eng, w)
      | Some res \<Rightarrow>
          let ((fault_errno, latency_us, delay), res1) = op_sample env eng res ctx seq (t_reserve t);
              eng1 = set_resources (ctx_op ctx) res1 eng
          in case duration_add (from_micros latency_us) delay of
               Panics \<Rightarrow> (Panics, drop_guard (ctx_op ctx) eng1, w)
             | Returns sleep_for \<Rightarrow>
                 (let (outcome, w1) =
                    (case fault_errno of
                       Some errno \<Rightarrow> (Returns (Err (Errno errno)), w)
                     | None \<Rightarrow> body w)
                  in case outcome of
                       Panics \<Rightarrow> (Panics, drop_guard (ctx_op ctx) eng1, w1)
                     | Returns result \<Rightarrow>
                         let (r, eng2) = op_finish env eng1 ctx seq result queue_wait latency_us delay
                                           (t_start t) (t_end t) (t_wall t)
                         in (r, eng2, w1)))"

datatype 'a op_outcome = Finished "'a fs_result" | Op_panics | Waits

text \<open>
  The lifecycle without interference: an operation that enters the queue waits for another
  thread.
\<close>

definition run_op ::
    "('r, 's, 'h) engine_env \<Rightarrow> ('s, 'h) SimEngine \<Rightarrow> OpContext \<Rightarrow> ('w, 'a) body \<Rightarrow> 'w \<Rightarrow> readings
     \<Rightarrow> 'a op_outcome \<times> ('s, 'h) SimEngine \<times> 'w" where
  "run_op env eng ctx body w t =
     (let finished = (\<lambda>r. case r of Returns x \<Rightarrow> Finished x | Panics \<Rightarrow> Op_panics) in
      case op_enter eng ctx of
        (None, eng1) \<Rightarrow> (Op_panics, eng1, w)
      | (Some (seq, Rejected), eng1) \<Rightarrow>
          (let (r, eng2) = op_reject env eng1 ctx seq (t_start t) (t_end t) (t_wall t)
           in (finished r, eng2, w))
      | (Some (seq, Enqueued), eng1) \<Rightarrow> (Waits, eng1, w)
      | (Some (seq, Admitted), eng1) \<Rightarrow>
          (let (r, eng2, w1) = op_admitted env eng1 ctx seq 0 body w t
           in (finished r, eng2, w1)))"

section \<open>Engines of a configuration\<close>

lemma fold_all_resources:
  "fold (\<lambda>f m. m(f \<mapsto> g f)) fs m0 f = (if f \<in> set fs then Some (g f) else m0 f)"
  by (induction fs arbitrary: m0) auto

lemma SimEngine_new_resources:
  "eng_resources (SimEngine_new config sink now) f = Some (OpResources_new (policy_for config f) (now f))"
  by (simp add: SimEngine_new_def fold_all_resources FsOp_ALL_complete)

text \<open>
  What the operations keep: the seed, an entry for every operation, the policy and the
  capacities of that entry, and a sound balance in its buckets.
\<close>

definition resources_of :: "OpPolicy \<Rightarrow> OpResources \<Rightarrow> bool" where
  "resources_of p res \<longleftrightarrow> res_policy res = p
     \<and> res_limiter res = \<lparr>cap = concurrency_cap p, queue_cap = OpPolicy.queue_cap p\<rparr>
     \<and> pred_option (\<lambda>(l, st). bucket_ok l st) (res_bandwidth res)
     \<and> pred_option (\<lambda>(l, st). bucket_ok l st) (res_large_bandwidth res)
     \<and> (res_bandwidth res = None \<longleftrightarrow> bandwidth p = None)
     \<and> (res_large_bandwidth res = None \<longleftrightarrow> (\<forall>t. size_tier p = Some t \<longrightarrow> large_bandwidth (tier_large t) = None))"

definition engine_of :: "Config \<Rightarrow> ('s, 'h) SimEngine \<Rightarrow> bool" where
  "engine_of config eng \<longleftrightarrow> eng_seed eng = cfg_seed config
     \<and> (\<forall>f. \<exists>res. eng_resources eng f = Some res \<and> resources_of (policy_for config f) res)"

lemma engine_of_new: "engine_of config (SimEngine_new config sink now)"
  by (auto simp: engine_of_def SimEngine_new_resources resources_of_def OpResources_new_def Let_def
      BlockingLimiter_new_def pred_option_def split: option.splits dest: bucket_ok_new)
    (simp add: SimEngine_new_def)

lemma engine_ofE:
  assumes "engine_of config eng"
  obtains res where "eng_resources eng f = Some res" "resources_of (policy_for config f) res"
  using assms by (auto simp: engine_of_def)

lemma engine_of_set_resources:
  "engine_of config eng \<Longrightarrow> resources_of (policy_for config f) res \<Longrightarrow> engine_of config (set_resources f res eng)"
  by (auto simp: engine_of_def set_resources_def)

lemma engine_of_cong:
  "engine_of config eng \<Longrightarrow> eng_seed eng' = eng_seed eng \<Longrightarrow> eng_resources eng' = eng_resources eng
     \<Longrightarrow> engine_of config eng'"
  by (simp add: engine_of_def)

lemma resources_of_limiter_state:
  "resources_of p res \<Longrightarrow> resources_of p (res\<lparr>res_limiter_state := st\<rparr>)"
  by (simp add: resources_of_def)

lemma engine_of_enter: "engine_of config eng \<Longrightarrow> engine_of config (snd (op_enter eng ctx))"
proof -
  assume e: "engine_of config eng"
  obtain res where res: "eng_resources eng (ctx_op ctx) = Some res" "resources_of (policy_for config (ctx_op ctx)) res"
    by (rule engine_ofE [OF e])
  have "engine_of config (snd (next_seq eng))"
    by (rule engine_of_cong [OF e]) (simp_all add: next_seq_def)
  then show ?thesis
    using res
    by (auto simp: op_enter_def next_seq_def split: prod.splits
        intro!: engine_of_set_resources resources_of_limiter_state)
qed

lemma resources_of_sample:
  assumes "resources_of p res"
  shows "resources_of p (snd (op_sample env eng res ctx seq now))"
  using assms bucket_ok_reserve
  by (auto simp: op_sample_def Let_def resources_of_def tier_bandwidth_def set_tier_bucket_def
      split: prod.splits tier_ref.splits option.splits) (metis snd_conv)+

lemma engine_of_drop_guard:
  assumes "engine_of config eng"
  shows "engine_of config (drop_guard f eng)"
proof -
  obtain res where "eng_resources eng f = Some res" "resources_of (policy_for config f) res"
    by (rule engine_ofE [OF assms])
  then show ?thesis
    using assms by (simp add: drop_guard_def engine_of_set_resources resources_of_limiter_state)
qed

lemma emit_event_sel [simp]:
  "eng_seed (emit_event env eng ctx q ou er a b c d wl) = eng_seed eng"
  "eng_resources (emit_event env eng ctx q ou er a b c d wl) = eng_resources eng"
  "eng_seq (emit_event env eng ctx q ou er a b c d wl) = eng_seq eng"
  "eng_metrics (emit_event env eng ctx q ou er a b c d wl) = eng_metrics eng"
  by (simp_all add: emit_event_def)

lemma engine_of_metrics: "engine_of config (eng\<lparr>eng_metrics := m\<rparr>) \<longleftrightarrow> engine_of config eng"
  by (simp add: engine_of_def)

lemma engine_of_emit:
  "engine_of config (emit_event env eng ctx q ou er a b c d wl) \<longleftrightarrow> engine_of config eng"
  by (simp add: engine_of_def)

lemma engine_of_reject: "engine_of config eng \<Longrightarrow> engine_of config (snd (op_reject env eng ctx seq start now wall))"
  by (simp add: op_reject_def Let_def engine_of_metrics engine_of_emit split: may_panic.split)

lemma engine_of_finish:
  "engine_of config eng \<Longrightarrow>
     engine_of config (snd (op_finish env eng ctx seq result q lat delay start now wall))"
  by (auto simp: op_finish_def Let_def engine_of_metrics engine_of_emit split: may_panic.split prod.split
      intro!: engine_of_drop_guard)

lemma engine_of_admitted:
  assumes "engine_of config eng"
  shows "engine_of config (fst (snd (op_admitted env eng ctx seq q body w t)))"
proof -
  obtain res where res: "eng_resources eng (ctx_op ctx) = Some res" "resources_of (policy_for config (ctx_op ctx)) res"
    by (rule engine_ofE [OF assms])
  define e1 where "e1 = set_resources (ctx_op ctx) (snd (op_sample env eng res ctx seq (t_reserve t))) eng"
  have "engine_of config e1"
    unfolding e1_def by (rule engine_of_set_resources [OF assms resources_of_sample [OF res(2)]])
  then show ?thesis
    by (simp add: op_admitted_def res(1) e1_def [symmetric] case_prod_unfold Let_def
        engine_of_finish engine_of_drop_guard split: may_panic.split)
qed

lemma engine_of_run_op:
  assumes "engine_of config eng"
  shows "engine_of config (fst (snd (run_op env eng ctx body w t)))"
proof -
  have "engine_of config (snd (op_enter eng ctx))" by (rule engine_of_enter [OF assms])
  then show ?thesis
    by (simp add: run_op_def Let_def case_prod_unfold engine_of_reject engine_of_admitted
        split: option.split entry.split)
qed

section \<open>Decisions\<close>

text \<open>The decisions of an operation as functions of the configuration alone.\<close>

definition routed_large :: "OpPolicy \<Rightarrow> FsOp \<Rightarrow> usize \<Rightarrow> bool" where
  "routed_large p f requested_len \<longleftrightarrow>
     is_data_ctx f \<and> (\<exists>t. size_tier p = Some t \<and> threshold_bytes t < requested_len)"

definition config_key :: "Config \<Rightarrow> OpContext \<Rightarrow> u64 \<Rightarrow> SampleKey" where
  "config_key config ctx seq =
     \<lparr>key_seed = cfg_seed config, key_op = ctx_op ctx, key_ino = ctx_ino ctx, key_offset = ctx_offset ctx,
      key_len = ucast (min (ctx_len ctx) 0xFFFFFFFF), key_seq = seq\<rparr>"

definition decided_fault :: "'r rng \<Rightarrow> Config \<Rightarrow> OpContext \<Rightarrow> u64 \<Rightarrow> i32 option" where
  "decided_fault g config ctx seq =
     (let p = policy_for config (ctx_op ctx) in
      sample_fault g (if routed_large p (ctx_op ctx) (ctx_requested_len ctx)
          then large_faults (tier_large (the (size_tier p))) else faults p)
        (config_key config ctx seq))"

definition decided_latency :: "libm \<Rightarrow> 'r rng \<Rightarrow> Config \<Rightarrow> OpContext \<Rightarrow> u64 \<Rightarrow> u64" where
  "decided_latency m g config ctx seq =
     (let p = policy_for config (ctx_op ctx) in
      sample_latency_us m g (if routed_large p (ctx_op ctx) (ctx_requested_len ctx)
          then large_latency (tier_large (the (size_tier p))) else latency p)
        (config_key config ctx seq))"

lemma select_tier_eq:
  "select_tier res f n =
     (if routed_large (res_policy res) f n
      then (large_latency (tier_large (the (size_tier (res_policy res)))),
        large_faults (tier_large (the (size_tier (res_policy res)))), LargeTier)
      else (latency (res_policy res), faults (res_policy res), BaseTier))"
  by (auto simp: select_tier_def routed_large_def Let_def split: option.splits)

lemma op_sample_decides:
  assumes "engine_of config eng" "eng_resources eng (ctx_op ctx) = Some res"
  shows "fst (fst (op_sample env eng res ctx seq now)) = decided_fault (env_rng env) config ctx seq"
    and "fst (snd (fst (op_sample env eng res ctx seq now)))
      = decided_latency (env_libm env) (env_rng env) config ctx seq"
proof -
  have p: "res_policy res = policy_for config (ctx_op ctx)" "eng_seed eng = cfg_seed config"
    using assms by (auto simp: engine_of_def resources_of_def) (metis option.inject)
  show "fst (fst (op_sample env eng res ctx seq now)) = decided_fault (env_rng env) config ctx seq"
    "fst (snd (fst (op_sample env eng res ctx seq now)))
      = decided_latency (env_libm env) (env_rng env) config ctx seq"
    by (simp_all add: op_sample_def decided_fault_def decided_latency_def select_tier_eq p sample_key_def
        config_key_def Let_def case_prod_unfold)
qed

text \<open>The delay of the bandwidth limiter: none for operations without data or without a bucket.\<close>

definition throttled :: "OpPolicy \<Rightarrow> OpContext \<Rightarrow> bool" where
  "throttled p ctx \<longleftrightarrow> is_data_ctx (ctx_op ctx) \<and> ctx_len ctx \<noteq> 0
     \<and> (if routed_large p (ctx_op ctx) (ctx_requested_len ctx)
        then large_bandwidth (tier_large (the (size_tier p))) \<noteq> None else bandwidth p \<noteq> None)"

lemma op_sample_delay:
  assumes "resources_of p res" "\<not> throttled p ctx"
  shows "snd (snd (fst (op_sample env eng res ctx seq now))) = 0"
proof -
  have zero: "fst (reserve l st 0 now) = 0" for l st by (simp add: reserve_def)
  have "\<not> is_data_ctx (ctx_op ctx) \<or> ctx_len ctx = 0
      \<or> tier_bandwidth (snd (snd (select_tier res (ctx_op ctx) (ctx_requested_len ctx)))) res = None"
    using assms by (auto simp: throttled_def select_tier_eq tier_bandwidth_def resources_of_def
        routed_large_def split: if_splits)
  then show ?thesis
    by (auto simp: op_sample_def Let_def case_prod_unfold zero split: option.split)
qed

lemma op_sample_limiter [simp]:
  "res_limiter_state (snd (op_sample env eng res ctx seq now)) = res_limiter_state res"
  by (auto simp: op_sample_def Let_def case_prod_unfold set_tier_bucket_def
      split: option.splits tier_ref.splits)

section \<open>Effects\<close>

text \<open>How many threads are inside and in front of every limiter.\<close>

definition occupancy :: "('s, 'h) SimEngine \<Rightarrow> FsOp \<Rightarrow> (usize \<times> usize) option" where
  "occupancy eng f = map_option (\<lambda>res. slots (res_limiter_state res)) (eng_resources eng f)"

lemma occupancy_cong: "eng_resources eng' = eng_resources eng \<Longrightarrow> occupancy eng' = occupancy eng"
  by (simp add: occupancy_def fun_eq_iff)

lemma occupancy_simps [simp]:
  "occupancy (eng\<lparr>eng_metrics := m\<rparr>) = occupancy eng"
  "occupancy (emit_event env eng ctx q ou er a b c d wl) = occupancy eng"
  "occupancy (set_resources f res eng) = (occupancy eng)(f \<mapsto> slots (res_limiter_state res))"
  by (auto simp: occupancy_def set_resources_def fun_eq_iff)

lemma occupancy_drop_guard:
  "occupancy (drop_guard f eng) =
     (case occupancy eng f of None \<Rightarrow> occupancy eng | Some (i, q) \<Rightarrow> (occupancy eng)(f \<mapsto> (i - 1, q)))"
  by (auto simp: drop_guard_def occupancy_def slots_def release_def set_resources_def fun_eq_iff split: option.split)

lemma drop_guard_set_resources:
  "drop_guard f (set_resources f res eng) = set_resources f (res\<lparr>res_limiter_state := release (res_limiter_state res)\<rparr>) eng"
  by (simp add: drop_guard_def set_resources_def)

text \<open>
  Between two engine states exactly one event was emitted, with the context of the operation,
  its sequence number, its errno and its injected latency, and exactly one histogram sample was
  recorded for it, with the duration of that event.
\<close>

definition logged_once ::
    "('r, 's, 'h) engine_env \<Rightarrow> ('s, 'h) SimEngine \<Rightarrow> ('s, 'h) SimEngine \<Rightarrow> OpContext \<Rightarrow> u64
     \<Rightarrow> 'a fs_result \<Rightarrow> u64 \<Rightarrow> bool" where
  "logged_once env eng eng' ctx seq result lat \<longleftrightarrow>
     (\<exists>ev. eng_sink eng' = env_emit env (eng_sink eng) ev \<and> ev_seq ev = seq \<and> ev_op ev = ctx_op ctx
       \<and> ev_ino ev = ctx_ino ctx \<and> ev_offset ev = ctx_offset ctx \<and> ev_len ev = ctx_len ctx
       \<and> ev_errno ev = (case result of Inl e \<Rightarrow> Some (as_errno e) | Inr _ \<Rightarrow> None)
       \<and> (ev_outcome ev = Outcome_Error \<longleftrightarrow> ev_errno ev \<noteq> None)
       \<and> ev_injected_latency_us ev = lat
       \<and> record_op (env_hdr env) (eng_metrics eng) (ctx_op ctx) (ev_total_duration_us ev)
            (ev_errno ev \<noteq> None) = Returns (eng_metrics eng'))"

lemma op_finish_effects:
  assumes "op_finish env eng ctx seq result q lat delay start now wall = (Returns r, eng')"
  shows "r = result" "eng_seq eng' = eng_seq eng" "occupancy eng' = occupancy (drop_guard (ctx_op ctx) eng)"
    "logged_once env eng eng' ctx seq result lat"
proof -
  have d: "eng_seq (drop_guard f e) = eng_seq e" "eng_sink (drop_guard f e) = eng_sink e"
    "eng_metrics (drop_guard f e) = eng_metrics e" for f and e :: "('b, 'c) SimEngine"
    by (simp_all add: drop_guard_def set_resources_def split: option.split)
  show "r = result" "eng_seq eng' = eng_seq eng"
    using assms by (auto simp: op_finish_def Let_def d split: may_panic.splits sum.splits)
  show "occupancy eng' = occupancy (drop_guard (ctx_op ctx) eng)"
    using assms
    by (auto simp: op_finish_def Let_def occupancy_drop_guard split: may_panic.splits sum.splits option.splits)
  show "logged_once env eng eng' ctx seq result lat"
    using assms
    by (cases result)
      (auto simp: op_finish_def Let_def d emit_event_def logged_once_def split: may_panic.splits)
qed

text \<open>The entry of an operation that the limiter admits or rejects.\<close>

lemma op_enter_effects:
  assumes "engine_of config eng" "op_enter eng ctx = (Some (seq, e), eng1)"
  shows "seq = eng_seq eng" "eng_seq eng1 = eng_seq eng + 1" "eng_sink eng1 = eng_sink eng"
    "eng_metrics eng1 = eng_metrics eng"
    "e = Rejected \<Longrightarrow> occupancy eng1 = occupancy eng"
    "e = Admitted \<Longrightarrow> occupancy (drop_guard (ctx_op ctx) eng1) = occupancy eng"
    "engine_of config eng1"
proof -
  obtain res where res: "eng_resources eng (ctx_op ctx) = Some res" "resources_of (policy_for config (ctx_op ctx)) res"
    by (rule engine_ofE [OF assms(1)])
  have occ: "occupancy eng (ctx_op ctx) = Some (slots (res_limiter_state res))"
    by (simp add: occupancy_def res(1))
  have same: "occupancy (eng\<lparr>eng_seq := n\<rparr>) = occupancy eng" for n by (rule occupancy_cong) simp
  show "seq = eng_seq eng" "eng_seq eng1 = eng_seq eng + 1" "eng_sink eng1 = eng_sink eng"
    "eng_metrics eng1 = eng_metrics eng"
    using assms(2) by (auto simp: op_enter_def next_seq_def res set_resources_def split: prod.splits)
  show "occupancy eng1 = occupancy eng" if "e = Rejected"
    using assms(2) that occ
    by (auto simp: op_enter_def next_seq_def res same fun_upd_idem dest: adm.rejected_keeps split: prod.splits)
  show "occupancy (drop_guard (ctx_op ctx) eng1) = occupancy eng" if "e = Admitted"
    using assms(2) that occ
    by (auto simp: op_enter_def next_seq_def res same drop_guard_set_resources fun_upd_idem
        dest: adm.admitted_undone split: prod.splits)
  show "engine_of config eng1" using engine_of_enter [OF assms(1), of ctx] assms(2) by simp
qed

lemma op_enter_registered: "engine_of config eng \<Longrightarrow> fst (op_enter eng ctx) \<noteq> None"
  by (auto simp: op_enter_def next_seq_def split: prod.splits elim: engine_ofE [of _ _ "ctx_op ctx"])

lemma op_reject_effects:
  assumes "op_reject env eng ctx seq start now wall = (Returns r, eng')"
  shows "r = Err (Errno EAGAIN)" "eng_seq eng' = eng_seq eng" "occupancy eng' = occupancy eng"
    "logged_once env eng eng' ctx seq (Err (Errno EAGAIN) :: 'a fs_result) 0"
  using assms
  by (auto simp: op_reject_def Let_def emit_event_def logged_once_def occupancy_def split: may_panic.splits)

text \<open>An admitted operation: the closure runs exactly when no fault is injected.\<close>

lemma op_admitted_cases:
  assumes "engine_of config eng" "op_admitted env eng ctx seq q body w t = (r, eng', w')"
  defines "fault \<equiv> decided_fault (env_rng env) config ctx seq"
  defines "lat \<equiv> decided_latency (env_libm env) (env_rng env) config ctx seq"
  shows "\<exists>eng1 delay. engine_of config eng1 \<and> eng_seq eng1 = eng_seq eng \<and> eng_sink eng1 = eng_sink eng
    \<and> eng_metrics eng1 = eng_metrics eng \<and> occupancy eng1 = occupancy eng
    \<and> (\<not> throttled (policy_for config (ctx_op ctx)) ctx \<longrightarrow> delay = 0)
    \<and> (duration_add (from_micros lat) delay = Panics \<and> r = Panics
          \<and> eng' = drop_guard (ctx_op ctx) eng1 \<and> w' = w
       \<or> duration_add (from_micros lat) delay \<noteq> Panics \<and>
         (fault = None \<and> fst (body w) = Panics \<and> r = Panics
            \<and> eng' = drop_guard (ctx_op ctx) eng1 \<and> w' = snd (body w)
          \<or> (\<exists>result. (case fault of Some errno \<Rightarrow> result = Err (Errno errno) \<and> w' = w
                 | None \<Rightarrow> body w = (Returns result, w'))
              \<and> op_finish env eng1 ctx seq result q lat delay (t_start t) (t_end t) (t_wall t) = (r, eng'))))"
proof -
  obtain res where res: "eng_resources eng (ctx_op ctx) = Some res" "resources_of (policy_for config (ctx_op ctx)) res"
    by (rule engine_ofE [OF assms(1)])
  define smp where "smp = op_sample env eng res ctx seq (t_reserve t)"
  define delay where "delay = snd (snd (fst smp))"
  define eng1 where "eng1 = set_resources (ctx_op ctx) (snd smp) eng"
  have s: "smp = ((fault, lat, delay), snd smp)"
    using op_sample_decides [OF assms(1) res(1), of env seq "t_reserve t"]
    by (simp add: smp_def delay_def fault_def lat_def prod_eq_iff)
  have e: "engine_of config eng1" "eng_seq eng1 = eng_seq eng" "eng_sink eng1 = eng_sink eng"
    "eng_metrics eng1 = eng_metrics eng"
    using engine_of_set_resources [OF assms(1) resources_of_sample [OF res(2)]]
    by (simp_all add: eng1_def smp_def) (simp_all add: set_resources_def)
  have o: "occupancy eng1 = occupancy eng"
    by (auto simp: occupancy_def eng1_def set_resources_def res(1) smp_def fun_eq_iff)
  have d: "\<not> throttled (policy_for config (ctx_op ctx)) ctx \<longrightarrow> delay = 0"
    using op_sample_delay [OF res(2), of ctx env eng seq "t_reserve t"] by (simp add: delay_def smp_def)
  have run: "op_admitted env eng ctx seq q body w t =
     (case duration_add (from_micros lat) delay of
        Panics \<Rightarrow> (Panics, drop_guard (ctx_op ctx) eng1, w)
      | Returns sleep_for \<Rightarrow>
          (let (outcome, w1) =
             (case fault of Some errno \<Rightarrow> (Returns (Err (Errno errno)), w) | None \<Rightarrow> body w)
           in case outcome of
                Panics \<Rightarrow> (Panics, drop_guard (ctx_op ctx) eng1, w1)
              | Returns result \<Rightarrow>
                  let (r, eng2) = op_finish env eng1 ctx seq result q lat delay (t_start t) (t_end t) (t_wall t)
                  in (r, eng2, w1)))"
    unfolding op_admitted_def res(1) option.case smp_def [symmetric] eng1_def
    by (subst s) (simp add: Let_def)
  show ?thesis
    apply (rule exI [of _ eng1], rule exI [of _ delay])
    using assms(2) e o d unfolding run
    by (auto simp: Let_def split: may_panic.splits option.splits prod.splits)
qed

section \<open>Outcomes\<close>

text \<open>The three ways an operation ends, in terms of its parts.\<close>

lemma run_op_cases:
  assumes "engine_of config eng" "run_op env eng ctx body w t = (out, eng', w')"
  obtains
    (rejected) eng1 r where "op_enter eng ctx = (Some (eng_seq eng, Rejected), eng1)"
      "op_reject env eng1 ctx (eng_seq eng) (t_start t) (t_end t) (t_wall t) = (r, eng')"
      "out = (case r of Returns x \<Rightarrow> Finished x | Panics \<Rightarrow> Op_panics)" "w' = w"
  | (queued) "op_enter eng ctx = (Some (eng_seq eng, Enqueued), eng')" "out = Waits" "w' = w"
  | (admitted) eng1 r where "op_enter eng ctx = (Some (eng_seq eng, Admitted), eng1)"
      "op_admitted env eng1 ctx (eng_seq eng) 0 body w t = (r, eng', w')"
      "out = (case r of Returns x \<Rightarrow> Finished x | Panics \<Rightarrow> Op_panics)"
proof -
  obtain v eng1 where v: "op_enter eng ctx = (v, eng1)" by fastforce
  then obtain seq e where s: "v = Some (seq, e)" using op_enter_registered [OF assms(1), of ctx] by fastforce
  have seq: "seq = eng_seq eng" using op_enter_effects(1) [OF assms(1)] v s by blast
  show thesis
  proof (cases e)
    case Rejected
    then show thesis
      using assms(2) v s seq by (auto simp: run_op_def intro: rejected split: prod.splits)
  next
    case Enqueued
    then show thesis using assms(2) v s seq queued by (simp add: run_op_def)
  next
    case Admitted
    then show thesis
      using assms(2) v s seq admitted
      by (cases "op_admitted env eng1 ctx (eng_seq eng) 0 body w t") (auto simp: run_op_def)
  qed
qed

lemma finished_iff [simp]:
  "(case r of Returns x \<Rightarrow> Finished x | Panics \<Rightarrow> Op_panics) = Finished y \<longleftrightarrow> r = Returns y"
  "(case r of Returns x \<Rightarrow> Finished x | Panics \<Rightarrow> Op_panics) = Op_panics \<longleftrightarrow> r = Panics"
  "(case r of Returns x \<Rightarrow> Finished x | Panics \<Rightarrow> Op_panics) \<noteq> Waits"
  "Finished y = (case r of Returns x \<Rightarrow> Finished x | Panics \<Rightarrow> Op_panics) \<longleftrightarrow> r = Returns y"
  "Op_panics = (case r of Returns x \<Rightarrow> Finished x | Panics \<Rightarrow> Op_panics) \<longleftrightarrow> r = Panics"
  "Waits \<noteq> (case r of Returns x \<Rightarrow> Finished x | Panics \<Rightarrow> Op_panics)"
  by (cases r; auto)+

definition histogram_constructs :: "'h hdr \<Rightarrow> bool" where
  "histogram_constructs h \<longleftrightarrow> hdr_new h HIST_LOW HIST_HIGH HIST_SIGFIG \<noteq> None"

lemma record_op_total: "histogram_constructs h \<Longrightarrow> record_op h m f d e \<noteq> Panics"
  using op_entry_total [of h m f] by (simp add: histogram_constructs_def record_op_def Let_def split: may_panic.split)

lemma op_finish_total:
  "histogram_constructs (env_hdr env) \<Longrightarrow> fst (op_finish env eng ctx seq result q lat delay start now wall) = Returns result"
  using record_op_total
  by (fastforce simp: op_finish_def Let_def split: may_panic.split sum.split)

lemma op_finish_not_panics:
  "histogram_constructs (env_hdr env) \<Longrightarrow> op_finish env eng ctx seq result q lat delay start now wall \<noteq> (Panics, e)"
  using op_finish_total [of env eng ctx seq result q lat delay start now wall] by auto

lemma op_reject_total:
  "histogram_constructs (env_hdr env) \<Longrightarrow> fst (op_reject env eng ctx seq start now wall) \<noteq> Panics"
  by (simp add: op_reject_def Let_def record_op_total split: may_panic.split)

lemma drop_guard_sel [simp]:
  "eng_seed (drop_guard f eng) = eng_seed eng" "eng_seq (drop_guard f eng) = eng_seq eng"
  "eng_sink (drop_guard f eng) = eng_sink eng" "eng_metrics (drop_guard f eng) = eng_metrics eng"
  by (simp_all add: drop_guard_def set_resources_def split: option.split)

lemma occupancy_drop_guard_cong:
  "occupancy e = occupancy e' \<Longrightarrow> occupancy (drop_guard f e) = occupancy (drop_guard f e')"
  unfolding occupancy_drop_guard by (erule ssubst) (rule refl)

text \<open>Latencies alone never overflow the sleep.\<close>

lemma from_micros_no_panic: "duration_add (from_micros us) 0 \<noteq> Panics"
  using from_micros_le_MAX [of us] by (simp add: duration_add_def)

lemma logged_once_cong:
  "logged_once env e1 eng' ctx seq r lat \<Longrightarrow> eng_sink e1 = eng_sink e2 \<Longrightarrow> eng_metrics e1 = eng_metrics e2
     \<Longrightarrow> logged_once env e2 eng' ctx seq r lat"
  by (simp add: logged_once_def)

definition admitted :: "('s, 'h) SimEngine \<Rightarrow> OpContext \<Rightarrow> bool" where
  "admitted eng ctx \<longleftrightarrow> snd (the (fst (op_enter eng ctx))) = Admitted"

lemma run_op_finished:
  assumes "engine_of config eng" "run_op env eng ctx body w t = (Finished r, eng', w')"
  shows "eng_seq eng' = eng_seq eng + 1 \<and> occupancy eng' = occupancy eng
    \<and> logged_once env eng eng' ctx (eng_seq eng) r
        (if admitted eng ctx then decided_latency (env_libm env) (env_rng env) config ctx (eng_seq eng) else 0)
    \<and> (if admitted eng ctx then
         (case decided_fault (env_rng env) config ctx (eng_seq eng) of
            Some errno \<Rightarrow> r = Err (Errno errno) \<and> w' = w | None \<Rightarrow> body w = (Returns r, w'))
       else r = Err (Errno EAGAIN) \<and> w' = w)"
proof (cases rule: run_op_cases [OF assms])
  case (1 eng1 x)
  note enter = op_enter_effects [OF assms(1) 1(1)]
  have rej: "op_reject env eng1 ctx (eng_seq eng) (t_start t) (t_end t) (t_wall t) = (Returns r, eng')"
    using 1(2,3) by simp
  have r: "r = Err (Errno EAGAIN)" by (rule op_reject_effects(1) [OF rej])
  have "\<not> admitted eng ctx" using 1(1) by (simp add: admitted_def)
  then show ?thesis
    using op_reject_effects(2,3) [OF rej] enter 1(4)
      logged_once_cong [OF op_reject_effects(4) [OF rej] enter(3,4)]
    by (simp add: r)
next
  case 2
  then show ?thesis by simp
next
  case (3 eng1 x)
  note enter = op_enter_effects [OF assms(1) 3(1)]
  have adm: "op_admitted env eng1 ctx (eng_seq eng) 0 body w t = (Returns r, eng', w')"
    using 3(2,3) by simp
  from op_admitted_cases [OF enter(7) adm] obtain eng2 delay result where
    e2: "eng_seq eng2 = eng_seq eng1" "eng_sink eng2 = eng_sink eng1" "eng_metrics eng2 = eng_metrics eng1"
      "occupancy eng2 = occupancy eng1"
    and fault: "case decided_fault (env_rng env) config ctx (eng_seq eng) of
        Some errno \<Rightarrow> result = Err (Errno errno) \<and> w' = w | None \<Rightarrow> body w = (Returns result, w')"
    and fin: "op_finish env eng2 ctx (eng_seq eng) result 0
        (decided_latency (env_libm env) (env_rng env) config ctx (eng_seq eng)) delay
        (t_start t) (t_end t) (t_wall t) = (Returns r, eng')"
    by (elim exE conjE disjE) (simp, simp, rule that)
  note f = op_finish_effects [OF fin]
  have "admitted eng ctx" using 3(1) by (simp add: admitted_def)
  moreover have "occupancy (drop_guard (ctx_op ctx) eng2) = occupancy eng"
    using occupancy_drop_guard_cong [OF e2(4)] enter(6) by simp
  moreover have "logged_once env eng eng' ctx (eng_seq eng) r
      (decided_latency (env_libm env) (env_rng env) config ctx (eng_seq eng))"
    using logged_once_cong [OF f(4)] e2 enter f(1) by simp
  moreover have "case decided_fault (env_rng env) config ctx (eng_seq eng) of
      Some errno \<Rightarrow> r = Err (Errno errno) \<and> w' = w | None \<Rightarrow> body w = (Returns r, w')"
    using fault unfolding f(1) .
  ultimately show ?thesis using f(2,3) enter(2) e2(1) by simp
qed

lemma run_op_panicked:
  assumes "engine_of config eng" "histogram_constructs (env_hdr env)"
    and "run_op env eng ctx body w t = (Op_panics, eng', w')"
  shows "eng_sink eng' = eng_sink eng \<and> eng_metrics eng' = eng_metrics eng \<and> occupancy eng' = occupancy eng
    \<and> (fst (body w) = Panics \<or> throttled (policy_for config (ctx_op ctx)) ctx \<and> w' = w)"
proof (cases rule: run_op_cases [OF assms(1,3)])
  case (1 eng1 x)
  then show ?thesis using op_reject_total [OF assms(2)] by (metis finished_iff(5) fst_conv)
next
  case 2
  then show ?thesis by simp
next
  case (3 eng1 x)
  note enter = op_enter_effects [OF assms(1) 3(1)]
  have adm: "op_admitted env eng1 ctx (eng_seq eng) 0 body w t = (Panics, eng', w')"
    using 3(2,3) by simp
  from op_admitted_cases [OF enter(7) adm] obtain eng2 delay where
    e2: "eng_sink eng2 = eng_sink eng1" "eng_metrics eng2 = eng_metrics eng1" "occupancy eng2 = occupancy eng1"
    and d: "\<not> throttled (policy_for config (ctx_op ctx)) ctx \<longrightarrow> delay = 0"
    and c: "duration_add (from_micros (decided_latency (env_libm env) (env_rng env) config ctx (eng_seq eng))) delay = Panics
        \<and> eng' = drop_guard (ctx_op ctx) eng2 \<and> w' = w
      \<or> fst (body w) = Panics \<and> eng' = drop_guard (ctx_op ctx) eng2"
    by (elim exE conjE disjE)
      ((rule that; blast), (rule that; blast), simp add: op_finish_not_panics [OF assms(2)])
  have "occupancy (drop_guard (ctx_op ctx) eng2) = occupancy eng"
    using occupancy_drop_guard_cong [OF e2(3)] enter(6) by simp
  moreover have "throttled (policy_for config (ctx_op ctx)) ctx"
    if "duration_add (from_micros (decided_latency (env_libm env) (env_rng env) config ctx (eng_seq eng))) delay = Panics"
    using that d from_micros_no_panic by metis
  ultimately show ?thesis using c e2 enter(3,4) by auto
qed

text \<open>An engine whose limiter has a free slot admits.\<close>

lemma admitted_iff:
  assumes "engine_of config eng"
  shows "admitted eng ctx \<longleftrightarrow> (\<exists>i q. occupancy eng (ctx_op ctx) = Some (i, q)
    \<and> i < concurrency_cap (policy_for config (ctx_op ctx)))"
proof -
  obtain res where "eng_resources eng (ctx_op ctx) = Some res" "resources_of (policy_for config (ctx_op ctx)) res"
    by (rule engine_ofE [OF assms])
  then show ?thesis
    by (auto simp: admitted_def op_enter_def next_seq_def occupancy_def slots_def resources_of_def acquire_enter_def
        split: prod.splits)
qed

lemma run_op_waits_iff:
  assumes "engine_of config eng" "admitted eng ctx"
  shows "fst (run_op env eng ctx body w t) \<noteq> Waits"
proof
  assume "fst (run_op env eng ctx body w t) = Waits"
  then obtain eng' w' where r: "run_op env eng ctx body w t = (Waits, eng', w')"
    by (cases "run_op env eng ctx body w t") auto
  show False using assms(2) by (cases rule: run_op_cases [OF assms(1) r]) (simp_all add: admitted_def)
qed

text \<open>A sequence of operations on one engine, each without interference.\<close>

fun run_ops ::
    "('r, 's, 'h) engine_env \<Rightarrow> ('s, 'h) SimEngine \<Rightarrow> 'w \<Rightarrow> (OpContext \<times> ('w, 'a) body \<times> readings) list
     \<Rightarrow> ('s, 'h) SimEngine \<times> 'w" where
  "run_ops env eng w [] = (eng, w)"
| "run_ops env eng w ((ctx, body, t) # reqs) =
     (let (_, eng1, w1) = run_op env eng ctx body w t in run_ops env eng1 w1 reqs)"

lemma engine_of_run_ops: "engine_of config eng \<Longrightarrow> engine_of config (fst (run_ops env eng w reqs))"
  by (induction env eng w reqs rule: run_ops.induct)
    (simp, metis (no_types, lifting) engine_of_run_op fst_conv snd_conv run_ops.simps(2) prod.case_eq_if prod.collapse)

section \<open>Concrete engines\<close>

definition demo_env :: "(u64, Event list, u64 list) engine_env" where
  "demo_env = \<lparr>env_rng = lcg_rng, env_libm = flat_libm, env_emit = (\<lambda>s e. s @ [e]), env_hdr = list_hdr\<rparr>"

definition demo_times :: readings where
  "demo_times = \<lparr>t_start = 1000, t_reserve = 2000, t_end = 90000, t_wall = 5\<rparr>"

definition demo_engine :: "(Event list, u64 list) SimEngine" where
  "demo_engine = SimEngine_new Config_default [] (\<lambda>_ _. 0)"

definition demo_body :: "(nat, u64) body" where
  "demo_body w = (Returns (Ok 7), w + 1)"

lemma demo_constructs: "histogram_constructs (env_hdr demo_env)"
  by (simp add: histogram_constructs_def demo_env_def list_hdr_def)

lemma demo_engine_of: "engine_of Config_default demo_engine"
  unfolding demo_engine_def by (rule engine_of_new)

lemma new_engine_admits:
  "concurrency_cap (policy_for config (ctx_op ctx)) \<noteq> 0 \<Longrightarrow> admitted (SimEngine_new config sink now) ctx"
  unfolding admitted_iff [OF engine_of_new]
  by (simp add: occupancy_def slots_def SimEngine_new_resources OpResources_new_def BlockingLimiter_new_def Let_def
      word_gt_0)

lemma demo_admits: "admitted demo_engine ctx"
  unfolding demo_engine_def
  by (rule new_engine_admits)
    (simp add: policy_for_def Config_default_def OpPolicy_default_def default_concurrency_cap_def)

lemma demo_finishes:
  obtains r eng' w' where "run_op demo_env demo_engine (OpContext_metadata Lookup 1) demo_body 0 demo_times
    = (Finished r, eng', w')"
proof -
  obtain out eng' w' where run: "run_op demo_env demo_engine (OpContext_metadata Lookup 1) demo_body 0 demo_times
      = (out, eng', w')"
    by (metis prod.exhaust)
  have "out \<noteq> Waits"
    using run_op_waits_iff [OF demo_engine_of demo_admits] run by (metis fst_conv)
  moreover have "out \<noteq> Op_panics"
  proof
    assume "out = Op_panics"
    with run have p: "run_op demo_env demo_engine (OpContext_metadata Lookup 1) demo_body 0 demo_times
        = (Op_panics, eng', w')" by simp
    show False
      using run_op_panicked [OF demo_engine_of demo_constructs p]
      by (simp add: demo_body_def OpContext_metadata_def is_data_ctx_def throttled_def)
  qed
  ultimately show thesis using run that by (cases out) auto
qed

section \<open>Properties\<close>

text \<open>C30. An engine never forgets its configuration: after any sequence of operations on a new
  engine, every operation still has its resources, with the policy the configuration gives it
  (or the default one), a limiter with the capacities of that policy, and buckets whose balance
  does not exceed their capacity; and the seed is the configured one.\<close>

theorem engine_keeps_configuration:
  "engine_of config (fst (run_ops env (SimEngine_new config sink now) w reqs))"
  by (rule engine_of_run_ops [OF engine_of_new])

text \<open>C2. Every operation that returns is logged exactly once: the sequence number advances by one,
  exactly one event is emitted, which carries the context of the operation, its sequence number,
  the errno of its result and the injected latency, exactly one sample is recorded in the
  histogram of the operation, with the error flag of the result, and all limiters are as full as
  before, so the slot was released.\<close>

theorem finished_op_logged_once_and_released:
  assumes "engine_of config eng" "run_op env eng ctx body w t = (Finished r, eng', w')"
  shows "eng_seq eng' = eng_seq eng + 1
    \<and> occupancy eng' = occupancy eng
    \<and> logged_once env eng eng' ctx (eng_seq eng) r
      (if admitted eng ctx then decided_latency (env_libm env) (env_rng env) config ctx (eng_seq eng) else 0)"
  using run_op_finished [OF assms] by simp_all

theorem finished_op_logged_once_and_released_witness:
  "\<exists>r eng' w'. run_op demo_env demo_engine (OpContext_metadata Lookup 1) demo_body 0 demo_times
      = (Finished r, eng', w') \<and> eng_seq eng' = 1 \<and> length (eng_sink eng') = 1"
proof (rule demo_finishes)
  fix r eng' w'
  assume run: "run_op demo_env demo_engine (OpContext_metadata Lookup 1) demo_body 0 demo_times
      = (Finished r, eng', w')"
  have "eng_seq demo_engine = 0" "eng_sink demo_engine = []"
    by (simp_all add: demo_engine_def SimEngine_new_def)
  then show ?thesis
    using run finished_op_logged_once_and_released [OF demo_engine_of run]
    by (auto simp: logged_once_def demo_env_def)
qed

text \<open>C1. An injected fault replaces the operation: when the decision for the operation is a
  fault, the closure does not run and the result is the injected errno; without a fault the
  result is the one of the closure, which runs exactly once; and an operation the limiter
  rejects fails with EAGAIN and does not run its closure.\<close>

theorem fault_replaces_closure:
  assumes "engine_of config eng" "run_op env eng ctx body w t = (Finished r, eng', w')"
  shows "(\<not> admitted eng ctx \<longrightarrow> r = Err (Errno EAGAIN) \<and> w' = w)
    \<and> (admitted eng ctx \<longrightarrow> decided_fault (env_rng env) config ctx (eng_seq eng) = Some errno
      \<longrightarrow> r = Err (Errno errno) \<and> w' = w)
    \<and> (admitted eng ctx \<longrightarrow> decided_fault (env_rng env) config ctx (eng_seq eng) = None
      \<longrightarrow> body w = (Returns r, w'))"
  using run_op_finished [OF assms] by (auto split: if_splits)

lemma demo_no_fault: "decided_fault g Config_default ctx seq = None"
  by (simp add: decided_fault_def policy_for_def Config_default_def OpPolicy_default_def routed_large_def
      sample_fault_def Let_def)

theorem fault_replaces_closure_witness:
  "\<exists>eng'. run_op demo_env demo_engine (OpContext_metadata Lookup 1) demo_body 0 demo_times
      = (Finished (Ok 7), eng', 1)"
proof (rule demo_finishes)
  fix r eng' w'
  assume run: "run_op demo_env demo_engine (OpContext_metadata Lookup 1) demo_body 0 demo_times
      = (Finished r, eng', w')"
  have "demo_body 0 = (Returns r, w')"
    using fault_replaces_closure [OF demo_engine_of run] demo_admits demo_no_fault by blast
  then show ?thesis using run by (simp add: demo_body_def)
qed

text \<open>Decisions are reproducible: two engines of the same configuration, whatever their
  histories, sinks, histograms, buckets and clocks are, give an admitted operation with the same
  context and sequence number the same result and the same effect on the world, and both log the
  same injected latency.\<close>

theorem decisions_are_reproducible:
  assumes "engine_of config eng1" "engine_of config eng2" "eng_seq eng1 = eng_seq eng2"
    and "admitted eng1 ctx" "admitted eng2 ctx" "env_rng env1 = env_rng env2" "env_libm env1 = env_libm env2"
    and "run_op env1 eng1 ctx body w t1 = (Finished r1, eng1', w1)"
    and "run_op env2 eng2 ctx body w t2 = (Finished r2, eng2', w2)"
  shows "r1 = r2
    \<and> w1 = w2
    \<and> (\<exists>lat. logged_once env1 eng1 eng1' ctx (eng_seq eng1) r1 lat
      \<and> logged_once env2 eng2 eng2' ctx (eng_seq eng2) r2 lat)"
  using run_op_finished [OF assms(1,8)] run_op_finished [OF assms(2,9)] assms(3-7)
  by (auto split: option.splits)

theorem decisions_are_reproducible_witness:
  "\<exists>r1 e1 w1 r2 e2 w2.
     run_op demo_env demo_engine (OpContext_metadata Lookup 1) demo_body 0 demo_times = (Finished r1, e1, w1)
     \<and> run_op demo_env demo_engine (OpContext_metadata Lookup 1) demo_body 0 demo_times = (Finished r2, e2, w2)
     \<and> r1 = r2"
proof (rule demo_finishes)
  fix r eng' w'
  assume run: "run_op demo_env demo_engine (OpContext_metadata Lookup 1) demo_body 0 demo_times
      = (Finished r, eng', w')"
  have "r = r"
    by (rule decisions_are_reproducible [OF demo_engine_of demo_engine_of refl demo_admits demo_admits
          refl refl run run, THEN conjunct1])
  then show ?thesis using run by blast
qed

text \<open>The size tier is chosen by the size the caller asked for and by nothing else: a read or
  write whose requested length exceeds the threshold gets the latency profile, the fault rules
  and the bandwidth limiter of the large tier, every other operation those of the base policy;
  the clamped length has no influence.\<close>

theorem tier_follows_requested_length:
  "select_tier res (ctx_op (with_requested_len (OpContext_data f ino off len) n))
      (ctx_requested_len (with_requested_len (OpContext_data f ino off len) n))
   = (if (f = Read \<or> f = FsOp.Write) \<and> (\<exists>t. size_tier (res_policy res) = Some t \<and> threshold_bytes t < n)
      then (large_latency (tier_large (the (size_tier (res_policy res)))),
        large_faults (tier_large (the (size_tier (res_policy res)))), LargeTier)
      else (latency (res_policy res), faults (res_policy res), BaseTier))"
  by (simp add: select_tier_eq routed_large_def is_data_ctx_def with_requested_len_def OpContext_data_def)

text \<open>A valid configuration with a tiny positive read rate and an empty burst.\<close>

definition slow_policy :: OpPolicy where
  "slow_policy = OpPolicy_default\<lparr>latency := fixed_profile,
     bandwidth := Some \<lparr>bytes_per_sec = Finite (1 / 2 ^ 100), burst_bytes = 0\<rparr>\<rparr>"

definition slow_config :: Config where
  "slow_config = Config_default\<lparr>cfg_ops := [(Read, slow_policy)]\<rparr>"

definition slow_engine :: "(Event list, u64 list) SimEngine" where
  "slow_engine = SimEngine_new slow_config [] (\<lambda>_ _. 2000)"

lemma try_from_secs_big: "f64_le (Finite (2 ^ 64)) x \<Longrightarrow> try_from_secs_f64 x = None"
  by (cases x) (auto simp: f64_le_def)

lemma slow_reserve:
  "fst (reserve (fst (BandwidthLimiter_new \<lparr>bytes_per_sec = Finite (1 / 2 ^ 100), burst_bytes = 0\<rparr> 2000))
     (snd (BandwidthLimiter_new \<lparr>bytes_per_sec = Finite (1 / 2 ^ 100), burst_bytes = 0\<rparr> 2000)) 4096 2000)
   = DURATION_MAX"
proof -
  have b: "f64_of_u64 0 = Finite 0" "f64_of_u64 4096 = Finite 4096"
    using f64_of_u64_nat [of 0] f64_of_u64_nat [of 4096] by simp_all
  have sub: "f64_sub (Finite 0) (Finite 4096) = Finite (- 4096)"
    using f64_sub_int [of 0 4096] by simp
  have "f64_le (Finite (2 ^ 64)) (f64_of_rat False (4096 / (1 / 2 ^ 100)))"
    using f64_of_rat_mono [of "2 ^ 64" "4096 / (1 / 2 ^ 100)" False False] f64_repr_2_64 by simp
  then have "try_from_secs_f64 (f64_div (Finite 4096) (Finite (1 / 2 ^ 100))) = None"
    by (intro try_from_secs_big) simp
  then show ?thesis
    by (simp add: BandwidthLimiter_new_def reserve_def refill_def duration_since_def Let_def b sub
        del: f64_div.simps)
qed

lemma slow_resources:
  "eng_resources slow_engine Read = Some (OpResources_new slow_policy (\<lambda>_. 2000))"
  "policy_for slow_config Read = slow_policy"
  by (simp_all add: slow_engine_def SimEngine_new_resources policy_for_def slow_config_def)

lemma slow_latency: "decided_latency flat_libm lcg_rng slow_config (OpContext_data Read ino off len) seq = 300"
proof -
  have "sample_latency_us flat_libm lcg_rng fixed_profile k = 300" for k
    using sample_latency_fixed [of fixed_profile]
    by (simp add: fixed_profile_def f64_lt_def)
  then show ?thesis
    by (simp add: decided_latency_def OpContext_data_def slow_resources routed_large_def Let_def)
      (simp add: slow_policy_def OpPolicy_default_def)
qed

definition slow_ctx :: OpContext where
  "slow_ctx = OpContext_data Read 100 0 4096"

definition slow_admitted :: OpResources where
  "slow_admitted = (OpResources_new slow_policy (\<lambda>_. 2000))\<lparr>res_limiter_state :=
     snd (acquire_enter (res_limiter (OpResources_new slow_policy (\<lambda>_. 2000)))
       (res_limiter_state (OpResources_new slow_policy (\<lambda>_. 2000))))\<rparr>"

definition slow_entered :: "(Event list, u64 list) SimEngine" where
  "slow_entered = set_resources Read slow_admitted (slow_engine\<lparr>eng_seq := 1\<rparr>)"

lemma slow_enter: "op_enter slow_engine slow_ctx = (Some (0, Admitted), slow_entered)"
proof -
  have "fst (acquire_enter (res_limiter (OpResources_new slow_policy (\<lambda>_. 2000)))
      (res_limiter_state (OpResources_new slow_policy (\<lambda>_. 2000)))) = Admitted"
    by (simp add: OpResources_new_def Let_def BlockingLimiter_new_def acquire_enter_def slow_policy_def
        OpPolicy_default_def default_concurrency_cap_def word_less_nat_alt)
  moreover have "eng_seq slow_engine = 0" by (simp add: slow_engine_def SimEngine_new_def)
  ultimately show ?thesis
    by (simp add: op_enter_def next_seq_def slow_ctx_def OpContext_data_def slow_resources slow_entered_def
        slow_admitted_def case_prod_unfold)
qed

lemma slow_entered_resources: "eng_resources slow_entered Read = Some slow_admitted"
  by (simp add: slow_entered_def set_resources_def)

lemma slow_entered_of: "engine_of slow_config slow_entered"
proof -
  have "engine_of slow_config slow_engine" unfolding slow_engine_def by (rule engine_of_new)
  from engine_of_enter [OF this, of slow_ctx] show ?thesis by (simp add: slow_enter)
qed

lemma slow_sample:
  "snd (fst (op_sample demo_env slow_entered slow_admitted slow_ctx 0 2000)) = (300, DURATION_MAX)"
proof -
  have lat: "fst (snd (fst (op_sample demo_env slow_entered slow_admitted slow_ctx 0 2000))) = 300"
    using op_sample_decides(2) [OF slow_entered_of, of slow_ctx slow_admitted demo_env 0 2000]
    by (simp add: slow_ctx_def slow_latency slow_entered_resources demo_env_def)
      (simp add: slow_entered_resources OpContext_data_def)
  have p: "bandwidth slow_policy = Some \<lparr>bytes_per_sec = Finite (1 / 2 ^ 100), burst_bytes = 0\<rparr>"
    "size_tier slow_policy = None"
    by (simp_all add: slow_policy_def OpPolicy_default_def)
  have "snd (snd (fst (op_sample demo_env slow_entered slow_admitted slow_ctx 0 2000))) = DURATION_MAX"
    using slow_reserve
    by (simp add: op_sample_def select_tier_eq routed_large_def slow_admitted_def OpResources_new_def Let_def p
        tier_bandwidth_def slow_ctx_def OpContext_data_def is_data_ctx_def case_prod_unfold)
  with lat show ?thesis by (simp add: prod_eq_iff)
qed

lemma slow_run_panics:
  "fst (run_op demo_env slow_engine (OpContext_data Read 100 0 4096) demo_body 0
      \<lparr>t_start = 1000, t_reserve = 2000, t_end = 3000, t_wall = 5\<rparr>) = Op_panics"
proof -
  have "duration_add (from_micros 300) DURATION_MAX = Panics"
    by (simp add: duration_add_def from_micros_def)
  then show ?thesis
    using slow_sample
    by (simp add: run_op_def slow_enter [unfolded slow_ctx_def] op_admitted_def slow_ctx_def case_prod_unfold Let_def)
      (simp add: OpContext_data_def slow_entered_resources case_prod_unfold Let_def)
qed

text \<open>C31. A panic leaks no slot but leaves no trace: when the closure panics, or the sum of the
  injected latency and the bandwidth delay overflows, which takes an operation with data under
  a bandwidth limit, all limiters are as full as before, but neither an event nor a histogram sample exists for the
  operation.\<close>

theorem panic_releases_but_logs_nothing:
  assumes "engine_of config eng" "histogram_constructs (env_hdr env)"
    and "run_op env eng ctx body w t = (Op_panics, eng', w')"
  shows "occupancy eng' = occupancy eng
    \<and> eng_sink eng' = eng_sink eng
    \<and> eng_metrics eng' = eng_metrics eng
    \<and> (fst (body w) = Panics \<or> throttled (policy_for config (ctx_op ctx)) ctx \<and> w' = w)"
  using run_op_panicked [OF assms] by simp_all

theorem panic_releases_but_logs_nothing_witness:
  "\<exists>eng' w'. run_op demo_env slow_engine (OpContext_data Read 100 0 4096) demo_body 0
      \<lparr>t_start = 1000, t_reserve = 2000, t_end = 3000, t_wall = 5\<rparr> = (Op_panics, eng', w')
    \<and> eng_sink eng' = []"
proof -
  obtain eng' w' where run: "run_op demo_env slow_engine (OpContext_data Read 100 0 4096) demo_body 0
      \<lparr>t_start = 1000, t_reserve = 2000, t_end = 3000, t_wall = 5\<rparr> = (Op_panics, eng', w')"
    using slow_run_panics by (metis prod.collapse)
  have eng: "engine_of slow_config slow_engine" unfolding slow_engine_def by (rule engine_of_new)
  have "eng_sink slow_engine = []" by (simp add: slow_engine_def SimEngine_new_def)
  then show ?thesis
    using run panic_releases_but_logs_nothing [OF eng demo_constructs run] by auto
qed

text \<open>C32. Validation does not exclude the panic: there is a configuration that validates, with a
  tiny positive bandwidth rate, under which the very first read panics in the sum of its latency
  and its bandwidth delay, although the bandwidth limiter saturates its own result.\<close>

theorem valid_config_can_panic:
  "validate slow_config = Ok ()
   \<and> fst (run_op demo_env slow_engine (OpContext_data Read 100 0 4096) demo_body 0
        \<lparr>t_start = 1000, t_reserve = 2000, t_end = 3000, t_wall = 5\<rparr>) = Op_panics"
proof
  have "valid_latency fixed_profile"
    by (simp add: valid_latency_def fixed_profile_def LatencyProfile_default_def unit_interval_def
        nonneg_finite_def default_lognormal_sigma_def default_pareto_xm_def default_pareto_alpha_def)
  then show "validate slow_config = Ok ()"
    by (simp add: validate_iff valid_config_def slow_config_def slow_policy_def Config_default_def
        FilesConfig_default_def default_inode_count_def default_file_size_bytes_def valid_policy_def
        OpPolicy_default_def default_concurrency_cap_def valid_bandwidth_def valid_faults_def)
qed (rule slow_run_panics)

text \<open>A valid profile whose tail has a negative scale.\<close>

definition negative_tail :: LatencyProfile where
  "negative_tail = fixed_profile\<lparr>pareto_weight := Finite 1, pareto_xm_us := Finite (- 10)\<rparr>"

lemma f64_of_u64_int: "n \<le> 2 ^ 53 \<Longrightarrow> f64_of_u64 (of_nat n) = Finite (of_int (int n))"
  by (rule f64_of_u64_nat)

lemma negative_tail_body: "latency_body flat_libm lcg_rng negative_tail r = Finite (- 20)"
proof -
  have lt: "f64_lt (fst (random_f64 lcg_rng r)) (Finite 1)" by (rule rng_unitD(2) [OF lcg_rng_unit])
  have "f64_of_rat True (- 20) = f64_of_rat False (of_int (- 20))" by (simp add: f64_of_rat_def)
  then have "f64_of_rat True (- 20) = Finite (- 20)" using f64_of_rat_int [of "- 20"] by simp
  then have "f64_div (Finite (- 10)) (Finite (1 / 2)) = Finite (- 20)" by simp
  then have "sample_pareto flat_libm lcg_rng r' (Finite (- 10)) a = Finite (- 20)" for r' a
    by (simp add: sample_pareto_def flat_libm_def case_prod_unfold)
  then show ?thesis
    using lt
    by (simp add: latency_body_def negative_tail_def fixed_profile_def case_prod_unfold f64_lt_def)
qed


end
