(* ===== verification/Concurrent.thy ===== *)
theory Concurrent
  imports Engine "HOL-Library.Multiset"
begin

text \<open>
  The engine under concurrency: any number of threads run \<open>SimEngine::run_op\<close>
  (\<open>fusecraft-core/src/engine/mod.rs\<close>) on one shared engine, in any interleaving.

  One step of the relation \<open>conc_step\<close> is one access to shared state: taking the sequence
  number, a critical section of the limiter, the reservation of bandwidth, the reply closure,
  the emission of the event, the histogram sample, and the drop of the guard with its
  notification. The log of the emitted events, the contexts of the requests in the order of
  their sequence numbers, and the sequence numbers of the operations that panicked are kept
  beside the state, for the theorems.
\<close>

section \<open>Threads\<close>

text \<open>The locals of one call of \<open>run_op\<close>.\<close>

record ('w, 'a) job =
  job_ctx :: OpContext
  job_body :: "('w, 'a) body"
  job_seq :: u64
  job_start :: instant

text \<open>
  Where a call is: before the limiter, rejected by it, in its queue (since when, and whether it
  was taken off the condition variable), holding a guard, asleep for the sampled time, with the
  result of the closure, with its event emitted (and its guard, if it has one), or dropping the
  guard, on return or in a panic.
\<close>

datatype 'a phase =
    Started
  | Turned_away
  | Queueing instant bool
  | Granted duration
  | Delayed duration "i32 option" u64 duration
  | Answered duration u64 duration "'a fs_result"
  | Emitted "duration option" u64 bool "'a fs_result"
  | Leaving duration "'a fs_result may_panic"

datatype ('w, 'a) thread = Resting | Busy "('w, 'a) job" "'a phase" | Ended "'a fs_result may_panic"

record ('s, 'h, 'w, 'a) conc =
  c_engine :: "('s, 'h) SimEngine"
  c_threads :: "('w, 'a) thread list"
  c_world :: 'w
  c_requests :: "OpContext list"
  c_log :: "Event list"
  c_lost :: "u64 list"

definition job_op :: "('w, 'a) job \<Rightarrow> FsOp" where "job_op j = ctx_op (job_ctx j)"

definition move :: "nat \<Rightarrow> ('w, 'a) thread \<Rightarrow> ('s, 'h, 'w, 'a) conc \<Rightarrow> ('s, 'h, 'w, 'a) conc" where
  "move i t w = w\<lparr>c_threads := (c_threads w)[i := t]\<rparr>"

definition in_engine ::
    "(('s, 'h) SimEngine \<Rightarrow> ('s, 'h) SimEngine) \<Rightarrow> ('s, 'h, 'w, 'a) conc \<Rightarrow> ('s, 'h, 'w, 'a) conc" where
  "in_engine g w = w\<lparr>c_engine := g (c_engine w)\<rparr>"

text \<open>A critical section of the limiter of an operation.\<close>

definition set_limiter :: "FsOp \<Rightarrow> OpResources \<Rightarrow> LimiterState \<Rightarrow> ('s, 'h) SimEngine \<Rightarrow> ('s, 'h) SimEngine" where
  "set_limiter f res st = set_resources f (res\<lparr>res_limiter_state := st\<rparr>)"

definition lose :: "('w, 'a) job \<Rightarrow> ('s, 'h, 'w, 'a) conc \<Rightarrow> ('s, 'h, 'w, 'a) conc" where
  "lose j w = w\<lparr>c_lost := c_lost w @ [job_seq j]\<rparr>"

text \<open>The event of an operation, as \<open>emit_event\<close> builds it.\<close>

definition event_of ::
    "('w, 'a) job \<Rightarrow> Outcome \<Rightarrow> i32 option \<Rightarrow> u64 \<Rightarrow> u64 \<Rightarrow> u64 \<Rightarrow> u64 \<Rightarrow> system_time \<Rightarrow> Event" where
  "event_of j outcome errno queue_wait latency_us delay_us total_us wall =
     \<lparr>ts_unix_nanos = now_unix_nanos wall, ev_seq = job_seq j, ev_op = job_op j,
      ev_ino = ctx_ino (job_ctx j), ev_offset = ctx_offset (job_ctx j), ev_len = ctx_len (job_ctx j),
      ev_outcome = outcome, ev_errno = errno, ev_queue_wait_us = queue_wait,
      ev_injected_latency_us = latency_us, ev_bandwidth_delay_us = delay_us,
      ev_total_duration_us = total_us\<rparr>"

lemma emit_event_of:
  "emit_event env eng (job_ctx j) (job_seq j) ou er q lat d us wall
     = eng\<lparr>eng_sink := env_emit env (eng_sink eng) (event_of j ou er q lat d us wall)\<rparr>"
  by (simp add: emit_event_def event_of_def job_op_def)

definition log_event ::
    "('r, 's, 'h) engine_env \<Rightarrow> Event \<Rightarrow> ('s, 'h, 'w, 'a) conc \<Rightarrow> ('s, 'h, 'w, 'a) conc" where
  "log_event env ev w =
     w\<lparr>c_engine := (c_engine w)\<lparr>eng_sink := env_emit env (eng_sink (c_engine w)) ev\<rparr>,
       c_log := c_log w @ [ev]\<rparr>"

fun result_outcome :: "'a fs_result \<Rightarrow> Outcome \<times> i32 option" where
  "result_outcome (Inr _) = (Outcome_Ok, None)"
| "result_outcome (Inl e) = (Outcome_Error, Some (as_errno e))"

definition after_acquire :: "instant \<Rightarrow> entry \<Rightarrow> 'a phase" where
  "after_acquire now e =
     (case e of Rejected \<Rightarrow> Turned_away | Admitted \<Rightarrow> Granted 0 | Enqueued \<Rightarrow> Queueing now False)"

text \<open>After the histogram sample: drop the guard, or return when there is none.\<close>

definition after_record :: "('w, 'a) job \<Rightarrow> duration option \<Rightarrow> 'a fs_result may_panic \<Rightarrow> ('w, 'a) thread" where
  "after_record j guard out = (case guard of Some q \<Rightarrow> Busy j (Leaving q out) | None \<Rightarrow> Ended out)"

definition asleep_for :: "FsOp \<Rightarrow> ('w, 'a) thread \<Rightarrow> bool" where
  "asleep_for f t \<longleftrightarrow> (\<exists>j s. t = Busy j (Queueing s False) \<and> job_op j = f)"

section \<open>Steps\<close>

inductive conc_step ::
    "('r, 's, 'h) engine_env \<Rightarrow> ('s, 'h, 'w, 'a) conc \<Rightarrow> ('s, 'h, 'w, 'a) conc \<Rightarrow> bool" for env where
  begin_op: "conc_step env w
      (move i (Busy \<lparr>job_ctx = ctx, job_body = body, job_seq = seq, job_start = start\<rparr> Started)
        (w\<lparr>c_engine := eng1, c_requests := c_requests w @ [ctx]\<rparr>))"
    if "i < length (c_threads w)" "c_threads w ! i = Resting" "next_seq (c_engine w) = (seq, eng1)"
| no_resources: "conc_step env w (move i (Ended Panics) (lose j w))"
    if "i < length (c_threads w)" "c_threads w ! i = Busy j Started"
      "eng_resources (c_engine w) (job_op j) = None"
| acquire: "conc_step env w
      (move i (Busy j (after_acquire now e)) (in_engine (set_limiter (job_op j) res st) w))"
    if "i < length (c_threads w)" "c_threads w ! i = Busy j Started"
      "eng_resources (c_engine w) (job_op j) = Some res"
      "acquire_enter (res_limiter res) (res_limiter_state res) = (e, st)"
| spurious_wake: "conc_step env w (move i (Busy j (Queueing s True)) w)"
    if "i < length (c_threads w)" "c_threads w ! i = Busy j (Queueing s False)"
| resume: "conc_step env w
      (move i (Busy j (case r of Some q \<Rightarrow> Granted q | None \<Rightarrow> Queueing s False))
        (in_engine (set_limiter (job_op j) res st) w))"
    if "i < length (c_threads w)" "c_threads w ! i = Busy j (Queueing s True)"
      "eng_resources (c_engine w) (job_op j) = Some res"
      "acquire_wake (res_limiter res) (res_limiter_state res) s now = (r, st)"
| decide: "conc_step env w
      (move i (Busy j (Delayed q fault lat delay)) (in_engine (set_resources (job_op j) res1) w))"
    if "i < length (c_threads w)" "c_threads w ! i = Busy j (Granted q)"
      "eng_resources (c_engine w) (job_op j) = Some res"
      "op_sample env (c_engine w) res (job_ctx j) (job_seq j) now = ((fault, lat, delay), res1)"
| sleep_overflows: "conc_step env w (move i (Busy j (Leaving q Panics)) (lose j w))"
    if "i < length (c_threads w)" "c_threads w ! i = Busy j (Delayed q fault lat delay)"
      "duration_add (from_micros lat) delay = Panics"
| inject: "conc_step env w (move i (Busy j (Answered q lat delay (Err (Errno errno)))) w)"
    if "i < length (c_threads w)" "c_threads w ! i = Busy j (Delayed q (Some errno) lat delay)"
      "duration_add (from_micros lat) delay = Returns sleep_for"
| answer: "conc_step env w (move i (Busy j (Answered q lat delay result)) (w\<lparr>c_world := x\<rparr>))"
    if "i < length (c_threads w)" "c_threads w ! i = Busy j (Delayed q None lat delay)"
      "duration_add (from_micros lat) delay = Returns sleep_for"
      "job_body j (c_world w) = (Returns result, x)"
| body_panics: "conc_step env w (move i (Busy j (Leaving q Panics)) (lose j (w\<lparr>c_world := x\<rparr>)))"
    if "i < length (c_threads w)" "c_threads w ! i = Busy j (Delayed q None lat delay)"
      "duration_add (from_micros lat) delay = Returns sleep_for"
      "job_body j (c_world w) = (Panics, x)"
| emit: "conc_step env w
      (move i (Busy j (Emitted (Some q) total_us (fst (result_outcome result) = Outcome_Error) result))
        (log_event env (event_of j (fst (result_outcome result)) (snd (result_outcome result))
          (as_micros_u64 q) lat (as_micros_u64 delay) total_us wall) w))"
    if "i < length (c_threads w)" "c_threads w ! i = Busy j (Answered q lat delay result)"
      "total_us = as_micros_u64 (duration_since now (job_start j))"
| emit_rejection: "conc_step env w
      (move i (Busy j (Emitted None total_us True (Err (Errno EAGAIN))))
        (log_event env (event_of j Outcome_Error (Some EAGAIN) 0 0 0 total_us wall) w))"
    if "i < length (c_threads w)" "c_threads w ! i = Busy j Turned_away"
      "total_us = as_micros_u64 (duration_since now (job_start j))"
| sample_recorded: "conc_step env w
      (move i (after_record j guard (Returns result)) (in_engine (\<lambda>eng. eng\<lparr>eng_metrics := m\<rparr>) w))"
    if "i < length (c_threads w)" "c_threads w ! i = Busy j (Emitted guard total_us is_error result)"
      "record_op (env_hdr env) (eng_metrics (c_engine w)) (job_op j) total_us is_error = Returns m"
| record_panics: "conc_step env w (move i (after_record j guard Panics) w)"
    if "i < length (c_threads w)" "c_threads w ! i = Busy j (Emitted guard total_us is_error result)"
      "record_op (env_hdr env) (eng_metrics (c_engine w)) (job_op j) total_us is_error = Panics"
| leave_notifies: "conc_step env w
      (move k (Busy j' (Queueing s True)) (move i (Ended out) (in_engine (drop_guard (job_op j)) w)))"
    if "i < length (c_threads w)" "c_threads w ! i = Busy j (Leaving q out)"
      "k < length (c_threads w)" "c_threads w ! k = Busy j' (Queueing s False)" "job_op j' = job_op j"
| leave_unnoticed: "conc_step env w (move i (Ended out) (in_engine (drop_guard (job_op j)) w))"
    if "i < length (c_threads w)" "c_threads w ! i = Busy j (Leaving q out)"
      "\<forall>t\<in>set (c_threads w). \<not> asleep_for (job_op j) t"
| next_request: "conc_step env w (move i Resting w)"
    if "i < length (c_threads w)" "c_threads w ! i = Ended out"

definition conc_init :: "Config \<Rightarrow> 's \<Rightarrow> (FsOp \<Rightarrow> tier_ref \<Rightarrow> instant) \<Rightarrow> nat \<Rightarrow> 'w \<Rightarrow> ('s, 'h, 'w, 'a) conc" where
  "conc_init config sink now n x =
     \<lparr>c_engine = SimEngine_new config sink now, c_threads = replicate n Resting, c_world = x,
      c_requests = [], c_log = [], c_lost = []\<rparr>"

inductive conc_reachable ::
    "('r, 's, 'h) engine_env \<Rightarrow> Config \<Rightarrow> 's \<Rightarrow> ('s, 'h, 'w, 'a) conc \<Rightarrow> bool" for env config sink where
  init: "conc_reachable env config sink (conc_init config sink now n x)"
| step: "conc_reachable env config sink w \<Longrightarrow> conc_step env w w' \<Longrightarrow> conc_reachable env config sink w'"

section \<open>Refinement of the limiter\<close>

text \<open>What a call of \<open>run_op\<close> is for the limiter of one operation.\<close>

fun limiter_view :: "FsOp \<Rightarrow> ('w, 'a) thread \<Rightarrow> lim_thread" where
  "limiter_view f (Busy j p) =
     (if job_op j \<noteq> f then Idle
      else case p of
        Queueing s b \<Rightarrow> if b then Woken s None False else Sleeping s None
      | Granted q \<Rightarrow> Holding q
      | Delayed q _ _ _ \<Rightarrow> Holding q
      | Answered q _ _ _ \<Rightarrow> Holding q
      | Emitted (Some q) _ _ _ \<Rightarrow> Holding q
      | Leaving q _ \<Rightarrow> Holding q
      | _ \<Rightarrow> Idle)"
| "limiter_view f _ = Idle"

definition limiter_of :: "Config \<Rightarrow> FsOp \<Rightarrow> BlockingLimiter" where
  "limiter_of config f =
     \<lparr>cap = concurrency_cap (policy_for config f), queue_cap = OpPolicy.queue_cap (policy_for config f)\<rparr>"

definition limiter_proj :: "FsOp \<Rightarrow> ('s, 'h, 'w, 'a) conc \<Rightarrow> lim_world" where
  "limiter_proj f w =
     \<lparr>lim_state = res_limiter_state (the (eng_resources (c_engine w) f)),
      lim_threads = map (limiter_view f) (c_threads w)\<rparr>"

lemma move_sel [simp]:
  "c_engine (move i t w) = c_engine w" "c_threads (move i t w) = (c_threads w)[i := t]"
  "c_world (move i t w) = c_world w" "c_requests (move i t w) = c_requests w"
  "c_log (move i t w) = c_log w" "c_lost (move i t w) = c_lost w"
  by (simp_all add: move_def)

lemma in_engine_sel [simp]:
  "c_engine (in_engine g w) = g (c_engine w)" "c_threads (in_engine g w) = c_threads w"
  "c_world (in_engine g w) = c_world w" "c_requests (in_engine g w) = c_requests w"
  "c_log (in_engine g w) = c_log w" "c_lost (in_engine g w) = c_lost w"
  by (simp_all add: in_engine_def)

lemma lose_sel [simp]:
  "c_engine (lose j w) = c_engine w" "c_threads (lose j w) = c_threads w"
  "c_requests (lose j w) = c_requests w" "c_log (lose j w) = c_log w"
  "c_lost (lose j w) = c_lost w @ [job_seq j]"
  by (simp_all add: lose_def)

lemma log_event_sel [simp]:
  "c_threads (log_event env ev w) = c_threads w" "c_requests (log_event env ev w) = c_requests w"
  "c_log (log_event env ev w) = c_log w @ [ev]" "c_lost (log_event env ev w) = c_lost w"
  "eng_resources (c_engine (log_event env ev w)) = eng_resources (c_engine w)"
  "eng_seed (c_engine (log_event env ev w)) = eng_seed (c_engine w)"
  "eng_seq (c_engine (log_event env ev w)) = eng_seq (c_engine w)"
  "eng_metrics (c_engine (log_event env ev w)) = eng_metrics (c_engine w)"
  by (simp_all add: log_event_def)

lemma resources_ofI:
  "engine_of config eng \<Longrightarrow> eng_resources eng f = Some res \<Longrightarrow> resources_of (policy_for config f) res"
  by (metis engine_ofE option.inject)

text \<open>The engine keeps its configuration in every interleaving.\<close>

lemma conc_step_engine_of:
  "conc_step env w w' \<Longrightarrow> engine_of config (c_engine w) \<Longrightarrow> engine_of config (c_engine w')"
proof (induction rule: conc_step.induct)
  case (begin_op i w seq eng1 ctx body start)
  then show ?case by (auto simp: next_seq_def intro: engine_of_cong)
next
  case (acquire i w j res e st now)
  then have "resources_of (policy_for config (job_op j)) res" by (intro resources_ofI)
  then show ?case using acquire by (simp add: set_limiter_def engine_of_set_resources resources_of_limiter_state)
next
  case (resume i w j s res now r st)
  then have "resources_of (policy_for config (job_op j)) res" by (intro resources_ofI)
  then show ?case using resume by (simp add: set_limiter_def engine_of_set_resources resources_of_limiter_state)
next
  case (decide i w j q res now fault lat delay res1)
  then have "resources_of (policy_for config (job_op j)) res" by (intro resources_ofI)
  then have "resources_of (policy_for config (job_op j)) res1"
    using resources_of_sample [of _ res env "c_engine w" "job_ctx j" "job_seq j" now] decide.hyps(4) by simp
  then show ?case using decide by (simp add: engine_of_set_resources)
qed (auto simp: engine_of_metrics engine_of_drop_guard intro: engine_of_cong)

lemma conc_reachable_engine_of: "conc_reachable env config sink w \<Longrightarrow> engine_of config (c_engine w)"
  by (induction rule: conc_reachable.induct) (auto simp: conc_init_def engine_of_new intro: conc_step_engine_of)

text \<open>The state of the limiter of one operation, and what the steps do to it.\<close>

definition lim_state_of :: "FsOp \<Rightarrow> ('s, 'h) SimEngine \<Rightarrow> LimiterState" where
  "lim_state_of f eng = res_limiter_state (the (eng_resources eng f))"

lemma lim_state_of_simps [simp]:
  "lim_state_of f (set_limiter g res st eng) = (if f = g then st else lim_state_of f eng)"
  "lim_state_of f (set_resources g res eng) = (if f = g then res_limiter_state res else lim_state_of f eng)"
  "lim_state_of f (eng\<lparr>eng_metrics := m\<rparr>) = lim_state_of f eng"
  "lim_state_of f (eng\<lparr>eng_seq := n\<rparr>) = lim_state_of f eng"
  "lim_state_of f (c_engine (log_event env ev w)) = lim_state_of f (c_engine w)"
  by (simp_all add: lim_state_of_def set_limiter_def set_resources_def)

lemma lim_state_of_drop_guard [simp]:
  assumes "engine_of config eng"
  shows "lim_state_of f (drop_guard g eng) = (if f = g then release (lim_state_of f eng) else lim_state_of f eng)"
  by (rule engine_ofE [OF assms, of g]) (simp add: drop_guard_def lim_state_of_def set_resources_def)

text \<open>Steps the limiter of the operation does not see.\<close>

lemma limiter_proj_stutter [simp]:
  "i < length (c_threads w) \<Longrightarrow> limiter_view f t = limiter_view f (c_threads w ! i)
     \<Longrightarrow> limiter_proj f (move i t w) = limiter_proj f w"
  "lim_state_of f (g (c_engine w)) = lim_state_of f (c_engine w) \<Longrightarrow> limiter_proj f (in_engine g w) = limiter_proj f w"
  "limiter_proj f (lose j w) = limiter_proj f w"
  "limiter_proj f (w\<lparr>c_world := x\<rparr>) = limiter_proj f w"
  "limiter_proj f (log_event env ev w) = limiter_proj f w"
  by (simp_all add: limiter_proj_def map_update list_update_same_conv lose_def log_event_def
      lim_state_of_def)

lemma limiter_proj_step:
  assumes "c_threads w' = (c_threads w)[i := t]"
  shows "limiter_proj f w' = set_thread i (limiter_view f t) (lim_state_of f (c_engine w')) (limiter_proj f w)"
  using assms by (simp add: limiter_proj_def set_thread_def lim_state_of_def map_update)

lemma limiter_proj_sel [simp]:
  "lim_threads (limiter_proj f w) = map (limiter_view f) (c_threads w)"
  "lim_state (limiter_proj f w) = lim_state_of f (c_engine w)"
  by (simp_all add: limiter_proj_def lim_state_of_def)

lemma resources_limiter:
  "engine_of config eng \<Longrightarrow> eng_resources eng f = Some res \<Longrightarrow>
     res_limiter res = limiter_of config f \<and> res_limiter_state res = lim_state_of f eng"
  using resources_ofI [of config eng f res] by (simp add: resources_of_def limiter_of_def lim_state_of_def)

lemma view_asleep:
  "(\<exists>s d. limiter_view f t = Sleeping s d) \<longleftrightarrow> asleep_for f t"
  by (cases t) (auto simp: asleep_for_def split: phase.splits option.splits if_splits)

lemma conc_step_refines:
  assumes "conc_step env w w'" "engine_of config (c_engine w)"
  shows "limiter_proj f w' = limiter_proj f w
    \<or> lim_step (limiter_of config f) (limiter_proj f w) (limiter_proj f w')"
  using assms
proof (cases rule: conc_step.cases)
  case (acquire i j res e st now)
  note lim = resources_limiter [OF assms(2) acquire(4)]
  show ?thesis
  proof (cases "f = job_op j")
    case True
    have "limiter_view f (Busy j (after_acquire now e)) = after_enter now e"
      by (simp add: True after_acquire_def after_enter_def split: entry.split)
    then have "limiter_proj f w' = set_thread i (after_enter now e) st (limiter_proj f w)"
      using limiter_proj_step [of w' w i _ f] by (simp add: acquire(1) True)
    then show ?thesis
      using lim_step.acquire [of i "limiter_proj f w" "limiter_of config f" e st now] acquire(2,3,5) lim True
      by simp
  next
    case False
    then show ?thesis
      using acquire by simp
  qed
next
  case (spurious_wake i j s)
  show ?thesis
  proof (cases "f = job_op j")
    case True
    then show ?thesis
      using limiter_proj_step [of w' w i _ f] spurious_wake
        lim_step.spurious_wake [of i "limiter_proj f w" s None "limiter_of config f"]
      by simp
  qed (use spurious_wake in simp)
next
  case (resume i j s res now r st)
  note lim = resources_limiter [OF assms(2) resume(4)]
  show ?thesis
  proof (cases "f = job_op j")
    case True
    then have "limiter_proj f w' = set_thread i
       (case r of Some q \<Rightarrow> Holding q | None \<Rightarrow> Sleeping s None) st (limiter_proj f w)"
      using limiter_proj_step [of w' w i _ f] by (simp add: resume(1) split: option.split)
    then show ?thesis
      using lim_step.resume [of i "limiter_proj f w" s False "limiter_of config f" now r st] resume(2,3,5) lim True
      by simp
  qed (use resume in simp)
next
  case (leave_notifies i j q out k j' s)
  have ik: "i \<noteq> k" using leave_notifies(3,5) by auto
  let ?w1 = "move i (Ended out) (in_engine (drop_guard (job_op j)) w)"
  show ?thesis
  proof (cases "f = job_op j")
    case True
    let ?rel = "release (lim_state_of f (c_engine w))"
    have w1: "limiter_proj f ?w1 = set_thread i Idle ?rel (limiter_proj f w)"
      using limiter_proj_step [of ?w1 w i "Ended out" f] assms(2) by (simp add: True)
    have "limiter_proj f w' = set_thread k (Woken s None False) ?rel (limiter_proj f ?w1)"
      using limiter_proj_step [of w' ?w1 k "Busy j' (Queueing s True)" f] assms(2) leave_notifies(1,6)
      by (simp add: True)
    moreover have "lim_step (limiter_of config f) (limiter_proj f w)
        (set_thread k (Woken s None False) ?rel (set_thread i Idle ?rel (limiter_proj f w)))"
      using lim_step.release_notifies [of i "limiter_proj f w" q k s None "limiter_of config f"]
        leave_notifies(2-6)
      by (simp add: True)
    ultimately show ?thesis by (simp only: w1) simp
  next
    case False
    show ?thesis
      using leave_notifies False ik assms(2) by simp
  qed
next
  case (leave_unnoticed i j q out)
  show ?thesis
  proof (cases "f = job_op j")
    case True
    have "limiter_proj f w' = set_thread i Idle (release (lim_state_of f (c_engine w))) (limiter_proj f w)"
      using limiter_proj_step [of w' w i "Ended out" f] assms(2) leave_unnoticed(1) by (simp add: True)
    moreover have "\<forall>t\<in>set (lim_threads (limiter_proj f w)). \<nexists>s d. t = Sleeping s d"
      using leave_unnoticed(4) view_asleep [of f] by (auto simp: True)
    ultimately show ?thesis
      using lim_step.release_unnoticed [of i "limiter_proj f w" q "limiter_of config f"]
        leave_unnoticed(2,3) True
      by simp
  qed (use leave_unnoticed assms(2) in simp)
next
  case (sample_recorded i j guard total_us is_error result m)
  then show ?thesis by (simp add: after_record_def split: option.split)
next
  case (record_panics i j guard total_us is_error result)
  then show ?thesis by (simp add: after_record_def split: option.split)
next
  case (begin_op i seq eng1 ctx body start)
  have "limiter_proj f (w\<lparr>c_engine := eng1, c_requests := c_requests w @ [ctx]\<rparr>) = limiter_proj f w"
    using begin_op(4) by (auto simp: limiter_proj_def next_seq_def)
  then show ?thesis using begin_op by simp
next
  case (decide i j q res now fault lat delay res1)
  then show ?thesis
    using op_sample_limiter [of env "c_engine w" res "job_ctx j" "job_seq j" now]
      resources_limiter [OF assms(2) decide(4)]
    by simp
qed simp_all

lemma limiter_proj_init: "limiter_proj f (conc_init config sink now n x) = lim_init (limiter_of config f) n"
  by (simp add: limiter_proj_def conc_init_def lim_init_def SimEngine_new_resources OpResources_new_def
      limiter_of_def Let_def map_replicate_const)

lemma conc_reachable_limiter:
  "conc_reachable env config sink w \<Longrightarrow> lim_reachable (limiter_of config f) (limiter_proj f w)"
proof (induction rule: conc_reachable.induct)
  case (init now n x)
  then show ?case by (simp add: limiter_proj_init lim_reachable.init)
next
  case (step w w')
  then show ?case
    using conc_step_refines [OF step.hyps(2) conc_reachable_engine_of [OF step.hyps(1)], of f]
    by (auto intro: lim_reachable.step)
qed

section \<open>The log\<close>

text \<open>
  The event of a request with a sequence number: a rejection, or the decision that the
  configuration, the request and the number determine.
\<close>

definition is_rejection :: "Event \<Rightarrow> bool" where
  "is_rejection e \<longleftrightarrow> ev_outcome e = Outcome_Error \<and> ev_errno e = Some EAGAIN
     \<and> ev_queue_wait_us e = 0 \<and> ev_injected_latency_us e = 0 \<and> ev_bandwidth_delay_us e = 0"

definition event_matches :: "OpContext \<Rightarrow> u64 \<Rightarrow> Event \<Rightarrow> bool" where
  "event_matches ctx seq e \<longleftrightarrow> ev_seq e = seq \<and> ev_op e = ctx_op ctx \<and> ev_ino e = ctx_ino ctx
     \<and> ev_offset e = ctx_offset ctx \<and> ev_len e = ctx_len ctx"

definition explains :: "('r, 's, 'h) engine_env \<Rightarrow> Config \<Rightarrow> OpContext \<Rightarrow> u64 \<Rightarrow> Event \<Rightarrow> bool" where
  "explains env config ctx seq e \<longleftrightarrow> event_matches ctx seq e
     \<and> (is_rejection e
       \<or> ev_injected_latency_us e = decided_latency (env_libm env) (env_rng env) config ctx seq
         \<and> pred_option (\<lambda>errno. ev_errno e = Some errno) (decided_fault (env_rng env) config ctx seq))"

fun phase_ok :: "('r, 's, 'h) engine_env \<Rightarrow> Config \<Rightarrow> OpContext \<Rightarrow> u64 \<Rightarrow> 'a phase \<Rightarrow> bool" where
  "phase_ok env config ctx seq (Delayed q fault lat delay) \<longleftrightarrow>
     fault = decided_fault (env_rng env) config ctx seq
     \<and> lat = decided_latency (env_libm env) (env_rng env) config ctx seq"
| "phase_ok env config ctx seq (Answered q lat delay result) \<longleftrightarrow>
     lat = decided_latency (env_libm env) (env_rng env) config ctx seq
     \<and> pred_option (\<lambda>errno. result = Err (Errno errno)) (decided_fault (env_rng env) config ctx seq)"
| "phase_ok env config ctx seq _ \<longleftrightarrow> True"

definition requested :: "OpContext list \<Rightarrow> OpContext \<Rightarrow> u64 \<Rightarrow> bool" where
  "requested reqs ctx seq \<longleftrightarrow> (\<exists>k<length reqs. reqs ! k = ctx \<and> seq = of_nat k)"

fun thread_ok :: "('r, 's, 'h) engine_env \<Rightarrow> Config \<Rightarrow> OpContext list \<Rightarrow> ('w, 'a) thread \<Rightarrow> bool" where
  "thread_ok env config reqs (Busy j p) \<longleftrightarrow>
     requested reqs (job_ctx j) (job_seq j) \<and> phase_ok env config (job_ctx j) (job_seq j) p"
| "thread_ok env config reqs _ \<longleftrightarrow> True"

text \<open>The sequence number a call still has to log.\<close>

fun open_seq :: "('w, 'a) thread \<Rightarrow> u64 list" where
  "open_seq (Busy j p) = (case p of Emitted _ _ _ _ \<Rightarrow> [] | Leaving _ _ \<Rightarrow> [] | _ \<Rightarrow> [job_seq j])"
| "open_seq _ = []"

definition open_seqs :: "('s, 'h, 'w, 'a) conc \<Rightarrow> u64 list" where
  "open_seqs w = concat (map open_seq (c_threads w))"

definition log_inv :: "('r, 's, 'h) engine_env \<Rightarrow> Config \<Rightarrow> 's \<Rightarrow> ('s, 'h, 'w, 'a) conc \<Rightarrow> bool" where
  "log_inv env config sink w \<longleftrightarrow>
     eng_seq (c_engine w) = of_nat (length (c_requests w))
     \<and> eng_sink (c_engine w) = foldl (env_emit env) sink (c_log w)
     \<and> list_all (thread_ok env config (c_requests w)) (c_threads w)
     \<and> (\<forall>e\<in>set (c_log w). \<exists>ctx seq. requested (c_requests w) ctx seq \<and> explains env config ctx seq e)
     \<and> mset (map ev_seq (c_log w)) + mset (open_seqs w) + mset (c_lost w)
         = mset (map of_nat [0..<length (c_requests w)])"

lemma requested_append: "requested reqs ctx seq \<Longrightarrow> requested (reqs @ [c]) ctx seq"
  unfolding requested_def by (metis length_append_singleton less_SucI nth_append)

lemma requested_new: "requested (reqs @ [ctx]) ctx (of_nat (length reqs))"
  unfolding requested_def by (rule exI [of _ "length reqs"]) simp

lemma thread_ok_append: "thread_ok env config reqs t \<Longrightarrow> thread_ok env config (reqs @ [c]) t"
  by (cases t) (simp_all add: requested_append)

lemma thread_ok_at:
  "log_inv env config sink w \<Longrightarrow> i < length (c_threads w) \<Longrightarrow> thread_ok env config (c_requests w) (c_threads w ! i)"
  by (simp add: log_inv_def list_all_length)

lemma concat_update:
  assumes "i < length ts"
  shows "mset (concat (map g (ts[i := t]))) + mset (g (ts ! i)) = mset (concat (map g ts)) + mset (g t)"
  using assms
proof (induction ts arbitrary: i)
  case (Cons a ts)
  then show ?case by (cases i) (auto simp: ac_simps)
qed simp

lemma list_all_update: "list_all P xs \<Longrightarrow> P x \<Longrightarrow> list_all P (xs[i := x])"
  by (auto simp: list_all_iff dest: set_update_subset_insert [THEN subsetD])

text \<open>A step that moves one thread and logs, loses or keeps its sequence number.\<close>

lemma log_inv_move:
  assumes "log_inv env config sink w" "i < length (c_threads w)"
    and "c_threads w' = (c_threads w)[i := t]" "c_requests w' = c_requests w"
    and "eng_seq (c_engine w') = eng_seq (c_engine w)"
    and "thread_ok env config (c_requests w) t"
    and "c_log w' = c_log w @ evs" "eng_sink (c_engine w') = foldl (env_emit env) (eng_sink (c_engine w)) evs"
    and "\<forall>e\<in>set evs. \<exists>ctx seq. requested (c_requests w) ctx seq \<and> explains env config ctx seq e"
    and "c_lost w' = c_lost w @ gone"
    and "mset (open_seq (c_threads w ! i)) = mset (open_seq t) + mset (map ev_seq evs) + mset gone"
  shows "log_inv env config sink w'"
proof -
  have "mset (open_seqs w') + mset (open_seq (c_threads w ! i)) = mset (open_seqs w) + mset (open_seq t)"
    using concat_update [OF assms(2), of open_seq t] by (simp add: open_seqs_def assms(3))
  then have o: "mset (open_seqs w) = mset (open_seqs w') + mset (map ev_seq evs) + mset gone"
    unfolding assms(11) by (simp add: ac_simps)
  have counts: "mset (map ev_seq (c_log w')) + mset (open_seqs w') + mset (c_lost w')
      = mset (map of_nat [0..<length (c_requests w)])"
    using assms(1) unfolding log_inv_def o by (simp add: assms(7,10) ac_simps)
  have "list_all (thread_ok env config (c_requests w)) (c_threads w')"
    using assms(1,6) by (simp add: log_inv_def assms(3) list_all_update)
  then show ?thesis
    using assms(1,9) unfolding log_inv_def assms(4,5) counts by (auto simp: assms(7,8))
qed

lemma log_inv_quiet:
  assumes "log_inv env config sink w" "i < length (c_threads w)"
    and "c_threads w' = (c_threads w)[i := t]" "c_requests w' = c_requests w"
    and "eng_seq (c_engine w') = eng_seq (c_engine w)" "eng_sink (c_engine w') = eng_sink (c_engine w)"
    and "c_log w' = c_log w" "c_lost w' = c_lost w"
    and "thread_ok env config (c_requests w) t" "open_seq t = open_seq (c_threads w ! i)"
  shows "log_inv env config sink w'"
  by (rule log_inv_move [where t = t and evs = "[]" and gone = "[]", OF assms(1-5)]) (simp_all add: assms(6-10))

lemma log_inv_begin:
  assumes "log_inv env config sink w" "i < length (c_threads w)" "c_threads w ! i = Resting"
    and "next_seq (c_engine w) = (seq, eng1)"
  shows "log_inv env config sink
      (move i (Busy \<lparr>job_ctx = ctx, job_body = body, job_seq = seq, job_start = start\<rparr> Started)
        (w\<lparr>c_engine := eng1, c_requests := c_requests w @ [ctx]\<rparr>))"
    (is "log_inv env config sink (move i ?t ?w)")
proof -
  let ?n = "length (c_requests w)"
  have inv: "eng_seq (c_engine w) = of_nat ?n" "eng_sink (c_engine w) = foldl (env_emit env) sink (c_log w)"
    "list_all (thread_ok env config (c_requests w)) (c_threads w)"
    "\<forall>e\<in>set (c_log w). \<exists>ctx seq. requested (c_requests w) ctx seq \<and> explains env config ctx seq e"
    "mset (map ev_seq (c_log w)) + mset (open_seqs w) + mset (c_lost w) = mset (map of_nat [0..<?n])"
    using assms(1) unfolding log_inv_def by blast+
  have seq: "seq = of_nat ?n" "eng_seq eng1 = of_nat ?n + 1" "eng_sink eng1 = eng_sink (c_engine w)"
    using assms(4) inv(1) by (auto simp: next_seq_def)
  have "mset (open_seqs (move i ?t ?w)) = mset (open_seqs w) + {#seq#}"
    using concat_update [OF assms(2), of open_seq ?t] by (simp add: open_seqs_def assms(3))
  then have "mset (map ev_seq (c_log w)) + mset (open_seqs (move i ?t ?w)) + mset (c_lost w)
      = mset (map of_nat [0..<?n]) + {#seq#}"
    unfolding inv(5) [symmetric] by (simp add: ac_simps)
  then have counts: "mset (map ev_seq (c_log w)) + mset (open_seqs (move i ?t ?w)) + mset (c_lost w)
      = mset (map of_nat [0..<Suc ?n])"
    by (simp add: seq)
  have "thread_ok env config (c_requests w @ [ctx]) ?t" by (simp add: seq requested_new)
  moreover have "list_all (thread_ok env config (c_requests w @ [ctx])) (c_threads w)"
    using inv(3) by (auto simp: list_all_iff thread_ok_append)
  ultimately have threads: "list_all (thread_ok env config (c_requests w @ [ctx])) ((c_threads w)[i := ?t])"
    by (intro list_all_update)
  have events: "\<forall>e\<in>set (c_log w). \<exists>c seq. requested (c_requests w @ [ctx]) c seq \<and> explains env config c seq e"
    using inv(4) requested_append by blast
  show ?thesis
    unfolding log_inv_def using counts threads events inv(2) seq by (simp add: add.commute)
qed

lemma log_inv_leave:
  assumes "log_inv env config sink w" "i < length (c_threads w)" "c_threads w ! i = Busy j (Leaving q out)"
  shows "log_inv env config sink (move i (Ended out) (in_engine (drop_guard f) w))"
  by (rule log_inv_quiet [where t = "Ended out", OF assms(1,2)]) (simp_all add: assms(3))

lemma event_of_matches: "event_matches (job_ctx j) (job_seq j) (event_of j ou er q lat d us wall)"
  by (simp add: event_matches_def event_of_def job_op_def)

lemma log_inv_step:
  assumes "conc_step env w w'" "engine_of config (c_engine w)" "log_inv env config sink w"
  shows "log_inv env config sink w'"
  using assms(1)
proof (cases rule: conc_step.cases)
  case (begin_op i seq eng1 ctx body start)
  show ?thesis unfolding begin_op(1) by (rule log_inv_begin [OF assms(3) begin_op(2-4)])
next
  case (no_resources i j)
  show ?thesis
    by (rule log_inv_move [where t = "Ended Panics" and evs = "[]" and gone = "[job_seq j]", OF assms(3) no_resources(2)])
      (simp_all add: no_resources)
next
  case (acquire i j res e st now)
  show ?thesis
    by (rule log_inv_quiet [where t = "Busy j (after_acquire now e)", OF assms(3) acquire(2)])
      (use thread_ok_at [OF assms(3) acquire(2)] in
        \<open>simp_all add: acquire set_limiter_def set_resources_def after_acquire_def split: entry.split\<close>)
next
  case (spurious_wake i j s)
  show ?thesis
    by (rule log_inv_quiet [where t = "Busy j (Queueing s True)", OF assms(3) spurious_wake(2)])
      (use thread_ok_at [OF assms(3) spurious_wake(2)] in \<open>simp_all add: spurious_wake\<close>)
next
  case (resume i j s res now r st)
  show ?thesis
    by (rule log_inv_quiet [where t = "Busy j (case r of Some q \<Rightarrow> Granted q | None \<Rightarrow> Queueing s False)",
          OF assms(3) resume(2)])
      (use thread_ok_at [OF assms(3) resume(2)] in
        \<open>simp_all add: resume set_limiter_def set_resources_def split: option.split\<close>)
next
  case (decide i j q res now fault lat delay res1)
  have "fault = decided_fault (env_rng env) config (job_ctx j) (job_seq j)"
    "lat = decided_latency (env_libm env) (env_rng env) config (job_ctx j) (job_seq j)"
    using op_sample_decides [OF assms(2), of "job_ctx j" res env "job_seq j" now] decide(4,5)
    by (simp_all add: job_op_def)
  then show ?thesis
    by (intro log_inv_quiet [where t = "Busy j (Delayed q fault lat delay)", OF assms(3) decide(2)])
      (use thread_ok_at [OF assms(3) decide(2)] in \<open>simp_all add: decide(1,3) set_resources_def\<close>)
next
  case (sleep_overflows i j q fault lat delay)
  show ?thesis
    by (rule log_inv_move [where t = "Busy j (Leaving q Panics)" and evs = "[]" and gone = "[job_seq j]",
          OF assms(3) sleep_overflows(2)])
      (use thread_ok_at [OF assms(3) sleep_overflows(2)] in \<open>simp_all add: sleep_overflows\<close>)
next
  case (inject i j q errno lat delay sleep_for)
  show ?thesis
    by (rule log_inv_quiet [where t = "Busy j (Answered q lat delay (Err (Errno errno)))", OF assms(3) inject(2)])
      (use thread_ok_at [OF assms(3) inject(2)] in \<open>auto simp: inject pred_option_def\<close>)
next
  case (answer i j q lat delay sleep_for result x)
  show ?thesis
    by (rule log_inv_quiet [where t = "Busy j (Answered q lat delay result)", OF assms(3) answer(2)])
      (use thread_ok_at [OF assms(3) answer(2)] in \<open>auto simp: answer pred_option_def\<close>)
next
  case (body_panics i j q lat delay sleep_for x)
  show ?thesis
    by (rule log_inv_move [where t = "Busy j (Leaving q Panics)" and evs = "[]" and gone = "[job_seq j]",
          OF assms(3) body_panics(2)])
      (use thread_ok_at [OF assms(3) body_panics(2)] in \<open>simp_all add: body_panics lose_def\<close>)
next
  case (sample_recorded i j guard total_us is_error result m)
  show ?thesis
    by (rule log_inv_quiet [where t = "after_record j guard (Returns result)", OF assms(3) sample_recorded(2)])
      (use thread_ok_at [OF assms(3) sample_recorded(2)] in
        \<open>simp_all add: sample_recorded after_record_def split: option.split\<close>)
next
  case (record_panics i j guard total_us is_error result)
  show ?thesis
    by (rule log_inv_quiet [where t = "after_record j guard Panics", OF assms(3) record_panics(2)])
      (use thread_ok_at [OF assms(3) record_panics(2)] in
        \<open>simp_all add: record_panics after_record_def split: option.split\<close>)
next
  case (next_request i out)
  show ?thesis
    by (rule log_inv_quiet [where t = Resting, OF assms(3) next_request(2)]) (simp_all add: next_request)
next
  case (emit i j q lat delay result us now wall)
  let ?ev = "event_of j (fst (result_outcome result)) (snd (result_outcome result))
      (as_micros_u64 q) lat (as_micros_u64 delay) us wall"
  have ok: "requested (c_requests w) (job_ctx j) (job_seq j)"
    "lat = decided_latency (env_libm env) (env_rng env) config (job_ctx j) (job_seq j)"
    "pred_option (\<lambda>errno. result = Err (Errno errno)) (decided_fault (env_rng env) config (job_ctx j) (job_seq j))"
    using thread_ok_at [OF assms(3) emit(2)] by (simp_all add: emit(3))
  have "explains env config (job_ctx j) (job_seq j) ?ev"
    unfolding explains_def using event_of_matches ok(2,3)
    by (auto simp: event_of_def pred_option_def split: option.splits)
  then show ?thesis
    using ok(1)
    by (intro log_inv_move [where t = "Busy j (Emitted (Some q) us (fst (result_outcome result) = Outcome_Error) result)"
          and evs = "[?ev]" and gone = "[]", OF assms(3) emit(2)])
      (auto simp: emit(1,3) log_event_def event_of_def)
next
  case (emit_rejection i j us now wall)
  let ?ev = "event_of j Outcome_Error (Some EAGAIN) 0 0 0 us wall"
  have ok: "requested (c_requests w) (job_ctx j) (job_seq j)"
    using thread_ok_at [OF assms(3) emit_rejection(2)] by (simp add: emit_rejection(3))
  have "explains env config (job_ctx j) (job_seq j) ?ev"
    unfolding explains_def using event_of_matches by (simp add: is_rejection_def event_of_def)
  then show ?thesis
    using ok
    by (intro log_inv_move [where t = "Busy j (Emitted None us True (Err (Errno EAGAIN)))"
          and evs = "[?ev]" and gone = "[]", OF assms(3) emit_rejection(2)])
      (auto simp: emit_rejection(1,3) log_event_def event_of_def)
next
  case (leave_notifies i j q out k j' s)
  let ?w1 = "move i (Ended out) (in_engine (drop_guard (job_op j)) w)"
  have "i \<noteq> k" using leave_notifies(3,5) by auto
  then have k: "k < length (c_threads ?w1)" "c_threads ?w1 ! k = Busy j' (Queueing s False)"
    using leave_notifies(4,5) by simp_all
  have w1: "log_inv env config sink ?w1" by (rule log_inv_leave [OF assms(3) leave_notifies(2,3)])
  show ?thesis
    unfolding leave_notifies(1)
    by (rule log_inv_quiet [where t = "Busy j' (Queueing s True)", OF w1 k(1)])
      (use thread_ok_at [OF w1 k(1)] k(2) in simp_all)
next
  case (leave_unnoticed i j q out)
  show ?thesis unfolding leave_unnoticed(1) by (rule log_inv_leave [OF assms(3) leave_unnoticed(2,3)])
qed

lemma log_inv_init: "log_inv env config sink (conc_init config sink now n x)"
  by (simp add: log_inv_def conc_init_def SimEngine_new_def open_seqs_def list_all_iff)

lemma conc_reachable_log_inv: "conc_reachable env config sink w \<Longrightarrow> log_inv env config sink w"
proof (induction rule: conc_reachable.induct)
  case (step w w')
  show ?case
    by (rule log_inv_step [OF step.hyps(2) conc_reachable_engine_of [OF step.hyps(1)] step.IH])
qed (rule log_inv_init)

section \<open>One thread alone\<close>

text \<open>The steps of a single thread, with nobody to interfere.\<close>

definition solo ::
    "('s, 'h) SimEngine \<Rightarrow> ('w, 'a) thread \<Rightarrow> 'w \<Rightarrow> OpContext list \<Rightarrow> Event list \<Rightarrow> u64 list
     \<Rightarrow> ('s, 'h, 'w, 'a) conc" where
  "solo eng t x reqs evs lost =
     \<lparr>c_engine = eng, c_threads = [t], c_world = x, c_requests = reqs, c_log = evs, c_lost = lost\<rparr>"

lemma solo_sel [simp]:
  "c_engine (solo eng t x reqs evs lost) = eng" "c_threads (solo eng t x reqs evs lost) = [t]"
  "c_world (solo eng t x reqs evs lost) = x" "c_requests (solo eng t x reqs evs lost) = reqs"
  "c_log (solo eng t x reqs evs lost) = evs" "c_lost (solo eng t x reqs evs lost) = lost"
  by (simp_all add: solo_def)

lemma solo_upd [simp]:
  "move 0 t' (solo eng t x reqs evs lost) = solo eng t' x reqs evs lost"
  "in_engine g (solo eng t x reqs evs lost) = solo (g eng) t x reqs evs lost"
  "(solo eng t x reqs evs lost)\<lparr>c_world := y\<rparr> = solo eng t y reqs evs lost"
  "(solo eng t x reqs evs lost)\<lparr>c_engine := e, c_requests := rs\<rparr> = solo e t x rs evs lost"
  "log_event env ev (solo eng t x reqs evs lost)
     = solo (eng\<lparr>eng_sink := env_emit env (eng_sink eng) ev\<rparr>) t x reqs (evs @ [ev]) lost"
  by (simp_all add: solo_def move_def in_engine_def log_event_def)

lemma solo_steps:
  "next_seq eng = (seq, eng1) \<Longrightarrow> conc_step env (solo eng Resting x reqs evs lost)
     (solo eng1 (Busy \<lparr>job_ctx = ctx, job_body = body, job_seq = seq, job_start = start\<rparr> Started) x (reqs @ [ctx]) evs lost)"
  "eng_resources eng (job_op j) = Some res \<Longrightarrow> acquire_enter (res_limiter res) (res_limiter_state res) = (e, st)
     \<Longrightarrow> conc_step env (solo eng (Busy j Started) x reqs evs lost)
       (solo (set_limiter (job_op j) res st eng) (Busy j (after_acquire now e)) x reqs evs lost)"
  "eng_resources eng (job_op j) = Some res
     \<Longrightarrow> op_sample env eng res (job_ctx j) (job_seq j) now = ((fault, lat, delay), res1)
     \<Longrightarrow> conc_step env (solo eng (Busy j (Granted q)) x reqs evs lost)
       (solo (set_resources (job_op j) res1 eng) (Busy j (Delayed q fault lat delay)) x reqs evs lost)"
  "duration_add (from_micros lat) delay = Returns sleep_for
     \<Longrightarrow> conc_step env (solo eng (Busy j (Delayed q (Some errno) lat delay)) x reqs evs lost)
       (solo eng (Busy j (Answered q lat delay (Err (Errno errno)))) x reqs evs lost)"
  "duration_add (from_micros lat) delay = Returns sleep_for \<Longrightarrow> job_body j x = (Returns result, y)
     \<Longrightarrow> conc_step env (solo eng (Busy j (Delayed q None lat delay)) x reqs evs lost)
       (solo eng (Busy j (Answered q lat delay result)) y reqs evs lost)"
  "conc_step env (solo eng (Busy j (Leaving q out)) x reqs evs lost)
     (solo (drop_guard (job_op j) eng) (Ended out) x reqs evs lost)"
  using conc_step.begin_op [of 0 "solo eng Resting x reqs evs lost" seq eng1 env ctx body start]
    conc_step.acquire [of 0 "solo eng (Busy j Started) x reqs evs lost" j res e st env now]
    conc_step.decide [of 0 "solo eng (Busy j (Granted q)) x reqs evs lost" j q res env now fault lat delay res1]
    conc_step.inject [of 0 "solo eng (Busy j (Delayed q (Some errno) lat delay)) x reqs evs lost" j q errno lat delay sleep_for env]
    conc_step.answer [of 0 "solo eng (Busy j (Delayed q None lat delay)) x reqs evs lost" j q lat delay sleep_for result y env]
    conc_step.leave_unnoticed [of 0 "solo eng (Busy j (Leaving q out)) x reqs evs lost" j q out env]
  by (simp_all add: asleep_for_def)

lemma solo_record:
  "record_op (env_hdr env) (eng_metrics eng) (job_op j) us is_error = Returns m
     \<Longrightarrow> conc_step env (solo eng (Busy j (Emitted guard us is_error result)) x reqs evs lost)
       (solo (eng\<lparr>eng_metrics := m\<rparr>) (after_record j guard (Returns result)) x reqs evs lost)"
  using conc_step.sample_recorded
    [of 0 "solo eng (Busy j (Emitted guard us is_error result)) x reqs evs lost" j guard us is_error result env m]
  by simp

lemma two_steps: "r a b \<Longrightarrow> r b c \<Longrightarrow> r\<^sup>*\<^sup>* a c"
  by (rule converse_rtranclp_into_rtranclp [OF _ r_into_rtranclp])

lemma three_steps: "r a b \<Longrightarrow> r b c \<Longrightarrow> r c d \<Longrightarrow> r\<^sup>*\<^sup>* a d"
  by (rule converse_rtranclp_into_rtranclp [OF _ two_steps])

lemma solo_reject:
  assumes "op_reject env eng (job_ctx j) (job_seq j) (job_start j) now wall = (Returns r, eng')"
  shows "\<exists>ev. (conc_step env)\<^sup>*\<^sup>* (solo eng (Busy j Turned_away) x reqs evs lost)
    (solo eng' (Ended (Returns r)) x reqs (evs @ [ev]) lost)"
proof -
  let ?us = "as_micros_u64 (duration_since now (job_start j))"
  let ?ev = "event_of j Outcome_Error (Some EAGAIN) 0 0 0 ?us wall"
  let ?eng1 = "eng\<lparr>eng_sink := env_emit env (eng_sink eng) ?ev\<rparr>"
  obtain m where m: "record_op (env_hdr env) (eng_metrics ?eng1) (job_op j) ?us True = Returns m"
    "eng' = ?eng1\<lparr>eng_metrics := m\<rparr>" "r = Err (Errno EAGAIN)"
    using assms by (auto simp: op_reject_def Let_def emit_event_of job_op_def split: may_panic.splits)
  have "conc_step env (solo eng (Busy j Turned_away) x reqs evs lost)
      (solo ?eng1 (Busy j (Emitted None ?us True (Err (Errno EAGAIN)))) x reqs (evs @ [?ev]) lost)"
    using conc_step.emit_rejection [of 0 "solo eng (Busy j Turned_away) x reqs evs lost" j ?us now env wall] by simp
  moreover have "conc_step env
      (solo ?eng1 (Busy j (Emitted None ?us True (Err (Errno EAGAIN)))) x reqs (evs @ [?ev]) lost)
      (solo eng' (Ended (Returns r)) x reqs (evs @ [?ev]) lost)"
    using solo_record [OF m(1), of None "Err (Errno EAGAIN)" x reqs "evs @ [?ev]" lost]
    by (simp add: m(2,3) after_record_def)
  ultimately show ?thesis by (intro exI [of _ ?ev]) (rule two_steps)
qed

lemma solo_finish:
  assumes "op_finish env eng (job_ctx j) (job_seq j) result q lat delay (job_start j) now wall = (Returns r, eng')"
  shows "\<exists>ev. (conc_step env)\<^sup>*\<^sup>* (solo eng (Busy j (Answered q lat delay result)) x reqs evs lost)
    (solo eng' (Ended (Returns r)) x reqs (evs @ [ev]) lost)"
proof -
  let ?us = "as_micros_u64 (duration_since now (job_start j))"
  let ?err = "fst (result_outcome result) = Outcome_Error"
  let ?ev = "event_of j (fst (result_outcome result)) (snd (result_outcome result))
      (as_micros_u64 q) lat (as_micros_u64 delay) ?us wall"
  let ?eng1 = "eng\<lparr>eng_sink := env_emit env (eng_sink eng) ?ev\<rparr>"
  obtain m where m: "record_op (env_hdr env) (eng_metrics ?eng1) (job_op j) ?us ?err = Returns m"
    "eng' = drop_guard (job_op j) (?eng1\<lparr>eng_metrics := m\<rparr>)" "r = result"
    using assms
    by (cases result) (auto simp: op_finish_def Let_def emit_event_of job_op_def split: may_panic.splits)
  have "conc_step env (solo eng (Busy j (Answered q lat delay result)) x reqs evs lost)
      (solo ?eng1 (Busy j (Emitted (Some q) ?us ?err result)) x reqs (evs @ [?ev]) lost)"
    using conc_step.emit [of 0 "solo eng (Busy j (Answered q lat delay result)) x reqs evs lost"
        j q lat delay result ?us now env wall] by simp
  moreover have "conc_step env (solo ?eng1 (Busy j (Emitted (Some q) ?us ?err result)) x reqs (evs @ [?ev]) lost)
      (solo (?eng1\<lparr>eng_metrics := m\<rparr>) (Busy j (Leaving q (Returns r))) x reqs (evs @ [?ev]) lost)"
    using solo_record [OF m(1), of "Some q" result x reqs "evs @ [?ev]" lost] by (simp add: m(3) after_record_def)
  moreover have "conc_step env
      (solo (?eng1\<lparr>eng_metrics := m\<rparr>) (Busy j (Leaving q (Returns r))) x reqs (evs @ [?ev]) lost)
      (solo eng' (Ended (Returns r)) x reqs (evs @ [?ev]) lost)"
    unfolding m(2) by (rule solo_steps(6))
  ultimately show ?thesis by (intro exI [of _ ?ev]) (rule three_steps)
qed

lemma solo_admitted:
  assumes "op_admitted env eng (job_ctx j) (job_seq j) q (job_body j) x t = (Returns r, eng', y)"
    and "job_start j = t_start t"
  shows "\<exists>ev. (conc_step env)\<^sup>*\<^sup>* (solo eng (Busy j (Granted q)) x reqs evs lost)
    (solo eng' (Ended (Returns r)) y reqs (evs @ [ev]) lost)"
proof -
  obtain res where res: "eng_resources eng (job_op j) = Some res"
    using assms(1) by (auto simp: op_admitted_def job_op_def split: option.splits)
  obtain fault lat delay res1 where smp:
    "op_sample env eng res (job_ctx j) (job_seq j) (t_reserve t) = ((fault, lat, delay), res1)"
    by (metis prod.exhaust)
  let ?eng1 = "set_resources (job_op j) res1 eng"
  let ?out = "case fault of Some errno \<Rightarrow> (Returns (Err (Errno errno)), x) | None \<Rightarrow> job_body j x"
  obtain sleep_for result where run: "duration_add (from_micros lat) delay = Returns sleep_for"
    "?out = (Returns result, y)"
    "op_finish env ?eng1 (job_ctx j) (job_seq j) result q lat delay (job_start j) (t_end t) (t_wall t)
      = (Returns r, eng')"
    using assms(1) unfolding op_admitted_def job_op_def [symmetric] assms(2)
    by (auto simp: res smp Let_def split: may_panic.splits prod.splits)
  have decide: "conc_step env (solo eng (Busy j (Granted q)) x reqs evs lost)
      (solo ?eng1 (Busy j (Delayed q fault lat delay)) x reqs evs lost)"
    by (rule solo_steps(3) [OF res smp])
  have answer: "conc_step env (solo ?eng1 (Busy j (Delayed q fault lat delay)) x reqs evs lost)
      (solo ?eng1 (Busy j (Answered q lat delay result)) y reqs evs lost)"
    using run(2) solo_steps(4,5) [OF run(1)] by (auto split: option.splits)
  obtain ev where "(conc_step env)\<^sup>*\<^sup>* (solo ?eng1 (Busy j (Answered q lat delay result)) y reqs evs lost)
      (solo eng' (Ended (Returns r)) y reqs (evs @ [ev]) lost)"
    using solo_finish [OF run(3)] by blast
  then show ?thesis
    using decide answer by (meson converse_rtranclp_into_rtranclp)
qed

lemma run_op_path:
  assumes "engine_of config eng" "run_op env eng ctx body x t = (Finished r, eng', y)"
  shows "\<exists>ev. (conc_step env)\<^sup>*\<^sup>* (solo eng Resting x reqs evs lost)
    (solo eng' (Ended (Returns r)) y (reqs @ [ctx]) (evs @ [ev]) lost)"
proof -
  let ?j = "\<lparr>job_ctx = ctx, job_body = body, job_seq = eng_seq eng, job_start = t_start t\<rparr>"
  obtain eng0 where n: "next_seq eng = (eng_seq eng, eng0)" by (simp add: next_seq_def)
  have enter: "\<exists>res st. eng_resources eng0 ctx_op' = Some res
      \<and> acquire_enter (res_limiter res) (res_limiter_state res) = (e, st)
      \<and> eng1 = set_limiter ctx_op' res st eng0"
    if "op_enter eng ctx = (Some (s, e), eng1)" "ctx_op' = ctx_op ctx" for s e eng1 ctx_op'
    using that n by (auto simp: op_enter_def set_limiter_def split: option.splits prod.splits)
  have first: "conc_step env (solo eng Resting x reqs evs lost) (solo eng0 (Busy ?j Started) x (reqs @ [ctx]) evs lost)"
    by (rule solo_steps(1) [OF n])
  have second: "conc_step env (solo eng0 (Busy ?j Started) x (reqs @ [ctx]) evs lost)
      (solo eng1 (Busy ?j (after_acquire 0 e)) x (reqs @ [ctx]) evs lost)"
    if "op_enter eng ctx = (Some (s, e), eng1)" for s e eng1
    using enter [OF that, of "job_op ?j"] solo_steps(2) [of eng0 ?j _ e _ env x "reqs @ [ctx]" evs lost 0]
    by (auto simp: job_op_def)
  from assms show ?thesis
  proof (cases rule: run_op_cases)
    case (rejected eng1 v)
    then have "op_reject env eng1 (job_ctx ?j) (job_seq ?j) (job_start ?j) (t_end t) (t_wall t) = (Returns r, eng')"
      "y = x" by simp_all
    with solo_reject [OF this(1), of x "reqs @ [ctx]" evs lost] first second [OF rejected(1)]
    show ?thesis by (simp add: after_acquire_def) (meson converse_rtranclp_into_rtranclp)
  next
    case (admitted eng1 v)
    then have "op_admitted env eng1 (job_ctx ?j) (job_seq ?j) 0 (job_body ?j) x t = (Returns r, eng', y)"
      by simp
    with solo_admitted [OF this, of "reqs @ [ctx]" evs lost] first second [OF admitted(1)]
    show ?thesis by (simp add: after_acquire_def) (meson converse_rtranclp_into_rtranclp)
  qed simp
qed

section \<open>Properties\<close>

text \<open>The threads inside and in front of the limiter of an operation.\<close>

definition inside :: "FsOp \<Rightarrow> ('s, 'h, 'w, 'a) conc \<Rightarrow> nat" where
  "inside f w = count_if (\<lambda>t. is_holding (limiter_view f t)) (c_threads w)"

definition waiting :: "FsOp \<Rightarrow> ('s, 'h, 'w, 'a) conc \<Rightarrow> nat" where
  "waiting f w = count_if (\<lambda>t. in_queue (limiter_view f t)) (c_threads w)"

fun in_flight :: "('w, 'a) thread \<Rightarrow> bool" where
  "in_flight (Busy j p) = True"
| "in_flight _ = False"

lemma count_if_map: "count_if P (map g xs) = count_if (\<lambda>x. P (g x)) xs"
  by (simp add: count_if_def filter_map o_def)

lemma proj_counts:
  "holders (limiter_proj f w) = inside f w" "queuers (limiter_proj f w) = waiting f w"
  by (simp_all add: thread_counts inside_def waiting_def count_if_map)

lemma idle_counts:
  assumes "\<forall>t\<in>set (c_threads w). \<not> in_flight t"
  shows "inside f w = 0" "waiting f w = 0"
proof -
  have "limiter_view f t = Idle" if "t \<in> set (c_threads w)" for t
    using assms that by (cases t) auto
  then show "inside f w = 0" "waiting f w = 0"
    by (simp_all add: inside_def waiting_def count_if_eq_0)
qed

lemma concurrent_occupancy:
  assumes "conc_reachable env config sink w"
  shows "occupancy (c_engine w) f = Some (of_nat (inside f w), of_nat (waiting f w))"
proof -
  have inv: "lim_inv (limiter_of config f) (limiter_proj f w)"
    by (rule lim_reachable_inv [OF conc_reachable_limiter [OF assms]])
  obtain res where res: "eng_resources (c_engine w) f = Some res"
    by (rule engine_ofE [OF conc_reachable_engine_of [OF assms]])
  then have "lim_state_of f (c_engine w) = res_limiter_state res" by (simp add: lim_state_of_def)
  then have n: "inside f w = unat (inflight (res_limiter_state res))"
    "waiting f w = unat (queued (res_limiter_state res))"
    using inv by (simp_all add: lim_inv_def proj_counts)
  show ?thesis by (simp add: occupancy_def slots_def res n)
qed

text \<open>C3. The caps hold under concurrency: in every interleaving of any number of threads on one
  engine, with spurious wake-ups, injected faults and panics, the limiter of every operation
  counts exactly the threads that hold one of its slots and the threads in its queue, at most
  \<open>concurrency_cap\<close> and \<open>queue_cap\<close> of them; while a thread sleeps in the queue another one
  holds a slot or is already woken; and when no operation is in progress all slots are free, so
  no slot was leaked, not even by a panic.\<close>

theorem caps_hold_under_concurrency:
  assumes "conc_reachable env config sink w"
  shows "occupancy (c_engine w) f = Some (of_nat (inside f w), of_nat (waiting f w))
    \<and> inside f w \<le> unat (concurrency_cap (policy_for config f))
    \<and> waiting f w \<le> unat (OpPolicy.queue_cap (policy_for config f))
    \<and> ((\<exists>t\<in>set (c_threads w). asleep_for f t) \<longrightarrow> 0 < inside f w
        \<or> (\<exists>t\<in>set (c_threads w). is_woken (limiter_view f t)))
    \<and> ((\<forall>t\<in>set (c_threads w). \<not> in_flight t) \<longrightarrow> occupancy (c_engine w) f = Some (0, 0))"
proof (intro conjI impI)
  let ?p = "limiter_proj f w"
  have inv: "lim_inv (limiter_of config f) ?p"
    by (rule lim_reachable_inv [OF conc_reachable_limiter [OF assms]])
  show occ: "occupancy (c_engine w) f = Some (of_nat (inside f w), of_nat (waiting f w))"
    by (rule concurrent_occupancy [OF assms])
  show "inside f w \<le> unat (concurrency_cap (policy_for config f))"
    "waiting f w \<le> unat (OpPolicy.queue_cap (policy_for config f))"
    using inv by (simp_all add: lim_inv_def proj_counts limiter_of_def)
  show "occupancy (c_engine w) f = Some (0, 0)" if "\<forall>t\<in>set (c_threads w). \<not> in_flight t"
    unfolding occ by (simp add: idle_counts [OF that])
  show "0 < inside f w \<or> (\<exists>t\<in>set (c_threads w). is_woken (limiter_view f t))"
    if "\<exists>t\<in>set (c_threads w). asleep_for f t"
  proof -
    from that obtain t where t: "t \<in> set (c_threads w)" "asleep_for f t" by blast
    then have "is_sleeping (limiter_view f t)" by (auto simp: asleep_for_def)
    with t(1) have "0 < sleepers ?p" by (auto simp: sleepers_def count_if_pos)
    moreover from this have "cap (limiter_of config f) \<noteq> 0"
      using inv queuers_ge [of ?p] by (auto simp: lim_inv_def)
    then have "0 < unat (cap (limiter_of config f))" by (simp add: unat_gt_0)
    ultimately have "0 < holders ?p \<or> 0 < wakers ?p" using inv by (auto simp: lim_inv_def)
    then show ?thesis by (auto simp: proj_counts wakers_def count_if_pos)
  qed
qed

text \<open>A run of one operation by the single thread of a new engine.\<close>

lemma conc_reachable_path:
  "(conc_step env)\<^sup>*\<^sup>* w w' \<Longrightarrow> conc_reachable env config sink w \<Longrightarrow> conc_reachable env config sink w'"
  by (induction rule: rtranclp_induct) (auto intro: conc_reachable.step)

definition demo_conc :: "(Event list, u64 list, nat, u64) conc" where
  "demo_conc = solo demo_engine Resting 0 [] [] []"

lemma demo_conc_reachable: "conc_reachable demo_env Config_default [] demo_conc"
proof -
  have "demo_conc = conc_init Config_default [] (\<lambda>_ _. 0) 1 0"
    by (simp add: demo_conc_def conc_init_def solo_def demo_engine_def)
  then show ?thesis using conc_reachable.init by metis
qed

lemma demo_conc_run:
  obtains ev and w :: "(Event list, u64 list, nat, u64) conc" where "conc_reachable demo_env Config_default [] w" "c_log w = [ev]" "c_threads w = [Ended (Returns (Ok 7))]"
    "c_requests w = [OpContext_metadata Lookup 1]" "ev_errno ev = None" "c_lost w = []"
proof -
  obtain r eng' x where run: "run_op demo_env demo_engine (OpContext_metadata Lookup 1) demo_body 0 demo_times
      = (Finished r, eng', x)"
    by (rule demo_finishes)
  note fin = run_op_finished [OF demo_engine_of run]
  have r: "r = Ok 7"
    using fin by (simp add: demo_admits demo_no_fault demo_body_def)
  obtain ev where path: "(conc_step demo_env)\<^sup>*\<^sup>* demo_conc
      (solo eng' (Ended (Returns r)) x [OpContext_metadata Lookup 1] [ev] [])"
    using run_op_path [OF demo_engine_of run, of "[]" "[]" "[]"] by (auto simp: demo_conc_def)
  let ?w = "solo eng' (Ended (Returns r)) x [OpContext_metadata Lookup 1] [ev] [] :: (Event list, u64 list, nat, u64) conc"
  have reach: "conc_reachable demo_env Config_default [] ?w"
    by (rule conc_reachable_path [OF path demo_conc_reachable])
  have "eng_sink eng' = [ev]"
    using conc_reachable_log_inv [OF reach] by (simp add: log_inv_def demo_env_def)
  moreover have "eng_sink demo_engine = []" by (simp add: demo_engine_def SimEngine_new_def)
  ultimately have "ev_errno ev = None"
    using fin r by (auto simp: logged_once_def demo_env_def)
  then show thesis using that [OF reach] by (simp add: r)
qed

theorem caps_hold_under_concurrency_witness:
  "\<exists>w :: (Event list, u64 list, nat, u64) conc. c_threads w = [Ended (Returns (Ok 7))]
    \<and> occupancy (c_engine w) Lookup = Some (0, 0)"
proof (rule demo_conc_run)
  fix ev and w :: "(Event list, u64 list, nat, u64) conc"
  assume w: "conc_reachable demo_env Config_default [] w" "c_threads w = [Ended (Returns (Ok 7))]"
  then have idle: "\<forall>t\<in>set (c_threads w). \<not> in_flight t" by simp
  show ?thesis
    using caps_hold_under_concurrency [OF w(1), of Lookup] w(2) idle by blast
qed

lemma of_nat_u64_inj: "(of_nat k1 :: u64) = of_nat k2 \<Longrightarrow> k1 < 2 ^ 64 \<Longrightarrow> k2 < 2 ^ 64 \<Longrightarrow> k1 = k2"
  by (drule arg_cong [of _ _ unat]) (simp add: unsigned_of_nat take_bit_nat_eq_self)

lemma requested_unique:
  assumes "requested reqs c1 seq" "requested reqs c2 seq" "length reqs \<le> 2 ^ 64"
  shows "c1 = c2"
proof -
  obtain k1 k2 where k: "k1 < length reqs" "k2 < length reqs" "seq = of_nat k1" "seq = of_nat k2"
    "reqs ! k1 = c1" "reqs ! k2 = c2"
    using assms(1,2) by (auto simp: requested_def)
  then have "k1 = k2" using assms(3) of_nat_u64_inj [of k1 k2] by simp
  then show ?thesis using k(5,6) by simp
qed

lemma distinct_seqs: "n \<le> 2 ^ 64 \<Longrightarrow> distinct (map of_nat [0..<n] :: u64 list)"
  by (auto simp: distinct_map inj_on_def dest!: of_nat_u64_inj)

text \<open>C4. Every sequence number is used once: in every interleaving the numbers in the event log, the
  numbers of the operations that have yet to log, and those of the operations that panicked
  are together the numbers from zero to the number of requests, each exactly once up to the
  wrap-around at \<open>2 ^ 64\<close>; so no two events share a number, no finished operation is missing
  from the log, and the sink has received exactly the logged events, in their order.\<close>

theorem sequence_numbers_accounted:
  assumes "conc_reachable env config sink w"
  shows "mset (map ev_seq (c_log w)) + mset (open_seqs w) + mset (c_lost w)
      = mset (map of_nat [0..<length (c_requests w)])
    \<and> eng_sink (c_engine w) = foldl (env_emit env) sink (c_log w)
    \<and> (length (c_requests w) \<le> 2 ^ 64 \<longrightarrow> distinct (map ev_seq (c_log w)))"
proof -
  have inv: "mset (map ev_seq (c_log w)) + mset (open_seqs w) + mset (c_lost w)
      = mset (map of_nat [0..<length (c_requests w)])"
    "eng_sink (c_engine w) = foldl (env_emit env) sink (c_log w)"
    using conc_reachable_log_inv [OF assms] unfolding log_inv_def by blast+
  have "mset (map ev_seq (c_log w) @ open_seqs w @ c_lost w) = mset (map of_nat [0..<length (c_requests w)])"
    using inv(1) by (simp add: ac_simps)
  then have "distinct (map ev_seq (c_log w) @ open_seqs w @ c_lost w)" if "length (c_requests w) \<le> 2 ^ 64"
    using distinct_seqs [OF that] mset_eq_imp_distinct_iff by blast
  then show ?thesis using inv by simp
qed

theorem sequence_numbers_accounted_witness:
  "\<exists>w :: (Event list, u64 list, nat, u64) conc. c_threads w = [Ended (Returns (Ok 7))]
    \<and> map ev_seq (c_log w) = [0]"
proof (rule demo_conc_run)
  fix ev and w :: "(Event list, u64 list, nat, u64) conc"
  assume w: "conc_reachable demo_env Config_default [] w" "c_log w = [ev]" "c_threads w = [Ended (Returns (Ok 7))]"
    "c_requests w = [OpContext_metadata Lookup 1]" "c_lost w = []"
  show ?thesis
    using sequence_numbers_accounted [OF w(1)] w(2-5) by (intro exI [of _ w]) (simp add: open_seqs_def)
qed



text \<open>C21. The sequential lifecycle is a run of the concurrent one: whenever \<open>run_op\<close> returns, a single
  thread with nobody to interfere gets there by steps of the concurrent engine, with the same
  result, the same final engine and the same effect on the world, logging exactly one event.\<close>

theorem run_op_is_a_concurrent_run:
  assumes "engine_of config eng" "run_op env eng ctx body x t = (Finished r, eng', y)"
  shows "\<exists>ev. (conc_step env)\<^sup>*\<^sup>*
      \<lparr>c_engine = eng, c_threads = [Resting], c_world = x, c_requests = reqs, c_log = evs, c_lost = lost\<rparr>
      \<lparr>c_engine = eng', c_threads = [Ended (Returns r)], c_world = y, c_requests = reqs @ [ctx],
       c_log = evs @ [ev], c_lost = lost\<rparr>"
  using run_op_path [OF assms, of reqs evs lost] by (simp add: solo_def)

theorem run_op_is_a_concurrent_run_witness:
  "\<exists>w. (conc_step demo_env)\<^sup>*\<^sup>* demo_conc w \<and> c_threads w = [Ended (Returns (Ok 7))]"
proof (rule demo_finishes)
  fix r eng' y
  assume run: "run_op demo_env demo_engine (OpContext_metadata Lookup 1) demo_body 0 demo_times
      = (Finished r, eng', y)"
  have "r = Ok 7"
    using run_op_finished [OF demo_engine_of run] by (simp add: demo_admits demo_no_fault demo_body_def)
  then show ?thesis
    using run_op_is_a_concurrent_run [OF demo_engine_of run, of "[]" "[]" "[]"]
    by (auto simp: demo_conc_def solo_def intro: exI)
qed

end
