(* ===== verification/Progress.thy ===== *)
theory Progress
  imports Concurrent
begin

text \<open>
  Two consequences of the interleaved engine of theory \<open>Concurrent\<close>: the histograms of the
  recorder (\<open>fusecraft-core/src/metrics\<close>) always are a recording of the logged events, less
  those whose thread stands between \<open>emit_event\<close> and \<open>record\<close>; and the engine never gets
  stuck (\<open>SimEngine::run_op\<close> in \<open>fusecraft-core/src/engine/mod.rs\<close>): a rank of the threads,
  which only a new request raises, falls with a step that is always enabled while an operation
  is in progress, so every operation can be brought to its end without a new request and
  without a spurious wake-up.
\<close>

section \<open>The recorder and the log\<close>

definition sample_of :: "Event \<Rightarrow> sample" where
  "sample_of e = (ev_op e, ev_total_duration_us e, ev_outcome e = Outcome_Error)"

text \<open>The sample of a call whose event is out and whose histogram sample is not yet recorded.\<close>

fun pending_sample :: "('w, 'a) thread \<Rightarrow> sample list" where
  "pending_sample (Busy j (Emitted _ us err _)) = [(job_op j, us, err)]"
| "pending_sample _ = []"

definition pending_samples :: "('s, 'h, 'w, 'a) conc \<Rightarrow> sample list" where
  "pending_samples w = concat (map pending_sample (c_threads w))"

definition metrics_inv :: "('r, 's, 'h) engine_env \<Rightarrow> ('s, 'h, 'w, 'a) conc \<Rightarrow> bool" where
  "metrics_inv env w \<longleftrightarrow> (\<exists>recorded.
     record_all (env_hdr env) HistogramRecorder_new recorded = Returns (eng_metrics (c_engine w))
     \<and> mset recorded + mset (pending_samples w) = mset (map sample_of (c_log w)))"

lemma record_all_snoc:
  "record_all h m samples = Returns m' \<Longrightarrow> record_all h m (samples @ [(f, us, err)]) = record_op h m' f us err"
proof (induction h m samples rule: record_all.induct)
  case (1 h m)
  then show ?case by (simp split: may_panic.split)
qed (simp split: may_panic.splits)

text \<open>A step that moves one thread, emits events and records samples.\<close>

lemma metrics_inv_move:
  assumes "metrics_inv env w" "i < length (c_threads w)" "c_threads w' = (c_threads w)[i := t]"
    and "c_log w' = c_log w @ evs"
    and "\<And>recorded. record_all (env_hdr env) HistogramRecorder_new recorded = Returns (eng_metrics (c_engine w))
      \<Longrightarrow> record_all (env_hdr env) HistogramRecorder_new (recorded @ now) = Returns (eng_metrics (c_engine w'))"
    and "mset (pending_sample t) + mset now = mset (pending_sample (c_threads w ! i)) + mset (map sample_of evs)"
  shows "metrics_inv env w'"
proof -
  obtain recorded where inv:
    "record_all (env_hdr env) HistogramRecorder_new recorded = Returns (eng_metrics (c_engine w))"
    "mset recorded + mset (pending_samples w) = mset (map sample_of (c_log w))"
    using assms(1) unfolding metrics_inv_def by blast
  have "mset (pending_samples w') + mset (pending_sample (c_threads w ! i))
      = mset (pending_samples w) + mset (pending_sample t)"
    unfolding pending_samples_def assms(3) by (rule concat_update [OF assms(2)])
  then have "mset (pending_samples w') + mset now + mset (pending_sample (c_threads w ! i))
      = mset (pending_samples w) + (mset (pending_sample t) + mset now)"
    by (simp add: ac_simps)
  then have p: "mset (pending_samples w') + mset now = mset (pending_samples w) + mset (map sample_of evs)"
    unfolding assms(6) by (simp add: ac_simps)
  have "mset (recorded @ now) + mset (pending_samples w')
      = mset recorded + (mset (pending_samples w') + mset now)"
    by (simp add: ac_simps)
  also have "\<dots> = mset (map sample_of (c_log w'))"
    unfolding p assms(4) using inv(2) by (simp add: ac_simps flip: add.assoc)
  finally show ?thesis
    unfolding metrics_inv_def using assms(5) [OF inv(1)] by blast
qed

lemma metrics_inv_quiet:
  assumes "metrics_inv env w" "i < length (c_threads w)" "c_threads w' = (c_threads w)[i := t]"
    and "c_log w' = c_log w" "eng_metrics (c_engine w') = eng_metrics (c_engine w)"
    and "pending_sample t = pending_sample (c_threads w ! i)"
  shows "metrics_inv env w'"
  by (rule metrics_inv_move [where t = t and evs = "[]" and now = "[]", OF assms(1-3)]) (simp_all add: assms(4-6))

lemma eng_metrics_sel [simp]:
  "eng_metrics (set_limiter f res st eng) = eng_metrics eng"
  "eng_metrics (set_resources f res eng) = eng_metrics eng"
  "eng_metrics (drop_guard f eng) = eng_metrics eng"
  by (simp_all add: set_limiter_def set_resources_def drop_guard_def split: option.split)

lemma pending_sample_simps [simp]:
  "pending_sample (Busy j (after_acquire now e)) = []"
  "pending_sample (after_record j guard out) = []"
  "pending_sample (Busy j (case r of Some q \<Rightarrow> Granted q | None \<Rightarrow> Queueing s b)) = []"
  by (simp_all add: after_acquire_def after_record_def split: entry.split option.split)

lemma metrics_inv_leave:
  assumes "metrics_inv env w" "i < length (c_threads w)" "c_threads w ! i = Busy j (Leaving q out)"
  shows "metrics_inv env (move i (Ended out) (in_engine (drop_guard f) w))"
  by (rule metrics_inv_quiet [where t = "Ended out", OF assms(1,2)]) (simp_all add: assms(3))

lemma metrics_inv_step:
  assumes "conc_step env w w'" "histogram_constructs (env_hdr env)" "metrics_inv env w"
  shows "metrics_inv env w'"
  using assms(1)
proof (cases rule: conc_step.cases)
  case (emit i j q lat delay result us now wall)
  show ?thesis
    by (rule metrics_inv_move [where i = i and now = "[]"
          and t = "Busy j (Emitted (Some q) us (fst (result_outcome result) = Outcome_Error) result)"
          and evs = "[event_of j (fst (result_outcome result)) (snd (result_outcome result))
            (as_micros_u64 q) lat (as_micros_u64 delay) us wall]", OF assms(3)])
      (simp_all add: emit(1-3) log_event_def sample_of_def event_of_def)
next
  case (emit_rejection i j us now wall)
  show ?thesis
    by (rule metrics_inv_move [where i = i and now = "[]"
          and t = "Busy j (Emitted None us True (Err (Errno EAGAIN)))"
          and evs = "[event_of j Outcome_Error (Some EAGAIN) 0 0 0 us wall]", OF assms(3)])
      (simp_all add: emit_rejection(1-3) log_event_def sample_of_def event_of_def)
next
  case (sample_recorded i j guard us err result m)
  show ?thesis
    by (rule metrics_inv_move [where i = i and now = "[(job_op j, us, err)]"
          and t = "after_record j guard (Returns result)" and evs = "[]", OF assms(3)])
      (simp_all add: sample_recorded record_all_snoc)
next
  case (record_panics i j guard us err result)
  then show ?thesis using record_op_total [OF assms(2)] by metis
next
  case (leave_notifies i j q out k j' s)
  let ?w1 = "move i (Ended out) (in_engine (drop_guard (job_op j)) w)"
  have "i \<noteq> k" using leave_notifies(3,5) by auto
  then have k: "k < length (c_threads ?w1)" "c_threads ?w1 ! k = Busy j' (Queueing s False)"
    using leave_notifies(4,5) by simp_all
  show ?thesis
    unfolding leave_notifies(1)
    by (rule metrics_inv_quiet [where t = "Busy j' (Queueing s True)",
          OF metrics_inv_leave [OF assms(3) leave_notifies(2,3)] k(1)]) (use k(2) in simp_all)
next
  case (leave_unnoticed i j q out)
  show ?thesis unfolding leave_unnoticed(1) by (rule metrics_inv_leave [OF assms(3) leave_unnoticed(2,3)])
next
  case (begin_op i seq eng1 ctx body start)
  show ?thesis
    by (rule metrics_inv_quiet [where i = i
          and t = "Busy \<lparr>job_ctx = ctx, job_body = body, job_seq = seq, job_start = start\<rparr> Started", OF assms(3)])
      (use begin_op in \<open>auto simp: next_seq_def\<close>)
qed (auto intro: metrics_inv_quiet [OF assms(3)])

lemma metrics_inv_init: "metrics_inv env (conc_init config sink now n x)"
  unfolding metrics_inv_def
  by (rule exI [of _ "[]"]) (simp add: conc_init_def SimEngine_new_def pending_samples_def)

lemma conc_reachable_metrics_inv:
  "conc_reachable env config sink w \<Longrightarrow> histogram_constructs (env_hdr env) \<Longrightarrow> metrics_inv env w"
  by (induction rule: conc_reachable.induct) (auto intro: metrics_inv_init metrics_inv_step)

lemma idle_open_seqs:
  assumes "\<forall>t\<in>set (c_threads w). \<not> in_flight t"
  shows "open_seqs w = []"
proof -
  have "open_seq t = []" if "t \<in> set (c_threads w)" for t using assms that by (cases t) auto
  then show ?thesis by (simp add: open_seqs_def)
qed

lemma idle_pending_samples:
  assumes "\<forall>t\<in>set (c_threads w). \<not> in_flight t"
  shows "pending_samples w = []"
proof -
  have "pending_sample t = []" if "t \<in> set (c_threads w)" for t using assms that by (cases t) auto
  then show ?thesis by (simp add: pending_samples_def)
qed

text \<open>The events of an operation in a log, and those with an error.\<close>

definition events_of :: "FsOp \<Rightarrow> Event list \<Rightarrow> nat" where
  "events_of f evs = length (filter (\<lambda>e. ev_op e = f) evs)"

definition errors_of :: "FsOp \<Rightarrow> Event list \<Rightarrow> nat" where
  "errors_of f evs = length (filter (\<lambda>e. ev_op e = f \<and> ev_outcome e = Outcome_Error) evs)"

lemma length_filter_mset: "mset xs = mset ys \<Longrightarrow> length (filter P xs) = length (filter P ys)"
  by (metis mset_filter size_mset)

lemma sample_counts:
  assumes "mset samples = mset (map sample_of evs)"
  shows "length (samples_of f samples) = events_of f evs"
    and "length (filter (\<lambda>(_, _, err). err) (samples_of f samples)) = errors_of f evs"
    and "length (filter (\<lambda>(_, _, err). \<not> err) (samples_of f samples)) + errors_of f evs = events_of f evs"
proof -
  show n: "length (samples_of f samples) = events_of f evs"
    using length_filter_mset [OF assms, of "\<lambda>(g, _, _). g = f"]
    by (simp add: samples_of_def events_of_def filter_map o_def sample_of_def)
  show e: "length (filter (\<lambda>(_, _, err). err) (samples_of f samples)) = errors_of f evs"
    using length_filter_mset [OF assms, of "\<lambda>(g, _, err). g = f \<and> err"]
    by (simp add: samples_of_def errors_of_def filter_map o_def sample_of_def case_prod_unfold conj_commute)
  show "length (filter (\<lambda>(_, _, err). \<not> err) (samples_of f samples)) + errors_of f evs = events_of f evs"
    using sum_length_filter_compl [of "\<lambda>(_, _, err). err" "samples_of f samples"] n e
    by (simp add: case_prod_unfold)
qed

lemma unat_of_nat_u64: "n < 2 ^ 64 \<Longrightarrow> unat (of_nat n :: u64) = n"
  by (simp add: unsigned_of_nat take_bit_nat_eq_self)

lemma summary_entry:
  assumes "m f = Some e" "count_ok e + count_err e = of_nat n" "count_err e = of_nat k"
    and "n < 2 ^ 64" "k < 2 ^ 64" "n \<noteq> 0"
  shows "map_option (\<lambda>s. (sum_op s, unat (sum_count s), unat (sum_errors s))) (summary_of h m f) = Some (f, n, k)"
proof -
  note u = unat_of_nat_u64 [OF assms(4)] unat_of_nat_u64 [OF assms(5)]
  have "(of_nat n :: u64) \<noteq> 0" using u(1) assms(6) by (metis unat_0)
  then show ?thesis
    unfolding summary_of_def assms(1) Let_def option.case assms(2) unfolding assms(3)
    by (simp only: u if_False option.map OpSummary.simps)
qed

lemma summary_row:
  assumes "m f = (if samples_of f samples = [] then None
      else Some \<lparr>count_ok = of_nat (length (filter (\<lambda>(_, _, err). \<not> err) (samples_of f samples))),
        count_err = of_nat (length (filter (\<lambda>(_, _, err). err) (samples_of f samples))), histo = hist\<rparr>)"
    and "mset samples = mset (map sample_of evs)" "length evs < 2 ^ 64"
  shows "map_option (\<lambda>s. (sum_op s, unat (sum_count s), unat (sum_errors s))) (summary_of h m f)
    = (if events_of f evs = 0 then None else Some (f, events_of f evs, errors_of f evs))"
proof -
  note n = sample_counts [OF assms(2), of f]
  have "events_of f evs < 2 ^ 64"
    unfolding events_of_def by (rule le_less_trans [OF length_filter_le assms(3)])
  then have small: "events_of f evs < 2 ^ 64" "errors_of f evs < 2 ^ 64" using n(3) by simp_all
  show ?thesis
  proof (cases "events_of f evs = 0")
    case True
    then have "samples_of f samples = []" using n(1) by simp
    then show ?thesis using True by (simp add: summary_of_def assms(1))
  next
    case False
    let ?oks = "length (filter (\<lambda>(_, _, err). \<not> err) (samples_of f samples))"
    have "samples_of f samples \<noteq> []" using n(1) False by auto
    then have "m f = Some \<lparr>count_ok = of_nat ?oks, count_err = of_nat (errors_of f evs), histo = hist\<rparr>"
      unfolding assms(1) n(2) by simp
    from summary_entry [where m = m and f = f, OF this _ _ small False] show ?thesis
      using False n(3) by (simp flip: of_nat_add)
  qed
qed

lemma map_filter_map:
  "(\<And>x. map_option g (p x) = (if c x then None else Some (q x))) \<Longrightarrow>
     map g (List.map_filter p xs) = map q (filter (\<lambda>x. \<not> c x) xs)"
proof (induction xs)
  case (Cons x xs)
  then show ?case using Cons.prems [of x] by (cases "p x") (auto split: if_splits)
qed simp

lemma summary_of_log:
  assumes "conc_reachable env config sink w" "histogram_constructs (env_hdr env)"
    and "pending_samples w = []" "length (c_log w) < 2 ^ 64"
  shows "map (\<lambda>s. (sum_op s, unat (sum_count s), unat (sum_errors s)))
      (summary (env_hdr env) (eng_metrics (c_engine w)))
    = map (\<lambda>f. (f, events_of f (c_log w), errors_of f (c_log w)))
        (filter (\<lambda>f. events_of f (c_log w) \<noteq> 0) FsOp_ALL)"
proof -
  obtain hist0 where h: "hdr_new (env_hdr env) HIST_LOW HIST_HIGH HIST_SIGFIG = Some hist0"
    using assms(2) by (auto simp: histogram_constructs_def)
  obtain samples where s:
    "record_all (env_hdr env) HistogramRecorder_new samples = Returns (eng_metrics (c_engine w))"
    "mset samples = mset (map sample_of (c_log w))"
    using conc_reachable_metrics_inv [OF assms(1,2)] assms(3) unfolding metrics_inv_def by auto
  show ?thesis
    unfolding summary_def
    by (rule map_filter_map, rule summary_row [OF recorded_entry [OF h s(1)] s(2) assms(4)])
qed

section \<open>Rank\<close>

text \<open>
  How far a call is from its end. Waiting counts the same whether the thread sleeps or was
  woken, so neither a spurious wake-up nor a wake-up that finds no free slot changes the rank.
\<close>

fun phase_rank :: "'a phase \<Rightarrow> nat" where
  "phase_rank Started = 7"
| "phase_rank (Queueing _ _) = 6"
| "phase_rank (Granted _) = 5"
| "phase_rank (Delayed _ _ _ _) = 4"
| "phase_rank (Answered _ _ _ _) = 3"
| "phase_rank Turned_away = 3"
| "phase_rank (Emitted _ _ _ _) = 2"
| "phase_rank (Leaving _ _) = 1"

fun thread_rank :: "('w, 'a) thread \<Rightarrow> nat" where
  "thread_rank (Busy j p) = phase_rank p"
| "thread_rank _ = 0"

definition total_rank :: "('s, 'h, 'w, 'a) conc \<Rightarrow> nat" where
  "total_rank w = sum_list (map thread_rank (c_threads w))"

definition serving_step ::
    "('r, 's, 'h) engine_env \<Rightarrow> ('s, 'h, 'w, 'a) conc \<Rightarrow> ('s, 'h, 'w, 'a) conc \<Rightarrow> bool" where
  "serving_step env w w' \<longleftrightarrow> conc_step env w w' \<and> c_requests w' = c_requests w \<and> total_rank w' < total_rank w"

lemma sum_list_update_nat:
  fixes g :: "'a \<Rightarrow> nat"
  assumes "i < length ts"
  shows "sum_list (map g (ts[i := t])) + g (ts ! i) = sum_list (map g ts) + g t"
  using assms
proof (induction ts arbitrary: i)
  case (Cons a ts)
  then show ?case by (cases i) auto
qed simp

lemma total_rank_move:
  assumes "i < length (c_threads w)" "c_threads w' = (c_threads w)[i := t]"
  shows "total_rank w' + thread_rank (c_threads w ! i) = total_rank w + thread_rank t"
  unfolding total_rank_def assms(2) by (rule sum_list_update_nat [OF assms(1)])

lemma thread_rank_simps [simp]:
  "phase_rank (after_acquire now e) < 7"
  "thread_rank (after_record j guard out) < 2"
  "phase_rank (case r of Some q \<Rightarrow> Granted q | None \<Rightarrow> Queueing s b) \<le> 6"
  by (simp_all add: after_acquire_def after_record_def split: entry.split option.split)

text \<open>The thread that leaves and the one it notifies.\<close>

lemma total_rank_leave:
  assumes "i < length (c_threads w)" "c_threads w ! i = Busy j (Leaving q out)"
    "k < length (c_threads w)" "c_threads w ! k = Busy j' (Queueing s b)"
    and "c_threads w' = (c_threads w)[i := Ended out, k := Busy j' (Queueing s b')]"
  shows "Suc (total_rank w') = total_rank w"
proof -
  have "i \<noteq> k" using assms(2,4) by auto
  then have "total_rank w' + 6 = total_rank (w\<lparr>c_threads := (c_threads w)[i := Ended out]\<rparr>) + 6"
    using total_rank_move [of k "w\<lparr>c_threads := (c_threads w)[i := Ended out]\<rparr>" w' "Busy j' (Queueing s b')"]
      assms(3-5)
    by simp
  moreover have "total_rank (w\<lparr>c_threads := (c_threads w)[i := Ended out]\<rparr>) + 1 = total_rank w"
    using total_rank_move [OF assms(1), of "w\<lparr>c_threads := (c_threads w)[i := Ended out]\<rparr>" "Ended out"] assms(2)
    by simp
  ultimately show ?thesis by simp
qed

lemma total_rank_le:
  assumes "i < length (c_threads w)" "c_threads w' = (c_threads w)[i := t]"
    "thread_rank t \<le> thread_rank (c_threads w ! i)"
  shows "total_rank w' \<le> total_rank w"
  using total_rank_move [OF assms(1,2)] assms(3) by simp

lemma conc_step_rank:
  assumes "conc_step env w w'"
  shows "total_rank w' \<le> total_rank w
    \<or> total_rank w' = total_rank w + 7 \<and> (\<exists>ctx. c_requests w' = c_requests w @ [ctx])"
  using assms
proof (cases rule: conc_step.cases)
  case (begin_op i seq eng1 ctx body start)
  have "total_rank w' = total_rank w + 7"
    using total_rank_move [of i w w'] begin_op by simp
  then show ?thesis by (simp add: begin_op(1))
next
  case (leave_notifies i j q out k j' s)
  then have "Suc (total_rank w') = total_rank w"
    by (intro total_rank_leave [OF leave_notifies(2-5)]) simp
  then show ?thesis by simp
next
  case (acquire i j res e st now)
  have "total_rank w' \<le> total_rank w"
    by (rule total_rank_le [OF acquire(2), of _ "Busy j (after_acquire now e)"])
      (simp_all add: acquire(1,3) less_imp_le)
  then show ?thesis by simp
next
  case (resume i j s res now r st)
  have "total_rank w' \<le> total_rank w"
    by (rule total_rank_le [OF resume(2), of _ "Busy j (case r of Some q \<Rightarrow> Granted q | None \<Rightarrow> Queueing s False)"])
      (simp_all add: resume(1,3))
  then show ?thesis by simp
next
  case (sample_recorded i j guard us err result m)
  have "total_rank w' \<le> total_rank w"
    by (rule total_rank_le [OF sample_recorded(2), of _ "after_record j guard (Returns result)"])
      (simp_all add: sample_recorded(1,3) less_imp_le)
  then show ?thesis by simp
next
  case (record_panics i j guard us err result)
  have "total_rank w' \<le> total_rank w"
    by (rule total_rank_le [OF record_panics(2), of _ "after_record j guard Panics"])
      (simp_all add: record_panics(1,3) less_imp_le)
  then show ?thesis by simp
qed (auto intro!: disjI1 intro: total_rank_le)

section \<open>Progress\<close>

lemma serving_stepI:
  assumes "conc_step env w w'" "c_requests w' = c_requests w"
    and "i < length (c_threads w)" "c_threads w' = (c_threads w)[i := t]"
    and "thread_rank t < thread_rank (c_threads w ! i)"
  shows "\<exists>w'. serving_step env w w'"
  using assms total_rank_move [OF assms(3,4)] unfolding serving_step_def by auto

text \<open>A call that does not wait for the limiter always has a step.\<close>

lemma phase_progress:
  assumes "i < length (c_threads w)" "c_threads w ! i = Busy j p" "engine_of config (c_engine w)"
    and "\<nexists>s b. p = Queueing s b"
  shows "\<exists>w'. serving_step env w w'"
proof -
  obtain res where res: "eng_resources (c_engine w) (job_op j) = Some res"
    by (rule engine_ofE [OF assms(3)])
  note at = assms(1,2)
  show ?thesis
  proof (cases p)
    case Started
    obtain e st where "acquire_enter (res_limiter res) (res_limiter_state res) = (e, st)"
      by (metis prod.exhaust)
    from conc_step.acquire [OF at(1) _ res this, where now = 0] show ?thesis
      by (rule serving_stepI [OF _ _ at(1)]) (use at in \<open>simp add: Started\<close>)+
  next
    case Turned_away
    from conc_step.emit_rejection [OF at(1) _ refl] show ?thesis
      by (rule serving_stepI [OF _ _ at(1)]) (use at in \<open>simp add: Turned_away log_event_def\<close>)+
  next
    case (Granted q)
    obtain fault lat delay res1 where
      "op_sample env (c_engine w) res (job_ctx j) (job_seq j) 0 = ((fault, lat, delay), res1)"
      by (metis prod.exhaust)
    from conc_step.decide [OF at(1) _ res this] show ?thesis
      by (rule serving_stepI [OF _ _ at(1)]) (use at in \<open>simp add: Granted\<close>)+
  next
    case (Delayed q fault lat delay)
    show ?thesis
    proof (cases "duration_add (from_micros lat) delay")
      case Panics
      from conc_step.sleep_overflows [OF at(1) _ this] show ?thesis
        by (rule serving_stepI [OF _ _ at(1)]) (use at in \<open>simp add: Delayed lose_def\<close>)+
    next
      case (Returns sleep_for)
      show ?thesis
      proof (cases fault)
        case (Some errno)
        from conc_step.inject [OF at(1) _ Returns] show ?thesis
          by (rule serving_stepI [OF _ _ at(1)]) (use at in \<open>simp add: Delayed Some\<close>)+
      next
        case None
        obtain out x where body: "job_body j (c_world w) = (out, x)" by (metis prod.exhaust)
        show ?thesis
        proof (cases out)
          case Panics
          from conc_step.body_panics [OF at(1) _ Returns body [unfolded Panics]] show ?thesis
            by (rule serving_stepI [OF _ _ at(1)]) (use at in \<open>simp add: Delayed None lose_def\<close>)+
        next
          case (Returns result)
          from conc_step.answer [OF at(1) _ \<open>duration_add _ _ = _\<close> body [unfolded Returns]] show ?thesis
            by (rule serving_stepI [OF _ _ at(1)]) (use at in \<open>simp add: Delayed None\<close>)+
        qed
      qed
    qed
  next
    case (Answered q lat delay result)
    from conc_step.emit [OF at(1) _ refl] show ?thesis
      by (rule serving_stepI [OF _ _ at(1)]) (use at in \<open>simp add: Answered log_event_def\<close>)+
  next
    case (Emitted guard us err result)
    show ?thesis
    proof (cases "record_op (env_hdr env) (eng_metrics (c_engine w)) (job_op j) us err")
      case Panics
      from conc_step.record_panics [OF at(1) _ this] show ?thesis
        by (rule serving_stepI [OF _ _ at(1)]) (use at in \<open>simp add: Emitted\<close>)+
    next
      case (Returns m)
      from conc_step.sample_recorded [OF at(1) _ this] show ?thesis
        by (rule serving_stepI [OF _ _ at(1)]) (use at in \<open>simp add: Emitted\<close>)+
    qed
  next
    case (Leaving q out)
    show ?thesis
    proof (cases "\<forall>t\<in>set (c_threads w). \<not> asleep_for (job_op j) t")
      case True
      from conc_step.leave_unnoticed [OF at(1) _ True] show ?thesis
        by (rule serving_stepI [OF _ _ at(1)]) (use at in \<open>simp add: Leaving\<close>)+
    next
      case False
      then obtain k j' s where k: "k < length (c_threads w)" "c_threads w ! k = Busy j' (Queueing s False)"
        "job_op j' = job_op j"
        by (auto simp: asleep_for_def in_set_conv_nth)
      note at' = at(2) [unfolded Leaving]
      show ?thesis
        using conc_step.leave_notifies [OF at(1) at' k] total_rank_leave [OF at(1) at' k(1,2)]
        unfolding serving_step_def by (metis Suc_le_eq in_engine_sel(4) lessI move_sel(2,4) in_engine_sel(2))
    qed
  qed (use assms(4) in auto)
qed

lemma woken_view: "is_woken (limiter_view f t) \<longleftrightarrow> (\<exists>j s. t = Busy j (Queueing s True) \<and> job_op j = f)"
  by (cases t) (auto split: phase.splits option.splits if_splits)

text \<open>
  When every operation in progress waits for a limiter, one of those waiting for the same
  limiter was woken and finds a free slot.
\<close>

lemma queue_progress:
  assumes "conc_reachable env config sink w"
    and "i < length (c_threads w)" "c_threads w ! i = Busy j (Queueing s b)"
    and "\<forall>t\<in>set (c_threads w). in_flight t \<longrightarrow> (\<exists>j s b. t = Busy j (Queueing s b))"
  shows "\<exists>w'. serving_step env w w'"
proof -
  define f where "f = job_op j"
  let ?l = "limiter_of config f" and ?p = "limiter_proj f w"
  have inv: "lim_inv ?l ?p"
    by (rule lim_reachable_inv [OF conc_reachable_limiter [OF assms(1)]])
  have "\<not> is_holding (limiter_view f t)" if "t \<in> set (c_threads w)" for t
    using assms(4) [rule_format, OF that] by (cases t) (auto split: if_splits)
  then have idle: "holders ?p = 0" by (simp add: proj_counts inside_def count_if_eq_0)
  have at: "c_threads w ! i \<in> set (c_threads w)" using assms(2) by simp
  moreover have "in_queue (limiter_view f (c_threads w ! i))" by (simp add: assms(3) f_def)
  ultimately have queued: "0 < queuers ?p" by (auto simp: proj_counts waiting_def count_if_pos)
  then have cap: "cap ?l \<noteq> 0" using inv by (auto simp: lim_inv_def)
  have "0 < wakers ?p"
  proof (cases b)
    case True
    then have "is_woken (limiter_view f (c_threads w ! i))" by (simp add: assms(3) f_def)
    with at show ?thesis by (auto simp: wakers_def count_if_pos)
  next
    case False
    then have "is_sleeping (limiter_view f (c_threads w ! i))" by (simp add: assms(3) f_def)
    with at have "0 < sleepers ?p" by (auto simp: sleepers_def count_if_pos)
    moreover have "0 < unat (cap ?l)" using cap by (simp add: unat_gt_0)
    ultimately show ?thesis using inv idle by (auto simp: lim_inv_def)
  qed
  then obtain t where "t \<in> set (c_threads w)" "is_woken (limiter_view f t)"
    by (auto simp: wakers_def count_if_pos)
  then obtain k j' s' where k: "k < length (c_threads w)" "c_threads w ! k = Busy j' (Queueing s' True)" "job_op j' = f"
    unfolding woken_view in_set_conv_nth by blast
  obtain res where res: "eng_resources (c_engine w) (job_op j') = Some res"
    by (rule engine_ofE [OF conc_reachable_engine_of [OF assms(1)]])
  have lim: "res_limiter res = ?l" "res_limiter_state res = lim_state ?p"
    using resources_limiter [OF conc_reachable_engine_of [OF assms(1)] res] k(3) by simp_all
  obtain r st where wake: "acquire_wake (res_limiter res) (res_limiter_state res) s' 0 = (r, st)"
    by (metis prod.exhaust)
  have free: "inflight (lim_state ?p) < cap ?l" "0 < unat (queued (lim_state ?p))"
    using inv idle cap queued by (simp_all add: lim_inv_def word_less_nat_alt unat_gt_0)
  obtain q where r: "r = Some q"
    using acquire_wake_cases [OF wake [unfolded lim] free(2)] free(1) by auto
  from conc_step.resume [OF k(1,2) res wake] show ?thesis
    by (rule serving_stepI [OF _ _ k(1)]) (simp add: k(2) r)+
qed

definition quiet :: "('s, 'h, 'w, 'a) conc \<Rightarrow> bool" where
  "quiet w \<longleftrightarrow> (\<forall>t\<in>set (c_threads w). \<not> in_flight t)"

lemma thread_rank_zero: "thread_rank t = 0 \<longleftrightarrow> \<not> in_flight t"
proof (cases t)
  case (Busy j p)
  then show ?thesis by (cases p) simp_all
qed simp_all

lemma total_rank_zero: "total_rank w = 0 \<longleftrightarrow> quiet w"
  by (simp add: total_rank_def quiet_def thread_rank_zero)

lemma thread_rank_bound: "thread_rank t \<le> 7"
proof (cases t)
  case (Busy j p)
  then show ?thesis by (cases p) simp_all
qed simp_all

lemma total_rank_bound: "total_rank w \<le> 7 * length (c_threads w)"
  unfolding total_rank_def using sum_list_mono [of "c_threads w" thread_rank "\<lambda>_. 7", OF thread_rank_bound]
  by (simp add: sum_list_triv mult.commute)

lemma engine_progress:
  assumes "conc_reachable env config sink w" "\<not> quiet w"
  shows "\<exists>w'. serving_step env w w'"
proof (cases "\<forall>t\<in>set (c_threads w). in_flight t \<longrightarrow> (\<exists>j s b. t = Busy j (Queueing s b))")
  case True
  obtain i where "i < length (c_threads w)" "in_flight (c_threads w ! i)"
    using assms(2) by (auto simp: quiet_def in_set_conv_nth)
  moreover from this obtain j s b where "c_threads w ! i = Busy j (Queueing s b)"
    using True nth_mem by blast
  ultimately show ?thesis by (intro queue_progress [OF assms(1) _ _ True])
next
  case False
  then obtain i where i: "i < length (c_threads w)" "in_flight (c_threads w ! i)"
    "\<nexists>j s b. c_threads w ! i = Busy j (Queueing s b)"
    by (auto simp: in_set_conv_nth)
  then obtain j p where "c_threads w ! i = Busy j p" by (cases "c_threads w ! i") auto
  with i(3) show ?thesis
    by (intro phase_progress [OF i(1) _ conc_reachable_engine_of [OF assms(1)]]) auto
qed

lemma engine_drain:
  assumes "conc_reachable env config sink w"
  shows "\<exists>n\<le>total_rank w. \<exists>w'. (serving_step env ^^ n) w w' \<and> conc_reachable env config sink w'
    \<and> c_requests w' = c_requests w \<and> quiet w'"
  using assms
proof (induction "total_rank w" arbitrary: w rule: less_induct)
  case less
  show ?case
  proof (cases "quiet w")
    case True
    then show ?thesis using less.prems by (intro exI [of _ 0]) auto
  next
    case False
    then obtain v where v: "serving_step env w v" using engine_progress [OF less.prems] by blast
    then have step: "conc_step env w v" "c_requests v = c_requests w" "total_rank v < total_rank w"
      by (simp_all add: serving_step_def)
    obtain n w' where n: "n \<le> total_rank v" "(serving_step env ^^ n) v w'" "conc_reachable env config sink w'"
      "c_requests w' = c_requests v" "quiet w'"
      using less.hyps [OF step(3) conc_reachable.step [OF less.prems step(1)]] by blast
    have "(serving_step env ^^ Suc n) w w'" by (rule relpowp_Suc_I2 [OF v n(2)])
    moreover have "Suc n \<le> total_rank w" using n(1) step(3) by simp
    ultimately show ?thesis using n(3-5) step(2) by (intro exI [of _ "Suc n"]) auto
  qed
qed

section \<open>Properties\<close>

text \<open>C6. The engine is never stuck: in every reachable interleaving, an operation is in progress
  exactly when some thread has a step that lowers the rank without a new request; and no step
  of any thread raises the rank, unless it starts a new request. So a thread that waits for a
  limiter is not left behind when the slots become free.\<close>

theorem engine_never_stuck:
  assumes "conc_reachable env config sink w"
  shows "((\<exists>t\<in>set (c_threads w). in_flight t) \<longleftrightarrow> (\<exists>w'. serving_step env w w'))
    \<and> (\<forall>w'. conc_step env w w' \<longrightarrow> total_rank w' \<le> total_rank w
        \<or> total_rank w' = total_rank w + 7 \<and> (\<exists>ctx. c_requests w' = c_requests w @ [ctx]))"
proof -
  have "\<not> quiet w" if "serving_step env w w'" for w'
    using that total_rank_zero [of w] by (auto simp: serving_step_def)
  then have "\<not> quiet w \<longleftrightarrow> (\<exists>w'. serving_step env w w')" using engine_progress [OF assms] by blast
  then show ?thesis using conc_step_rank [of env w] unfolding quiet_def by blast
qed

lemma demo_busy:
  obtains j and w :: "(Event list, u64 list, nat, u64) conc" where "conc_reachable demo_env Config_default [] w"
    "c_threads w = [Busy j Started]" "c_requests w = [OpContext_metadata Lookup 1]"
proof -
  obtain seq eng1 where n: "next_seq (c_engine demo_conc) = (seq, eng1)" by (metis prod.exhaust)
  let ?j = "\<lparr>job_ctx = OpContext_metadata Lookup 1, job_body = demo_body, job_seq = seq, job_start = 0\<rparr>"
  have "conc_step demo_env demo_conc (move 0 (Busy ?j Started)
      (demo_conc\<lparr>c_engine := eng1, c_requests := c_requests demo_conc @ [OpContext_metadata Lookup 1]\<rparr>))"
    by (rule conc_step.begin_op [OF _ _ n]) (simp_all add: demo_conc_def)
  from conc_reachable.step [OF demo_conc_reachable this] show thesis
    by (rule that) (simp_all add: demo_conc_def)
qed

theorem engine_never_stuck_witness:
  "\<exists>w w' :: (Event list, u64 list, nat, u64) conc. c_requests w = [OpContext_metadata Lookup 1]
    \<and> serving_step demo_env w w'"
proof (rule demo_busy)
  fix j and w :: "(Event list, u64 list, nat, u64) conc"
  assume w: "conc_reachable demo_env Config_default [] w" "c_threads w = [Busy j Started]"
    "c_requests w = [OpContext_metadata Lookup 1]"
  show ?thesis using engine_never_stuck [OF w(1)] w(2,3) by auto
qed

text \<open>C7. Every operation can be brought to its end: from every reachable interleaving the engine
  gets by at most seven steps per thread, with no new request and no spurious wake-up, to one
  where no operation is in progress; there all slots and queues of all limiters are empty, and
  every request so far has its one event in the log, unless it panicked.\<close>

theorem operations_run_to_completion:
  assumes "conc_reachable env config sink w"
  shows "\<exists>n\<le>7 * length (c_threads w). \<exists>w'. (serving_step env ^^ n) w w'
    \<and> (\<forall>t\<in>set (c_threads w'). \<not> in_flight t)
    \<and> (\<forall>f. occupancy (c_engine w') f = Some (0, 0))
    \<and> mset (map ev_seq (c_log w')) + mset (c_lost w') = mset (map of_nat [0..<length (c_requests w)])"
proof -
  obtain n w' where n: "n \<le> total_rank w" "(serving_step env ^^ n) w w'" "conc_reachable env config sink w'"
    "c_requests w' = c_requests w" "quiet w'"
    using engine_drain [OF assms] by blast
  have idle: "\<forall>t\<in>set (c_threads w'). \<not> in_flight t" using n(5) by (simp add: quiet_def)
  then have "open_seqs w' = []" by (rule idle_open_seqs)
  then have "mset (map ev_seq (c_log w')) + mset (c_lost w') = mset (map of_nat [0..<length (c_requests w)])"
    using conc_reachable_log_inv [OF n(3)] n(4) unfolding log_inv_def by simp
  moreover have "occupancy (c_engine w') f = Some (0, 0)" for f
    using concurrent_occupancy [OF n(3), of f] idle_counts [OF idle] by simp
  ultimately show ?thesis
    using n(1,2) total_rank_bound [of w] idle by (meson order_trans)
qed

theorem operations_run_to_completion_witness:
  "\<exists>w w' :: (Event list, u64 list, nat, u64) conc. c_requests w = [OpContext_metadata Lookup 1]
    \<and> (serving_step demo_env)\<^sup>*\<^sup>* w w' \<and> occupancy (c_engine w') Lookup = Some (0, 0)
    \<and> mset (map ev_seq (c_log w')) + mset (c_lost w') = {#0#}"
proof (rule demo_busy)
  fix j and w :: "(Event list, u64 list, nat, u64) conc"
  assume w: "conc_reachable demo_env Config_default [] w" "c_requests w = [OpContext_metadata Lookup 1]"
  obtain n w' where "(serving_step demo_env ^^ n) w w'" "occupancy (c_engine w') Lookup = Some (0, 0)"
    "mset (map ev_seq (c_log w')) + mset (c_lost w') = mset (map of_nat [0..<length (c_requests w)])"
    using operations_run_to_completion [OF w(1)] by blast
  moreover from this(1) have "(serving_step demo_env)\<^sup>*\<^sup>* w w'" by (rule relpowp_imp_rtranclp)
  ultimately show ?thesis using w(2) by (intro exI [of _ w] exI [of _ w']) simp
qed

text \<open>C11. The metrics are a recording of the log: in every interleaving the histograms are what
  recording some list of samples gives, and these samples are those of the logged events, as a
  multiset, less the ones of the threads that have emitted their event and not yet taken their
  sample. Each operation's entry has the number of its samples without and with an error, up to
  \<open>2 ^ 64\<close>, and the histogram of their durations.\<close>

theorem metrics_record_the_log:
  assumes "conc_reachable env config sink w"
    and "hdr_new (env_hdr env) HIST_LOW HIST_HIGH HIST_SIGFIG = Some hist0"
  shows "\<exists>samples. mset samples + mset (pending_samples w) = mset (map sample_of (c_log w))
    \<and> (\<forall>f. eng_metrics (c_engine w) f = (if samples_of f samples = [] then None
        else Some \<lparr>count_ok = of_nat (length (filter (\<lambda>(_, _, err). \<not> err) (samples_of f samples))),
          count_err = of_nat (length (filter (\<lambda>(_, _, err). err) (samples_of f samples))),
          histo = foldl (hdr_record (env_hdr env)) hist0
            (map (\<lambda>(_, us, _). clamp_duration us) (samples_of f samples))\<rparr>))"
proof -
  obtain samples where s:
    "record_all (env_hdr env) HistogramRecorder_new samples = Returns (eng_metrics (c_engine w))"
    "mset samples + mset (pending_samples w) = mset (map sample_of (c_log w))"
    using conc_reachable_metrics_inv [OF assms(1)] assms(2)
    unfolding metrics_inv_def histogram_constructs_def by auto
  then show ?thesis using recorded_entry [OF assms(2) s(1)] by blast
qed

theorem metrics_record_the_log_witness:
  "\<exists>(w :: (Event list, u64 list, nat, u64) conc) ev. c_log w = [ev]
    \<and> (\<exists>e. eng_metrics (c_engine w) (ev_op ev) = Some e \<and> count_ok e + count_err e = 1)"
proof (rule demo_conc_run)
  fix ev and w :: "(Event list, u64 list, nat, u64) conc"
  assume w: "conc_reachable demo_env Config_default [] w" "c_log w = [ev]" "c_threads w = [Ended (Returns (Ok 7))]"
  obtain hist0 where h: "hdr_new (env_hdr demo_env) HIST_LOW HIST_HIGH HIST_SIGFIG = Some hist0"
    using demo_constructs by (auto simp: histogram_constructs_def)
  have none: "pending_samples w = []" by (rule idle_pending_samples) (simp add: w(3))
  obtain samples where s: "mset samples = mset [sample_of ev]"
    "eng_metrics (c_engine w) (ev_op ev) = (if samples_of (ev_op ev) samples = [] then None
        else Some \<lparr>count_ok = of_nat (length (filter (\<lambda>(_, _, err). \<not> err) (samples_of (ev_op ev) samples))),
          count_err = of_nat (length (filter (\<lambda>(_, _, err). err) (samples_of (ev_op ev) samples))),
          histo = foldl (hdr_record (env_hdr demo_env)) hist0
            (map (\<lambda>(_, us, _). clamp_duration us) (samples_of (ev_op ev) samples))\<rparr>)"
    using metrics_record_the_log [OF w(1) h] by (auto simp: none w(2))
  then have "samples = [sample_of ev]" by simp
  then show ?thesis
    using s(2) w(2) by (intro exI [of _ w] exI [of _ ev]) (simp add: samples_of_def sample_of_def)
qed

end
