(* ===== verification/Throttle.thy ===== *)
theory Throttle
  imports Concurrent
begin

text \<open>
  Bandwidth under concurrency (\<open>fusecraft-core/src/engine/mod.rs\<close>, \<open>limiter/bandwidth.rs\<close>): each token
  bucket of the concurrent engine is a sequential bucket that made one reservation after the
  other, at most one per request, and the delays in the event log are the waits it gave. With
  that, what is proved of sequences of reservations holds in every interleaving.
\<close>

section \<open>Reservations\<close>

text \<open>A reservation: for which request, how many bytes, from which tier, when, and the wait.\<close>

record grant =
  g_seq :: u64
  g_bytes :: u64
  g_tier :: tier_ref
  g_time :: instant
  g_wait :: duration

text \<open>A bucket that makes the reservations of a list; none if it would give another wait.\<close>

fun serve_grants :: "BandwidthLimiter \<Rightarrow> BucketState \<Rightarrow> grant list \<Rightarrow> BucketState option" where
  "serve_grants l st [] = Some st"
| "serve_grants l st (g # gs) =
     (let (d, st1) = reserve l st (g_bytes g) (g_time g) in
      if d = g_wait g then serve_grants l st1 gs else None)"

lemma serve_grants_snoc:
  "serve_grants l st (gs @ [g]) =
     (case serve_grants l st gs of None \<Rightarrow> None
      | Some st1 \<Rightarrow> if fst (reserve l st1 (g_bytes g) (g_time g)) = g_wait g
          then Some (snd (reserve l st1 (g_bytes g) (g_time g))) else None)"
  by (induction gs arbitrary: st) (simp_all add: case_prod_unfold Let_def)

lemma serve_grants_run:
  "serve_grants l st gs = Some st' \<Longrightarrow> st' = bucket_run l st (map (\<lambda>g. Reserve (g_bytes g) (g_time g)) gs)"
  by (induction gs arbitrary: st) (simp_all add: case_prod_unfold Let_def split: if_splits)

text \<open>The tier of a request, and the bandwidth profile of a tier.\<close>

definition tier_for :: "OpPolicy \<Rightarrow> OpContext \<Rightarrow> tier_ref" where
  "tier_for p ctx = (if routed_large p (ctx_op ctx) (ctx_requested_len ctx) then LargeTier else BaseTier)"

definition tier_profile :: "OpPolicy \<Rightarrow> tier_ref \<Rightarrow> BandwidthProfile option" where
  "tier_profile p t = (case t of BaseTier \<Rightarrow> bandwidth p
     | LargeTier \<Rightarrow> Option.bind (size_tier p) (\<lambda>s. large_bandwidth (tier_large s)))"

definition bucket_of :: "FsOp \<Rightarrow> tier_ref \<Rightarrow> ('s, 'h) SimEngine \<Rightarrow> (BandwidthLimiter \<times> BucketState) option" where
  "bucket_of f t eng = Option.bind (eng_resources eng f) (tier_bandwidth t)"

lemma bucket_of_cong: "eng_resources eng' f = eng_resources eng f \<Longrightarrow> bucket_of f t eng' = bucket_of f t eng"
  by (simp add: bucket_of_def)

lemma tier_bandwidth_limiter_state [simp]: "tier_bandwidth t (res\<lparr>res_limiter_state := st\<rparr>) = tier_bandwidth t res"
  by (simp add: tier_bandwidth_def split: tier_ref.split)

lemma bucket_of_set_resources [simp]:
  "bucket_of f t (set_resources g res eng) = (if f = g then tier_bandwidth t res else bucket_of f t eng)"
  by (simp add: bucket_of_def set_resources_def)

lemma bucket_of_simps [simp]:
  "bucket_of f t (eng\<lparr>eng_metrics := m\<rparr>) = bucket_of f t eng"
  "bucket_of f t (c_engine (log_event env ev w)) = bucket_of f t (c_engine w)"
  "bucket_of f t (drop_guard g eng) = bucket_of f t eng"
  "eng_resources eng g = Some res \<Longrightarrow> bucket_of f t (set_limiter g res st eng) = bucket_of f t eng"
  "next_seq eng = (seq, eng1) \<Longrightarrow> bucket_of f t eng1 = bucket_of f t eng"
  by (auto simp: bucket_of_def drop_guard_def set_limiter_def set_resources_def next_seq_def split: option.split)

lemma bucket_of_new: "bucket_of f t (SimEngine_new config sink now)
    = map_option (\<lambda>b. BandwidthLimiter_new b (now f t)) (tier_profile (policy_for config f) t)"
  by (simp add: bucket_of_def SimEngine_new_resources OpResources_new_def tier_bandwidth_def tier_profile_def Let_def
      split: tier_ref.split option.split)

text \<open>The bandwidth part of \<open>op_sample\<close>.\<close>

lemma op_sample_charges:
  assumes "is_data_ctx (ctx_op ctx)" "op_sample env eng res ctx seq now = ((fault, lat, delay), res1)"
  defines "t \<equiv> tier_for (res_policy res) ctx"
  shows "case tier_bandwidth t res of None \<Rightarrow> delay = 0 \<and> res1 = res
    | Some (l, st) \<Rightarrow> delay = fst (reserve l st (ctx_len ctx) now)
        \<and> res1 = set_tier_bucket t (l, snd (reserve l st (ctx_len ctx) now)) res"
proof -
  have "snd (snd (select_tier res (ctx_op ctx) (ctx_requested_len ctx))) = t"
    by (simp add: t_def tier_for_def select_tier_eq)
  then show ?thesis
    using assms(1,2) by (auto simp: op_sample_def Let_def case_prod_unfold split: option.splits)
qed

lemma tier_bandwidth_set: "tier_bandwidth t' (set_tier_bucket t b res) = (if t' = t then Some b else tier_bandwidth t' res)"
  by (simp add: tier_bandwidth_def set_tier_bucket_def split: tier_ref.split)

section \<open>The invariant\<close>

text \<open>
  What is known of a reservation outside the bucket: in the threads that have not logged yet,
  and in the log.
\<close>

type_synonym receipt = "u64 \<times> u64 \<times> u64"

definition receipt :: "grant \<Rightarrow> receipt" where
  "receipt g = (g_seq g, g_bytes g, as_micros_u64 (g_wait g))"

definition event_receipt :: "Event \<Rightarrow> receipt" where
  "event_receipt e = (ev_seq e, ev_len e, ev_bandwidth_delay_us e)"

definition admitted_events :: "FsOp \<Rightarrow> Event list \<Rightarrow> Event list" where
  "admitted_events f = filter (\<lambda>e. ev_op e = f \<and> \<not> is_rejection e)"

definition job_receipt :: "('w, 'a) job \<Rightarrow> duration \<Rightarrow> receipt" where
  "job_receipt j delay = (job_seq j, ctx_len (job_ctx j), as_micros_u64 delay)"

fun unlogged :: "FsOp \<Rightarrow> ('w, 'a) thread \<Rightarrow> receipt list" where
  "unlogged f (Busy j (Delayed q fault lat delay)) = (if job_op j = f then [job_receipt j delay] else [])"
| "unlogged f (Busy j (Answered q lat delay result)) = (if job_op j = f then [job_receipt j delay] else [])"
| "unlogged f _ = []"

text \<open>The sequence numbers of the calls that have yet to reserve.\<close>

fun unreserved :: "('w, 'a) thread \<Rightarrow> u64 list" where
  "unreserved (Busy j Started) = [job_seq j]"
| "unreserved (Busy j (Queueing s b)) = [job_seq j]"
| "unreserved (Busy j (Granted q)) = [job_seq j]"
| "unreserved _ = []"

definition grant_ok :: "OpPolicy \<Rightarrow> FsOp \<Rightarrow> OpContext list \<Rightarrow> grant \<Rightarrow> bool" where
  "grant_ok p f reqs g \<longleftrightarrow> (tier_profile p (g_tier g) = None \<longrightarrow> g_wait g = 0)
     \<and> (\<exists>ctx. requested reqs ctx (g_seq g) \<and> ctx_op ctx = f \<and> ctx_len ctx = g_bytes g \<and> tier_for p ctx = g_tier g)"

definition buckets_serve :: "OpPolicy \<Rightarrow> FsOp \<Rightarrow> ('s, 'h) SimEngine \<Rightarrow> grant list \<Rightarrow> bool" where
  "buckets_serve p f eng gs \<longleftrightarrow> (\<forall>t. case tier_profile p t of None \<Rightarrow> bucket_of f t eng = None
     | Some prof \<Rightarrow> \<exists>t0 st. bucket_of f t eng = Some (fst (BandwidthLimiter_new prof t0), st)
         \<and> serve_grants (fst (BandwidthLimiter_new prof t0)) (snd (BandwidthLimiter_new prof t0))
             (filter (\<lambda>g. g_tier g = t) gs) = Some st)"

definition throttled_by :: "Config \<Rightarrow> FsOp \<Rightarrow> ('s, 'h, 'w, 'a) conc \<Rightarrow> grant list \<Rightarrow> bool" where
  "throttled_by config f w gs \<longleftrightarrow> buckets_serve (policy_for config f) f (c_engine w) gs
     \<and> list_all (grant_ok (policy_for config f) f (c_requests w)) gs
     \<and> mset (map g_seq gs) + mset (concat (map unreserved (c_threads w)))
         \<subseteq># mset (map of_nat [0..<length (c_requests w)])
     \<and> mset (concat (map (unlogged f) (c_threads w))) + mset (map event_receipt (admitted_events f (c_log w)))
         \<subseteq># mset (map receipt gs)"

lemma buckets_serve_cong:
  fixes eng eng' :: "('s, 'h) SimEngine"
  assumes "\<And>t. bucket_of f t eng' = bucket_of f t eng"
  shows "buckets_serve p f eng' gs \<longleftrightarrow> buckets_serve p f eng gs"
  unfolding buckets_serve_def assms ..

lemma admitted_events_append [simp]: "admitted_events f (xs @ ys) = admitted_events f xs @ admitted_events f ys"
  by (simp add: admitted_events_def)

text \<open>A multiset of what the threads hold when one thread moves.\<close>

lemma concat_update_le:
  assumes "i < length ts" "mset (concat (map g ts)) + A \<subseteq># B" "mset (g t) + C \<subseteq># mset (g (ts ! i)) + D"
  shows "mset (concat (map g (ts[i := t]))) + A + C \<subseteq># B + D"
proof -
  have "mset (concat (map g (ts[i := t]))) + A + C + mset (g (ts ! i))
      = mset (concat (map g ts)) + A + (mset (g t) + C)"
    using concat_update [OF assms(1), of g t] by (simp add: add.commute add.left_commute)
  also have "\<dots> \<subseteq># B + (mset (g (ts ! i)) + D)" using assms(2,3) by (rule subset_mset.add_mono)
  also have "\<dots> = B + D + mset (g (ts ! i))" by (simp add: add.commute add.left_commute)
  finally show ?thesis by simp
qed

text \<open>A step that leaves the buckets alone.\<close>

lemma throttled_by_move:
  fixes w w' :: "('s, 'h, 'w, 'a) conc"
  assumes "throttled_by config f w gs" "i < length (c_threads w)" "c_threads w' = (c_threads w)[i := t]"
    and "c_requests w' = c_requests w" "\<And>t. bucket_of f t (c_engine w') = bucket_of f t (c_engine w)"
    and "c_log w' = c_log w @ evs"
    and "mset (unreserved t) \<subseteq># mset (unreserved (c_threads w ! i))"
    and "mset (unlogged f t) + mset (map event_receipt (admitted_events f evs)) \<subseteq># mset (unlogged f (c_threads w ! i))"
  shows "throttled_by config f w' gs"
proof -
  have inv: "mset (concat (map unreserved (c_threads w))) + mset (map g_seq gs)
      \<subseteq># mset (map of_nat [0..<length (c_requests w)])"
    "mset (concat (map (unlogged f) (c_threads w))) + mset (map event_receipt (admitted_events f (c_log w)))
      \<subseteq># mset (map receipt gs)"
    using assms(1) by (simp_all add: throttled_by_def add.commute)
  have "mset (concat (map unreserved (c_threads w'))) + mset (map g_seq gs)
      \<subseteq># mset (map of_nat [0..<length (c_requests w')])"
    using concat_update_le [OF assms(2) inv(1), of t "{#}" "{#}"] assms(7) by (simp add: assms(3,4))
  moreover have "mset (concat (map (unlogged f) (c_threads w')))
      + mset (map event_receipt (admitted_events f (c_log w'))) \<subseteq># mset (map receipt gs)"
    using concat_update_le [OF assms(2) inv(2), of t _ "{#}"] assms(8) by (simp add: assms(3,6) add.assoc)
  moreover have "buckets_serve (policy_for config f) f (c_engine w') gs"
    using assms(1) unfolding throttled_by_def buckets_serve_cong [OF assms(5)] by simp
  ultimately show ?thesis using assms(1) by (simp add: throttled_by_def assms(4) add.commute)
qed

lemma throttled_by_quiet:
  fixes w w' :: "('s, 'h, 'w, 'a) conc"
  assumes "throttled_by config f w gs" "i < length (c_threads w)" "c_threads w' = (c_threads w)[i := t]"
    and "c_requests w' = c_requests w" "\<And>t. bucket_of f t (c_engine w') = bucket_of f t (c_engine w)"
    and "c_log w' = c_log w"
    and "mset (unreserved t) \<subseteq># mset (unreserved (c_threads w ! i))"
    and "mset (unlogged f t) \<subseteq># mset (unlogged f (c_threads w ! i))"
  shows "throttled_by config f w' gs"
  by (rule throttled_by_move [where evs = "[]" and t = t, OF assms(1-5)])
    (simp_all add: assms(6-8) admitted_events_def)

text \<open>A new request, and a reservation.\<close>

lemma grant_ok_append: "grant_ok p f reqs g \<Longrightarrow> grant_ok p f (reqs @ [c]) g"
  unfolding grant_ok_def using requested_append by metis

lemma throttled_by_begin:
  assumes "throttled_by config f w gs" "i < length (c_threads w)" "c_threads w ! i = Resting"
    and "next_seq (c_engine w) = (seq, eng1)" "seq = of_nat (length (c_requests w))"
  shows "throttled_by config f
      (move i (Busy \<lparr>job_ctx = ctx, job_body = body, job_seq = seq, job_start = start\<rparr> Started)
        (w\<lparr>c_engine := eng1, c_requests := c_requests w @ [ctx]\<rparr>)) gs"
    (is "throttled_by config f (move i ?t ?w) gs")
proof -
  have inv: "mset (concat (map unreserved (c_threads w))) + mset (map g_seq gs)
      \<subseteq># mset (map of_nat [0..<length (c_requests w)])"
    "mset (concat (map (unlogged f) (c_threads w))) + mset (map event_receipt (admitted_events f (c_log w)))
      \<subseteq># mset (map receipt gs)"
    using assms(1) by (simp_all add: throttled_by_def add.commute)
  have "mset (concat (map unreserved (c_threads (move i ?t ?w)))) + mset (map g_seq gs)
      \<subseteq># mset (map of_nat [0..<length (c_requests w @ [ctx])])"
    using concat_update_le [OF assms(2) inv(1), of ?t "{#}" "{#seq#}"] assms(3) by (simp add: assms(5))
  moreover have "mset (concat (map (unlogged f) (c_threads (move i ?t ?w))))
      + mset (map event_receipt (admitted_events f (c_log w))) \<subseteq># mset (map receipt gs)"
    using concat_update_le [OF assms(2) inv(2), of ?t "{#}" "{#}"] assms(3) by simp
  moreover have "buckets_serve (policy_for config f) f eng1 gs"
    using assms(1) buckets_serve_cong [of f eng1 "c_engine w"] assms(4) unfolding throttled_by_def by simp
  moreover have "list_all (grant_ok (policy_for config f) f (c_requests w @ [ctx])) gs"
    using assms(1) grant_ok_append by (auto simp: throttled_by_def list_all_iff)
  ultimately show ?thesis by (simp add: throttled_by_def add.commute)
qed

lemma requested_at:
  assumes "conc_reachable env config sink w" "i < length (c_threads w)" "c_threads w ! i = Busy j p"
  shows "requested (c_requests w) (job_ctx j) (job_seq j)"
  using thread_ok_at [OF conc_reachable_log_inv [OF assms(1)] assms(2)] assms(3) by simp

lemma buckets_serve_grant:
  assumes "buckets_serve p f eng gs" "is_data_ctx f" "resources_of p res"
    and "eng_resources eng f = Some res" "ctx_op ctx = f"
    and "op_sample env eng res ctx seq now = ((fault, lat, delay), res1)"
  defines "g \<equiv> \<lparr>g_seq = seq, g_bytes = ctx_len ctx, g_tier = tier_for p ctx, g_time = now, g_wait = delay\<rparr>"
  shows "buckets_serve p f (set_resources f res1 eng) (gs @ [g])" "tier_profile p (g_tier g) = None \<longrightarrow> delay = 0"
proof -
  have p: "res_policy res = p" using assms(3) by (simp add: resources_of_def)
  note charge = op_sample_charges [OF _ assms(6), unfolded assms(5) p, OF assms(2)]
  have b: "bucket_of f t eng = tier_bandwidth t res" for t by (simp add: bucket_of_def assms(4))
  have old: "case tier_profile p t of None \<Rightarrow> tier_bandwidth t res = None
    | Some prof \<Rightarrow> \<exists>t0 st. tier_bandwidth t res = Some (fst (BandwidthLimiter_new prof t0), st)
       \<and> serve_grants (fst (BandwidthLimiter_new prof t0)) (snd (BandwidthLimiter_new prof t0))
           (filter (\<lambda>g. g_tier g = t) gs) = Some st" for t
    using assms(1) unfolding buckets_serve_def b by blast
  show "tier_profile p (g_tier g) = None \<longrightarrow> delay = 0"
    using old [of "tier_for p ctx"] charge by (auto simp: g_def)
  show "buckets_serve p f (set_resources f res1 eng) (gs @ [g])"
    unfolding buckets_serve_def
  proof
    fix t
    show "case tier_profile p t of None \<Rightarrow> bucket_of f t (set_resources f res1 eng) = None
      | Some prof \<Rightarrow> \<exists>t0 st. bucket_of f t (set_resources f res1 eng) = Some (fst (BandwidthLimiter_new prof t0), st)
         \<and> serve_grants (fst (BandwidthLimiter_new prof t0)) (snd (BandwidthLimiter_new prof t0))
             (filter (\<lambda>g. g_tier g = t) (gs @ [g])) = Some st"
    proof (cases "t = tier_for p ctx")
      case False
      then have "tier_bandwidth t res1 = tier_bandwidth t res"
        using charge by (auto simp: tier_bandwidth_set split: option.splits)
      then show ?thesis using old [of t] False by (auto simp: g_def split: option.splits)
    next
      case True
      show ?thesis
      proof (cases "tier_profile p t")
        case None
        then show ?thesis using old [of t] charge True by simp
      next
        case (Some prof)
        then obtain t0 st where st: "tier_bandwidth t res = Some (fst (BandwidthLimiter_new prof t0), st)"
          "serve_grants (fst (BandwidthLimiter_new prof t0)) (snd (BandwidthLimiter_new prof t0))
             (filter (\<lambda>g. g_tier g = t) gs) = Some st"
          using old [of t] by auto
        let ?l = "fst (BandwidthLimiter_new prof t0)" and ?r = "\<lambda>l. reserve l st (ctx_len ctx) now"
        have "delay = fst (?r ?l)" "bucket_of f t (set_resources f res1 eng) = Some (?l, snd (?r ?l))"
          using charge st(1) True by (simp_all add: tier_bandwidth_set)
        moreover have "serve_grants ?l (snd (BandwidthLimiter_new prof t0)) (filter (\<lambda>g. g_tier g = t) (gs @ [g]))
            = Some (snd (?r ?l))"
          using st(2) calculation(1) True by (simp add: g_def serve_grants_snoc)
        ultimately show ?thesis unfolding Some option.case by blast
      qed
    qed
  qed
qed

lemma throttled_by_decide:
  fixes w :: "('s, 'h, 'w, 'a) conc"
  assumes "throttled_by config (job_op j) w gs" "is_data_ctx (job_op j)"
    and "resources_of (policy_for config (job_op j)) res" "requested (c_requests w) (job_ctx j) (job_seq j)"
    and "i < length (c_threads w)" "c_threads w ! i = Busy j (Granted q)"
      "eng_resources (c_engine w) (job_op j) = Some res"
      "op_sample env (c_engine w) res (job_ctx j) (job_seq j) now = ((fault, lat, delay), res1)"
  shows "\<exists>gs'. throttled_by config (job_op j)
    (move i (Busy j (Delayed q fault lat delay)) (in_engine (set_resources (job_op j) res1) w)) gs'"
proof -
  let ?p = "policy_for config (job_op j)" and ?t = "Busy j (Delayed q fault lat delay)"
  define g where "g = \<lparr>g_seq = job_seq j, g_bytes = ctx_len (job_ctx j), g_tier = tier_for ?p (job_ctx j),
    g_time = now, g_wait = delay\<rparr>"
  have inv: "buckets_serve ?p (job_op j) (c_engine w) gs"
    "mset (concat (map unreserved (c_threads w))) + mset (map g_seq gs) \<subseteq># mset (map of_nat [0..<length (c_requests w)])"
    "mset (concat (map (unlogged (job_op j)) (c_threads w)))
      + mset (map event_receipt (admitted_events (job_op j) (c_log w))) \<subseteq># mset (map receipt gs)"
    "list_all (grant_ok ?p (job_op j) (c_requests w)) gs"
    using assms(1) by (simp_all add: throttled_by_def add.commute)
  note grant = buckets_serve_grant [OF inv(1) assms(2,3,7) _ assms(8), unfolded job_op_def [symmetric], OF refl,
      folded g_def]
  have "grant_ok ?p (job_op j) (c_requests w) g"
    using grant(2) assms(4) by (auto simp: grant_ok_def g_def job_op_def)
  moreover have "mset (concat (map unreserved ((c_threads w)[i := ?t]))) + mset (map g_seq (gs @ [g]))
      \<subseteq># mset (map of_nat [0..<length (c_requests w)])"
    using concat_update_le [OF assms(5) inv(2), of ?t "{#job_seq j#}" "{#}"] by (simp add: assms(6) g_def)
  moreover have "mset (concat (map (unlogged (job_op j)) ((c_threads w)[i := ?t])))
      + mset (map event_receipt (admitted_events (job_op j) (c_log w))) \<subseteq># mset (map receipt (gs @ [g]))"
    using concat_update_le [OF assms(5) inv(3), of ?t "{#}" "{#receipt g#}"]
    by (simp add: assms(6) g_def receipt_def job_receipt_def)
  ultimately have "throttled_by config (job_op j) (move i ?t (in_engine (set_resources (job_op j) res1) w)) (gs @ [g])"
    using grant(1) inv(4) by (simp add: throttled_by_def add.commute)
  then show ?thesis ..
qed

lemma bucket_of_log [simp]: "bucket_of f t (c_engine (move i x w)) = bucket_of f t (c_engine w)"
  by simp

lemma unreserved_after_acquire [simp]: "mset (unreserved (Busy j (after_acquire now e))) \<subseteq># {#job_seq j#}"
  "unlogged f (Busy j (after_acquire now e)) = []"
  by (simp_all add: after_acquire_def split: entry.split)

lemma unreserved_after_record [simp]:
  "unreserved (after_record j guard out) = []" "unlogged f (after_record j guard out) = []"
  by (simp_all add: after_record_def split: option.split)

lemma throttled_by_leave:
  assumes "throttled_by config f w gs" "i < length (c_threads w)" "c_threads w ! i = Busy j (Leaving q out)"
  shows "throttled_by config f (move i (Ended out) (in_engine (drop_guard g) w)) gs"
  by (rule throttled_by_quiet [where t = "Ended out", OF assms(1,2)]) simp_all

lemma throttled_by_step:
  assumes "conc_step env w w'" "conc_reachable env config sink w" "is_data_ctx f" "throttled_by config f w gs"
  shows "\<exists>gs'. throttled_by config f w' gs'"
proof -
  note inv = assms(4)
  have engine: "engine_of config (c_engine w)" by (rule conc_reachable_engine_of [OF assms(2)])
  have seqs: "eng_seq (c_engine w) = of_nat (length (c_requests w))"
    using conc_reachable_log_inv [OF assms(2)] by (simp add: log_inv_def)
  show ?thesis
    using assms(1)
  proof (cases rule: conc_step.cases)
    case (begin_op i seq eng1 ctx body start)
    have "seq = of_nat (length (c_requests w))" using begin_op(4) seqs by (auto simp: next_seq_def)
    then show ?thesis unfolding begin_op(1) using throttled_by_begin [OF inv begin_op(2-4)] by blast
  next
    case (no_resources i j)
    show ?thesis
      by (rule exI, rule throttled_by_quiet [where t = "Ended Panics", OF inv no_resources(2)])
        (simp_all add: no_resources)
  next
    case (acquire i j res e st now)
    show ?thesis
      by (rule exI, rule throttled_by_quiet [where t = "Busy j (after_acquire now e)", OF inv acquire(2)]) (simp_all add: acquire)
  next
    case (spurious_wake i j s)
    show ?thesis
      by (rule exI, rule throttled_by_quiet [where t = "Busy j (Queueing s True)", OF inv spurious_wake(2)]) (simp_all add: spurious_wake)
  next
    case (resume i j s res now r st)
    show ?thesis
      by (rule exI, rule throttled_by_quiet [where t = "Busy j (case r of Some q \<Rightarrow> Granted q | None \<Rightarrow> Queueing s False)",
          OF inv resume(2)]) (simp_all add: resume split: option.split)
  next
    case (decide i j q res now fault lat delay res1)
    have res: "resources_of (policy_for config (job_op j)) res" by (rule resources_ofI [OF engine decide(4)])
    show ?thesis
    proof (cases "job_op j = f")
      case True
      show ?thesis
        using throttled_by_decide [OF _ _ res requested_at [OF assms(2) decide(2,3)] decide(2-5)] inv assms(3)
        unfolding True [symmetric] decide(1) by blast
    next
      case False
      show ?thesis
        by (rule exI, rule throttled_by_quiet [where t = "Busy j (Delayed q fault lat delay)", OF inv decide(2)])
          (use \<open>job_op j \<noteq> f\<close> in \<open>simp_all add: decide(1,3)\<close>)
    qed
  next
    case (sleep_overflows i j q fault lat delay)
    show ?thesis
      by (rule exI, rule throttled_by_quiet [where t = "Busy j (Leaving q Panics)", OF inv sleep_overflows(2)]) (simp_all add: sleep_overflows)
  next
    case (inject i j q errno lat delay sleep_for)
    show ?thesis
      by (rule exI, rule throttled_by_quiet [where t = "Busy j (Answered q lat delay (Err (Errno errno)))", OF inv inject(2)])
        (simp_all add: inject)
  next
    case (answer i j q lat delay sleep_for result x)
    show ?thesis
      by (rule exI, rule throttled_by_quiet [where t = "Busy j (Answered q lat delay result)", OF inv answer(2)]) (simp_all add: answer)
  next
    case (body_panics i j q lat delay sleep_for x)
    show ?thesis
      by (rule exI, rule throttled_by_quiet [where t = "Busy j (Leaving q Panics)", OF inv body_panics(2)]) (simp_all add: body_panics)
  next
    case (emit i j q lat delay result us now wall)
    show ?thesis
      by (rule exI, rule throttled_by_move [where i = i and evs = "[event_of j (fst (result_outcome result)) (snd (result_outcome result))
            (as_micros_u64 q) lat (as_micros_u64 delay) us wall]"
            and t = "Busy j (Emitted (Some q) us (fst (result_outcome result) = Outcome_Error) result)", OF inv])
        (simp_all add: emit admitted_events_def event_receipt_def event_of_def job_receipt_def)
  next
    case (emit_rejection i j us now wall)
    show ?thesis
      by (rule exI, rule throttled_by_move [where i = i and evs = "[event_of j Outcome_Error (Some EAGAIN) 0 0 0 us wall]"
            and t = "Busy j (Emitted None us True (Err (Errno EAGAIN)))", OF inv])
        (simp_all add: emit_rejection admitted_events_def event_of_def is_rejection_def)
  next
    case (sample_recorded i j guard us err result m)
    show ?thesis
      by (rule exI, rule throttled_by_quiet [where t = "after_record j guard (Returns result)", OF inv sample_recorded(2)])
        (simp_all add: sample_recorded)
  next
    case (record_panics i j guard us err result)
    show ?thesis
      by (rule exI, rule throttled_by_quiet [where t = "after_record j guard Panics", OF inv record_panics(2)]) (simp_all add: record_panics)
  next
    case (leave_notifies i j q out k j' s)
    let ?w1 = "move i (Ended out) (in_engine (drop_guard (job_op j)) w)"
    have "i \<noteq> k" using leave_notifies(3,5) by auto
    then have k: "k < length (c_threads ?w1)" "c_threads ?w1 ! k = Busy j' (Queueing s False)"
      using leave_notifies(4,5) by simp_all
    have w1: "throttled_by config f ?w1 gs" by (rule throttled_by_leave [OF inv leave_notifies(2,3)])
    show ?thesis
      unfolding leave_notifies(1)
      by (rule exI, rule throttled_by_quiet [where t = "Busy j' (Queueing s True)", OF w1 k(1)]) (use k(2) in simp_all)
  next
    case (leave_unnoticed i j q out)
    then show ?thesis
      unfolding leave_unnoticed(1) using throttled_by_leave [OF inv leave_unnoticed(2,3)] by blast
  next
    case (next_request i out)
    show ?thesis
      by (rule exI, rule throttled_by_quiet [where t = Resting, OF inv next_request(2)]) (simp_all add: next_request)
  qed
qed

lemma throttled_by_init: "throttled_by config f (conc_init config sink now n x) []"
proof -
  have "concat (map g (replicate n Resting)) = []" if "g Resting = []" for g :: "('w, 'a) thread \<Rightarrow> 'b list" and n
    using that by simp
  then show ?thesis
    by (auto simp: throttled_by_def conc_init_def buckets_serve_def bucket_of_new admitted_events_def
        split: option.split intro!: exI)
qed

lemma conc_reachable_throttled:
  assumes "conc_reachable env config sink w" "is_data_ctx f"
  shows "\<exists>gs. throttled_by config f w gs"
  using assms(1)
proof (induction rule: conc_reachable.induct)
  case (init now n x)
  show ?case by (rule exI) (rule throttled_by_init)
next
  case (step w w')
  then show ?case using throttled_by_step [OF step.hyps(2,1) assms(2)] by blast
qed

text \<open>A read beyond the burst of its bucket, by the single thread of a new engine.\<close>

definition kib_policy :: OpPolicy where
  "kib_policy = OpPolicy_default\<lparr>latency := fixed_profile, bandwidth := Some kib_profile\<rparr>"

definition kib_config :: Config where
  "kib_config = Config_default\<lparr>cfg_ops := [(Read, kib_policy)]\<rparr>"

definition kib_engine :: "(Event list, u64 list) SimEngine" where
  "kib_engine = SimEngine_new kib_config [] (\<lambda>_ _. 7)"

lemma policy_for_kib [simp]: "policy_for kib_config Read = kib_policy"
  by (simp add: policy_for_def kib_config_def)

lemma kib_policy_sel [simp]:
  "size_tier kib_policy = None" "bandwidth kib_policy = Some kib_profile" "faults kib_policy = []"
  "latency kib_policy = fixed_profile"
  by (simp_all add: kib_policy_def OpPolicy_default_def)

lemma kib_resources: "eng_resources kib_engine Read = Some (OpResources_new kib_policy (\<lambda>_. 7))"
  by (simp add: kib_engine_def SimEngine_new_resources)

lemma kib_enter: "acquire_enter (res_limiter (OpResources_new kib_policy (\<lambda>_. 7))) (res_limiter_state (OpResources_new kib_policy (\<lambda>_. 7)))
    = (Admitted, snd (acquire_enter (res_limiter (OpResources_new kib_policy (\<lambda>_. 7))) (res_limiter_state (OpResources_new kib_policy (\<lambda>_. 7)))))"
  by (simp add: OpResources_new_def Let_def BlockingLimiter_new_def acquire_enter_def kib_policy_def
      OpPolicy_default_def default_concurrency_cap_def word_less_nat_alt)

lemma kib_wait: "fst (reserve (fst (BandwidthLimiter_new kib_profile 7)) (snd (BandwidthLimiter_new kib_profile 7)) 6096 7)
    = 2000000000"
proof -
  have "integral 4096 1000 7 (fst (BandwidthLimiter_new kib_profile 7)) (int 4096) 0 (snd (BandwidthLimiter_new kib_profile 7))"
    using f64_of_u64_nat [of 4096] by (simp add: integral_def BandwidthLimiter_new_def kib_profile_def)
  from reserve_integral(2) [OF this, of 0 6096] wait_for_whole [of 1000 2] show ?thesis by simp
qed

lemma kib_run:
  obtains ev and w :: "(Event list, u64 list, nat, u64) conc" where "conc_reachable demo_env kib_config [] w"
    "c_log w = [ev]" "ev_op ev = Read" "ev_len ev = 6096" "\<not> is_rejection ev" "ev_bandwidth_delay_us ev = 2000000"
proof -
  let ?ctx = "OpContext_data Read 100 0 6096" and ?res = "OpResources_new kib_policy (\<lambda>_. 7)"
  let ?st = "snd (acquire_enter (res_limiter ?res) (res_limiter_state ?res))"
  let ?res1 = "?res\<lparr>res_limiter_state := ?st\<rparr>"
  define eng0 where "eng0 = snd (next_seq kib_engine)"
  define j :: "(nat, u64) job" where "j = \<lparr>job_ctx = ?ctx, job_body = demo_body, job_seq = fst (next_seq kib_engine), job_start = 0\<rparr>"
  have j: "job_op j = Read" "job_ctx j = ?ctx" "job_body j = demo_body" by (simp_all add: j_def job_op_def OpContext_data_def)
  have eng0: "eng_resources eng0 Read = Some ?res"
    using kib_resources by (simp add: eng0_def next_seq_def)
  define eng1 where "eng1 = set_limiter Read ?res ?st eng0"
  have eng1: "eng_resources eng1 Read = Some ?res1" by (simp add: eng1_def set_limiter_def set_resources_def)
  obtain fault lat delay res2 where smp: "op_sample demo_env eng1 ?res1 ?ctx (job_seq j) 7 = ((fault, lat, delay), res2)"
    by (metis prod.exhaust)
  have tier: "tier_for kib_policy ?ctx = BaseTier" by (simp add: tier_for_def routed_large_def)
  have policy: "res_policy ?res1 = kib_policy" by (simp add: OpResources_new_def Let_def)
  have bucket: "tier_bandwidth BaseTier ?res1 = Some (BandwidthLimiter_new kib_profile 7)"
    by (simp add: tier_bandwidth_def OpResources_new_def Let_def)
  have "ctx_op ?ctx = Read" "ctx_len ?ctx = 6096" by (simp_all add: OpContext_data_def)
  then have delay: "delay = 2000000000"
    using op_sample_charges [OF _ smp] unfolding policy tier bucket
    by (simp add: kib_wait is_data_ctx_def case_prod_unfold)
  have "sample_latency_us m g fixed_profile k = 300" for m k and g :: "u64 rng"
    using sample_latency_fixed [of fixed_profile] by (simp add: fixed_profile_def f64_lt_def)
  then have fault: "fault = None" and lat: "lat = 300"
    using smp unfolding op_sample_def select_tier_eq policy
    by (simp_all add: Let_def case_prod_unfold routed_large_def sample_fault_def)
  have sleep: "duration_add (from_micros lat) delay = Returns (from_micros lat + delay)"
    by (simp add: duration_add_def delay lat from_micros_def DURATION_MAX_def)
  let ?w = "solo (set_resources Read res2 eng1) (Busy j (Answered 0 lat delay (Ok 7))) (0 + 1) [?ctx] [] []"
  have "conc_reachable demo_env kib_config [] (solo kib_engine Resting 0 [] [] [] :: (Event list, u64 list, nat, u64) conc)"
    using conc_reachable.init [of demo_env kib_config "[]" "\<lambda>_ _. 7" 1 0]
    by (simp add: kib_engine_def conc_init_def solo_def)
  moreover have "conc_step demo_env (solo kib_engine Resting 0 [] [] []) (solo eng0 (Busy j Started) 0 [?ctx] [] [])"
    using solo_steps(1) [of kib_engine "fst (next_seq kib_engine)" eng0 demo_env 0 "[]" "[]" "[]" ?ctx demo_body 0]
    by (simp add: eng0_def j_def)
  moreover have "conc_step demo_env (solo eng0 (Busy j Started) 0 [?ctx] [] []) (solo eng1 (Busy j (Granted 0)) 0 [?ctx] [] [])"
    using solo_steps(2) [of eng0 j ?res Admitted ?st demo_env 0 "[?ctx]" "[]" "[]"] kib_enter
    by (simp add: j eng0 eng1_def after_acquire_def)
  moreover have "conc_step demo_env (solo eng1 (Busy j (Granted 0)) 0 [?ctx] [] [])
      (solo (set_resources Read res2 eng1) (Busy j (Delayed 0 fault lat delay)) 0 [?ctx] [] [])"
    using solo_steps(3) [of eng1 j ?res1 demo_env 7 fault lat delay res2] smp by (simp add: j eng1)
  moreover have "conc_step demo_env (solo (set_resources Read res2 eng1) (Busy j (Delayed 0 fault lat delay)) 0 [?ctx] [] []) ?w"
    unfolding fault by (rule solo_steps(5) [OF sleep]) (simp add: j demo_body_def)
  ultimately have reach: "conc_reachable demo_env kib_config [] ?w" by (meson conc_reachable.step)
  define t ev where "t = as_micros_u64 (duration_since 0 (job_start j))"
    and "ev = event_of j Outcome_Ok None (as_micros_u64 0) lat (as_micros_u64 delay) t 0"
  let ?w1 = "move 0 (Busy j (Emitted (Some 0) t False (Ok 7))) (log_event demo_env ev ?w)"
  have "conc_step demo_env ?w ?w1"
    using conc_step.emit [of 0 ?w j 0 lat delay "Ok 7" t 0 demo_env 0] by (simp add: t_def ev_def)
  moreover have "ev_op ev = Read" "ev_len ev = 6096" "\<not> is_rejection ev" "ev_bandwidth_delay_us ev = 2000000"
    using \<open>ctx_op ?ctx = Read\<close> \<open>ctx_len ?ctx = 6096\<close>
    by (simp_all add: ev_def event_of_def job_op_def j delay is_rejection_def as_micros_u64_def)
  moreover have "c_log ?w1 = [ev]" by simp
  ultimately show thesis using that conc_reachable.step [OF reach] by blast
qed

section \<open>Properties\<close>

text \<open>C16. Reservations are serialised: in every interleaving of reads (or writes) the buckets of the
  operation are sequential buckets that made a list of reservations one after the other, each
  for the length of a request of that operation, from the tier its requested length selects, and
  at most one per request; and the bandwidth delay in the event of every admitted request is the
  wait its reservation was given.\<close>

theorem reservations_are_serialised:
  assumes "conc_reachable env config sink w" "is_data_ctx f"
  shows "\<exists>gs. buckets_serve (policy_for config f) f (c_engine w) gs
    \<and> list_all (grant_ok (policy_for config f) f (c_requests w)) gs
    \<and> mset (map g_seq gs) \<subseteq># mset (map of_nat [0..<length (c_requests w)])
    \<and> mset (map event_receipt (admitted_events f (c_log w))) \<subseteq># mset (map receipt gs)"
proof -
  obtain gs where gs: "throttled_by config f w gs" using conc_reachable_throttled [OF assms] by blast
  have "mset (map g_seq gs) \<subseteq># mset (map of_nat [0..<length (c_requests w)])"
    "mset (map event_receipt (admitted_events f (c_log w))) \<subseteq># mset (map receipt gs)"
    using gs unfolding throttled_by_def by (meson subset_mset.dual_order.trans mset_subset_eq_add_left mset_subset_eq_add_right)+
  then show ?thesis using gs unfolding throttled_by_def by blast
qed

theorem reservations_are_serialised_witness:
  "\<exists>(w :: (Event list, u64 list, nat, u64) conc) gs. buckets_serve kib_policy Read (c_engine w) gs
    \<and> (\<exists>g\<in>set gs. g_bytes g = 6096 \<and> as_micros_u64 (g_wait g) = 2000000)"
proof (rule kib_run)
  fix ev and w :: "(Event list, u64 list, nat, u64) conc"
  assume w: "conc_reachable demo_env kib_config [] w" "c_log w = [ev]" "ev_op ev = Read" "ev_len ev = 6096"
    "\<not> is_rejection ev" "ev_bandwidth_delay_us ev = 2000000"
  have "is_data_ctx Read" by (simp add: is_data_ctx_def)
  from reservations_are_serialised [OF w(1) this] obtain gs where gs: "buckets_serve kib_policy Read (c_engine w) gs"
    "mset (map event_receipt (admitted_events Read (c_log w))) \<subseteq># mset (map receipt gs)"
    by auto
  have "admitted_events Read (c_log w) = [ev]" by (simp add: admitted_events_def w)
  then obtain g where "g \<in> set gs" "receipt g = event_receipt ev"
    using mset_subset_eqD [OF gs(2), of "event_receipt ev"] by (auto simp del: set_map simp add: in_multiset_in_set) 
  then show ?thesis using gs(1) w(4,6) by (auto simp: receipt_def event_receipt_def)
qed

text \<open>The bytes of the logged requests of an operation that were admitted.\<close>

definition served_bytes :: "FsOp \<Rightarrow> Event list \<Rightarrow> nat" where
  "served_bytes f es = sum_list (map (\<lambda>e. unat (ev_len e)) (admitted_events f es))"

lemma served_bytes_le:
  assumes "throttled_by config f w gs"
  shows "served_bytes f (c_log w) \<le> sum_list (map (\<lambda>g. unat (g_bytes g)) gs)"
proof -
  let ?bytes = "\<lambda>r :: receipt. unat (fst (snd r))"
  have "mset (map event_receipt (admitted_events f (c_log w))) \<subseteq># mset (map receipt gs)"
    using assms unfolding throttled_by_def by (meson subset_mset.dual_order.trans mset_subset_eq_add_right)
  then have "sum_mset (image_mset ?bytes (mset (map event_receipt (admitted_events f (c_log w)))))
      \<le> sum_mset (image_mset ?bytes (mset (map receipt gs)))"
    by (elim mset_subset_eq_exists_conv [THEN iffD1, elim_format] exE) (simp only: image_mset_union sum_mset.union le_add1)
  then show ?thesis
    by (simp add: served_bytes_def event_receipt_def receipt_def sum_mset_sum_list [symmetric] multiset.map_comp comp_def)
qed

lemma bytes_reserved_grants:
  "bytes_reserved (map (\<lambda>g. Reserve (g_bytes g) (g_time g)) gs) = sum_list (map (\<lambda>g. unat (g_bytes g)) gs)"
  by (induction gs) simp_all

lemma bytes_reserved_at:
  "\<forall>(n, s)\<in>set calls. n < 2 ^ 64 \<Longrightarrow> bytes_reserved (map (reserve_at t0) calls) = sum_list (map fst calls)"
  by (induction calls) (auto simp: reserve_at_def unat_of_nat)



end
