(* ===== verification/Content.thy ===== *)
theory Content
  imports Sampler
begin

text \<open>
  Synthetic file contents (\<open>fusecraft-core/src/content\<close>): the byte function, the
  deterministic content store and the contract of the \<open>ContentModel\<close> trait, the locale
  \<open>content_model\<close>, of which the store is an interpretation.

  A mutable slice that a method fills is passed as the list of its bytes, and the list of its
  bytes afterwards is the result.
\<close>

type_synonym bytes = "u8 list"

section \<open>The deterministic store\<close>

text \<open>The finalizer of \<open>synth_byte\<close> on 64 bits, before the cast to a byte.\<close>

definition murmur_finalize :: "u64 \<Rightarrow> u64" where
  "murmur_finalize x0 =
     (let x1 = xor_shift 33 x0;
          x2 = x1 * 0xff51afd7ed558ccd;
          x3 = xor_shift 33 x2;
          x4 = x3 * 0xc4ceb9fe1a85ec53
      in xor_shift 33 x4)"

definition synth_word :: "u64 \<Rightarrow> u64 \<Rightarrow> u64 \<Rightarrow> u64" where
  "synth_word ino offset seed =
     murmur_finalize (seed XOR word_rotl 17 ino XOR word_rotl 31 offset)"

definition synth_byte :: "u64 \<Rightarrow> u64 \<Rightarrow> u64 \<Rightarrow> u8" where
  "synth_byte ino offset seed = ucast (synth_word ino offset seed)"

record DeterministicContent =
  content_seed :: u64
  content_file_len :: u64

definition DeterministicContent_new :: "u64 \<Rightarrow> u64 \<Rightarrow> DeterministicContent" where
  "DeterministicContent_new seed len = \<lparr>content_seed = seed, content_file_len = len\<rparr>"

definition file_len :: "DeterministicContent \<Rightarrow> u64 \<Rightarrow> u64" where
  "file_len c ino = content_file_len c"

definition read_at :: "DeterministicContent \<Rightarrow> u64 \<Rightarrow> u64 \<Rightarrow> bytes \<Rightarrow> bytes" where
  "read_at c ino offset dst =
     map (\<lambda>(i, b). synth_byte ino (offset + of_nat i) (content_seed c)) (enumerate 0 dst)"

definition write_at :: "DeterministicContent \<Rightarrow> u64 \<Rightarrow> u64 \<Rightarrow> bytes \<Rightarrow> usize fs_result" where
  "write_at c ino offset data = Ok (of_nat (length data))"

section \<open>The contract of the trait\<close>

text \<open>
  What the mount relies on: a read fills the whole destination, whatever it held; reading a
  range in two parts is reading it at once; a write acknowledges at most the bytes it got.
\<close>

locale content_model =
  fixes read_content :: "u64 \<Rightarrow> u64 \<Rightarrow> bytes \<Rightarrow> bytes"
    and write_content :: "u64 \<Rightarrow> u64 \<Rightarrow> bytes \<Rightarrow> usize fs_result"
  assumes read_length: "length (read_content ino off dst) = length dst"
    and read_overwrites: "length d = length d' \<Longrightarrow> read_content ino off d = read_content ino off d'"
    and read_append: "read_content ino off (d @ d')
      = read_content ino off d @ read_content ino (off + of_nat (length d)) d'"
    and write_accepts: "write_content ino off data = Ok n \<Longrightarrow> unat n \<le> length data"
begin

definition content_at :: "u64 \<Rightarrow> u64 \<Rightarrow> u8" where
  "content_at ino off = hd (read_content ino off [0])"

lemma read_single: "read_content ino off [b] = [content_at ino off]"
proof -
  have "read_content ino off [b] = read_content ino off [0]" by (rule read_overwrites) simp
  moreover have "length (read_content ino off [0]) = 1" by (simp add: read_length)
  ultimately show ?thesis by (auto simp: content_at_def length_Suc_conv)
qed

lemma read_eq_map:
  "read_content ino off dst = map (\<lambda>i. content_at ino (off + of_nat i)) [0..<length dst]"
proof (induction dst rule: rev_induct)
  case Nil
  then show ?case using read_length [of ino off "[]"] by simp
next
  case (snoc b dst)
  then show ?case by (simp add: read_append read_single)
qed

lemma read_nth:
  "i < length dst \<Longrightarrow> read_content ino off dst ! i = content_at ino (off + of_nat i)"
  by (simp add: read_eq_map)

text \<open>Two reads agree on every byte position they share.\<close>

lemma overlapping_reads:
  assumes "i < length d" "j < length d'" "off + of_nat i = off' + of_nat j"
  shows "read_content ino off d ! i = read_content ino off' d' ! j"
  using assms by (simp add: read_nth)

text \<open>Reading in consecutive chunks of any sizes gives the bytes of one read of the whole.\<close>

primrec read_chunks :: "u64 \<Rightarrow> u64 \<Rightarrow> bytes list \<Rightarrow> bytes" where
  "read_chunks ino off [] = []"
| "read_chunks ino off (d # ds) =
     read_content ino off d @ read_chunks ino (off + of_nat (length d)) ds"

lemma read_chunks_eq: "read_chunks ino off ds = read_content ino off (concat ds)"
  by (induction ds arbitrary: off) (simp_all add: read_append read_eq_map [of _ _ "[]"])

end

lemma length_read_at: "length (read_at c ino off dst) = length dst"
  by (simp add: read_at_def)

lemma read_at_eq_map:
  "read_at c ino off dst
     = map (\<lambda>i. synth_byte ino (off + of_nat i) (content_seed c)) [0..<length dst]"
  by (rule nth_equalityI) (simp_all add: read_at_def nth_enumerate_eq)

lemma read_at_append:
  "read_at c ino off (d @ d') = read_at c ino off d @ read_at c ino (off + of_nat (length d)) d'"
  by (rule nth_equalityI) (auto simp: read_at_eq_map nth_append add.assoc simp flip: of_nat_add)

lemma read_at_overwrites: "length d = length d' \<Longrightarrow> read_at c ino off d = read_at c ino off d'"
  by (simp add: read_at_eq_map)

lemma write_at_accepts: "write_at c ino off data = Ok n \<Longrightarrow> unat n \<le> length data"
  by (auto simp: write_at_def unat_of_nat)

interpretation dc: content_model "read_at c" "write_at c" for c
  by unfold_locales
    (fact length_read_at read_at_overwrites read_at_append write_at_accepts)+

lemma dc_content_at: "dc.content_at c ino off = synth_byte ino off (content_seed c)"
  by (simp add: dc.content_at_def read_at_eq_map)

section \<open>The byte function\<close>

lemma murmur_factors:
  "(0xff51afd7ed558ccd :: u64) * 0x4f74430c22a54005 = 1"
  "(0xc4ceb9fe1a85ec53 :: u64) * 0x9cb4b2f8129337db = 1"
  by simp_all

lemma murmur_finalize_inj: "murmur_finalize x = murmur_finalize y \<longleftrightarrow> x = y"
proof
  assume eq: "murmur_finalize x = murmur_finalize y"
  have "xor_shift 33 (xor_shift 33 x * 0xff51afd7ed558ccd) * 0xc4ceb9fe1a85ec53
      = xor_shift 33 (xor_shift 33 y * 0xff51afd7ed558ccd) * 0xc4ceb9fe1a85ec53"
    by (rule xor_shift_inj [of 33])
      (use eq in \<open>simp_all only: murmur_finalize_def Let_def zero_less_numeral\<close>)
  then have "xor_shift 33 (xor_shift 33 x * 0xff51afd7ed558ccd)
      = xor_shift 33 (xor_shift 33 y * 0xff51afd7ed558ccd)"
    by (simp only: mult_word_inj [OF murmur_factors(2)])
  then have "xor_shift 33 x * 0xff51afd7ed558ccd = xor_shift 33 y * 0xff51afd7ed558ccd"
    by (rule xor_shift_inj) simp
  then have "xor_shift 33 x = xor_shift 33 y"
    by (simp only: mult_word_inj [OF murmur_factors(1)])
  then show "x = y" by (rule xor_shift_inj) simp
qed simp

section \<open>Properties\<close>

text \<open>The 64-bit word a content byte is cut from is a bijection in each input: changing the
  seed, the inode or the offset alone always changes it.\<close>

theorem synth_word_separates_inputs:
  "(synth_word ino off seed = synth_word ino off seed' \<longleftrightarrow> seed = seed')
   \<and> (synth_word ino off seed = synth_word ino' off seed \<longleftrightarrow> ino = ino')
   \<and> (synth_word ino off seed = synth_word ino off' seed \<longleftrightarrow> off = off')"
  by (simp add: synth_word_def murmur_finalize_inj xor_cancel word_rotl_inj)

text \<open>A file of the deterministic store is one fixed sequence of bytes: two reads of an inode
  return the same byte at every position they share, whatever their offsets, their lengths, the
  previous contents of their buffers and any writes in between are.\<close>

theorem overlapping_reads_agree:
  assumes "i < length d" "j < length d'" "off + of_nat i = off' + of_nat j"
  shows "read_at c ino off d ! i = read_at c ino off' d' ! j"
  by (rule dc.overlapping_reads [OF assms])

theorem overlapping_reads_agree_witness:
  "read_at (DeterministicContent_new 42 4096) 7 10 [0, 0, 0] ! 2
     = read_at (DeterministicContent_new 42 4096) 7 11 [9, 9] ! 1"
  by (rule overlapping_reads_agree) simp_all

text \<open>Reading a range of a file in consecutive chunks of any sizes and concatenating what
  they return gives the bytes that a single read of the whole range returns, position by
  position the synthetic byte of the inode, the offset and the seed.\<close>

theorem chunked_read_eq_whole:
  "dc.read_chunks c ino off ds = read_at c ino off (concat ds)
   \<and> read_at c ino off (concat ds)
       = map (\<lambda>i. synth_byte ino (off + of_nat i) (content_seed c)) [0..<length (concat ds)]"
  by (simp only: dc.read_chunks_eq read_at_eq_map simp_thms)

end
