(* ===== verification/Namespace.thy ===== *)
theory Namespace
  imports Configuration Std_Time
begin

text \<open>
  The virtual directory tree (\<open>fusecraft-core/src/namespace\<close>): the flat layout with its
  six-digit file names, the inode arithmetic, the three operations of the \<open>NamespaceModel\<close>
  trait, and the contract of the trait as the locale \<open>namespace_model\<close>, of which the flat
  layout is an interpretation.

  An \<open>OsStr\<close> is its sequence of bytes, a \<open>string\<close>; \<open>to_str\<close> succeeds on well-formed UTF-8.
  A \<open>DirSink\<close> is a function on the state of the sink: it returns the new state and
  whether the listing goes on.
\<close>

section \<open>Types of the trait\<close>

definition FUSE_ROOT_INO :: u64 where "FUSE_ROOT_INO = 1"

datatype FileKind = Dir | File

record FileAttrSpec =
  attr_ino :: u64
  attr_size :: u64
  attr_kind :: FileKind
  attr_mode :: u32
  attr_nlink :: u32
  attr_uid :: u32
  attr_gid :: u32
  attr_mtime :: system_time

type_synonym os_str = string

text \<open>The arguments of one \<open>push\<close>: inode, offset, kind and name.\<close>

type_synonym dir_entry = "u64 \<times> u64 \<times> FileKind \<times> os_str"

type_synonym 's dir_sink = "'s \<Rightarrow> dir_entry \<Rightarrow> bool \<times> 's"

section \<open>Strings of the standard library\<close>

text \<open>Well-formed UTF-8, the check of \<open>OsStr::to_str\<close>.\<close>

definition utf8_cont :: "char \<Rightarrow> bool" where
  "utf8_cont c \<longleftrightarrow> 0x80 \<le> (of_char c :: nat) \<and> (of_char c :: nat) \<le> 0xBF"

fun utf8_lead :: "nat \<Rightarrow> (nat \<times> nat \<times> nat) option" where
  "utf8_lead b =
     (if b < 0x80 then Some (0, 0, 0)
      else if 0xC2 \<le> b \<and> b \<le> 0xDF then Some (1, 0x80, 0xBF)
      else if b = 0xE0 then Some (2, 0xA0, 0xBF)
      else if b = 0xED then Some (2, 0x80, 0x9F)
      else if 0xE1 \<le> b \<and> b \<le> 0xEF then Some (2, 0x80, 0xBF)
      else if b = 0xF0 then Some (3, 0x90, 0xBF)
      else if 0xF1 \<le> b \<and> b \<le> 0xF3 then Some (3, 0x80, 0xBF)
      else if b = 0xF4 then Some (3, 0x80, 0x8F)
      else None)"

function utf8_valid :: "string \<Rightarrow> bool" where
  "utf8_valid [] = True"
| "utf8_valid (c # s) =
     (case utf8_lead (of_char c) of None \<Rightarrow> False
      | Some (n, lo, hi) \<Rightarrow>
          n \<le> length s
          \<and> (n = 0 \<or> lo \<le> (of_char (s ! 0) :: nat) \<and> (of_char (s ! 0) :: nat) \<le> hi)
          \<and> list_all utf8_cont (take n s) \<and> utf8_valid (drop n s))"
  by pat_completeness auto
termination by (relation "measure length") auto

definition to_str :: "os_str \<Rightarrow> string option" where
  "to_str s = (if utf8_valid s then Some s else None)"

definition is_ascii_digit :: "char \<Rightarrow> bool" where
  "is_ascii_digit c \<longleftrightarrow> 48 \<le> (of_char c :: nat) \<and> (of_char c :: nat) \<le> 57"

text \<open>\<open>str::parse::<u64>\<close>: an optional plus sign, then digits, with an overflow check.\<close>

fun parse_digits :: "nat \<Rightarrow> string \<Rightarrow> nat option" where
  "parse_digits acc [] = Some acc"
| "parse_digits acc (c # s) =
     (if is_ascii_digit c \<and> acc * 10 + (of_char c - 48) < 2 ^ 64
      then parse_digits (acc * 10 + (of_char c - 48)) s else None)"

fun parse_u64 :: "string \<Rightarrow> u64 option" where
  "parse_u64 [] = None"
| "parse_u64 (c # s) =
     (if c = CHR ''+'' then (if s = [] then None else map_option of_nat (parse_digits 0 s))
      else map_option of_nat (parse_digits 0 (c # s)))"

text \<open>The decimal digits of a number, and the format \<open>{n:06}\<close>.\<close>

fun decimal :: "nat \<Rightarrow> string" where
  "decimal n = (if n < 10 then [char_of (48 + n)] else decimal (n div 10) @ [char_of (48 + n mod 10)])"

declare decimal.simps [simp del]

definition format_06 :: "u64 \<Rightarrow> string" where
  "format_06 n = (let s = decimal (unat n) in replicate (6 - length s) CHR ''0'' @ s)"

section \<open>The flat layout\<close>

definition MAX_FILES :: u64 where "MAX_FILES = 1000000"
definition OBJECTS_INO :: u64 where "OBJECTS_INO = 2"
definition FIRST_FILE_INO :: u64 where "FIRST_FILE_INO = 100"

record FlatObjectNamespace =
  ns_inode_count :: u64
  ns_file_size_bytes :: u64
  ns_uid :: u32
  ns_gid :: u32
  ns_ctime :: system_time

text \<open>
  The process credentials and the clock are arguments; the second component says whether the
  warning about the clamped count is printed.
\<close>

definition FlatObjectNamespace_new ::
    "FilesConfig \<Rightarrow> u32 \<Rightarrow> u32 \<Rightarrow> system_time \<Rightarrow> FlatObjectNamespace \<times> bool" where
  "FlatObjectNamespace_new config uid gid now =
     (let count = min (inode_count config) (MAX_FILES - 1);
          warns = MAX_FILES \<le> inode_count config
      in (\<lparr>ns_inode_count = count, ns_file_size_bytes = file_size_bytes config,
           ns_uid = uid, ns_gid = gid, ns_ctime = now\<rparr>, warns))"

definition index_to_name :: "u64 \<Rightarrow> string" where
  "index_to_name n = format_06 n"

definition ino_to_index :: "FlatObjectNamespace \<Rightarrow> u64 \<Rightarrow> u64 option" where
  "ino_to_index ns ino =
     (case checked_sub ino FIRST_FILE_INO of None \<Rightarrow> None
      | Some n \<Rightarrow> then_some (n < ns_inode_count ns) n)"

definition parse_name :: "FlatObjectNamespace \<Rightarrow> os_str \<Rightarrow> u64 option" where
  "parse_name ns nm =
     (case to_str nm of None \<Rightarrow> None
      | Some s \<Rightarrow>
          if length s \<noteq> 6 \<or> \<not> list_all is_ascii_digit s then None
          else (case parse_u64 s of None \<Rightarrow> None
            | Some n \<Rightarrow> then_some (n < ns_inode_count ns) n))"

definition dir_attr :: "FlatObjectNamespace \<Rightarrow> u64 \<Rightarrow> FileAttrSpec" where
  "dir_attr ns ino =
     \<lparr>attr_ino = ino, attr_size = 0, attr_kind = Dir, attr_mode = 0x1ED, attr_nlink = 2,
      attr_uid = ns_uid ns, attr_gid = ns_gid ns, attr_mtime = ns_ctime ns\<rparr>"

definition file_attr :: "FlatObjectNamespace \<Rightarrow> u64 \<Rightarrow> FileAttrSpec" where
  "file_attr ns ino =
     \<lparr>attr_ino = ino, attr_size = ns_file_size_bytes ns, attr_kind = File, attr_mode = 0x1A4,
      attr_nlink = 1, attr_uid = ns_uid ns, attr_gid = ns_gid ns, attr_mtime = ns_ctime ns\<rparr>"

definition lookup :: "FlatObjectNamespace \<Rightarrow> u64 \<Rightarrow> os_str \<Rightarrow> u64 option" where
  "lookup ns parent nm =
     (if parent = FUSE_ROOT_INO then then_some (nm = ''objects'') OBJECTS_INO
      else if parent = OBJECTS_INO then map_option (\<lambda>n. FIRST_FILE_INO + n) (parse_name ns nm)
      else None)"

definition attr :: "FlatObjectNamespace \<Rightarrow> u64 \<Rightarrow> FileAttrSpec option" where
  "attr ns ino =
     (if ino = FUSE_ROOT_INO then Some (dir_attr ns FUSE_ROOT_INO)
      else if ino = OBJECTS_INO then Some (dir_attr ns OBJECTS_INO)
      else if ino_to_index ns ino \<noteq> None then Some (file_attr ns ino)
      else None)"

text \<open>The loop over the root entries.\<close>

fun readdir_root :: "'s dir_sink \<Rightarrow> u64 \<Rightarrow> dir_entry list \<Rightarrow> 's \<Rightarrow> 's" where
  "readdir_root push offset [] s = s"
| "readdir_root push offset ((child, off, kind, nm) # es) s =
     (if off \<le> offset then readdir_root push offset es s
      else let (go, s') = push s (child, off, kind, nm) in
        if \<not> go then s' else readdir_root push offset es s')"

text \<open>The loop over the files.\<close>

function readdir_files :: "'s dir_sink \<Rightarrow> u64 \<Rightarrow> u64 \<Rightarrow> 's \<Rightarrow> 's" where
  "readdir_files push n count s =
     (if n < count then
        let (go, s') = push s (FIRST_FILE_INO + n, n + 3, File, index_to_name n) in
        if \<not> go then s' else readdir_files push (n + 1) count s'
      else s)"
  by pat_completeness auto
termination
  by (relation "measure (\<lambda>(_, n, count, _). unat count - unat n)")
    (auto simp: unat_Suc_no_overflow word_less_nat_alt)

declare readdir_files.simps [simp del]

definition root_entries :: "dir_entry list" where
  "root_entries = [(FUSE_ROOT_INO, 1, Dir, ''.''), (FUSE_ROOT_INO, 2, Dir, ''..''),
     (OBJECTS_INO, 3, Dir, ''objects'')]"

definition readdir ::
    "FlatObjectNamespace \<Rightarrow> 's dir_sink \<Rightarrow> u64 \<Rightarrow> u64 \<Rightarrow> 's \<Rightarrow> unit fs_result \<times> 's" where
  "readdir ns push ino offset s =
     (if ino = FUSE_ROOT_INO then (Ok (), readdir_root push offset root_entries s)
      else if ino = OBJECTS_INO then
        let (go1, s1) = (if offset < 1 then push s (OBJECTS_INO, 1, Dir, ''.'') else (True, s)) in
        if \<not> go1 then (Ok (), s1)
        else let (go2, s2) = (if offset < 2 then push s1 (FUSE_ROOT_INO, 2, Dir, ''..'') else (True, s1)) in
        if \<not> go2 then (Ok (), s2)
        else (Ok (), readdir_files push (saturating_sub offset 2) (ns_inode_count ns) s2)
      else (Err (Errno ENOTDIR), s))"

section \<open>Names and indices\<close>

definition digits_val :: "nat \<Rightarrow> string \<Rightarrow> nat" where
  "digits_val acc s = foldl (\<lambda>a c. a * 10 + (of_char c - 48)) acc s"

lemma digits_val_simps [simp]:
  "digits_val acc [] = acc"
  "digits_val acc (c # s) = digits_val (acc * 10 + (of_char c - 48)) s"
  "digits_val acc (s @ [c]) = digits_val acc s * 10 + (of_char c - 48)"
  by (simp_all add: digits_val_def)

lemma digits_val_ge: "acc \<le> digits_val acc s"
proof (induction s rule: rev_induct)
  case (snoc c s)
  then show ?case by simp
qed simp

lemma parse_digits_eq:
  "list_all is_ascii_digit s \<Longrightarrow> digits_val acc s < 2 ^ 64 \<Longrightarrow> parse_digits acc s = Some (digits_val acc s)"
proof (induction s arbitrary: acc)
  case (Cons c s)
  then show ?case
    using digits_val_ge [of "acc * 10 + (of_char c - 48)" s] by (simp add: le_less_trans)
qed simp

lemma digit_less_10: "is_ascii_digit c \<Longrightarrow> of_char c - 48 < (10 :: nat)"
  by (auto simp: is_ascii_digit_def)

lemma digits_val_bound: "list_all is_ascii_digit s \<Longrightarrow> digits_val 0 s < 10 ^ length s"
proof (induction s rule: rev_induct)
  case (snoc c s)
  then have "digits_val 0 s + 1 \<le> 10 ^ length s" "of_char c - 48 < (10 :: nat)"
    by (simp_all add: digit_less_10)
  then show ?case by simp
qed simp

lemma digits_val_inj:
  assumes "length s = length t" "list_all is_ascii_digit s" "list_all is_ascii_digit t"
    and "digits_val 0 s = digits_val 0 t"
  shows "s = t"
  using assms
proof (induction s arbitrary: t rule: rev_induct)
  case (snoc c s)
  then obtain t' d where t: "t = t' @ [d]" by (cases t rule: rev_cases) auto
  have d: "of_char c - 48 < (10 :: nat)" "of_char d - 48 < (10 :: nat)"
    "48 \<le> (of_char c :: nat)" "48 \<le> (of_char d :: nat)"
    using snoc.prems t by (simp_all add: digit_less_10 is_ascii_digit_def)
  have "digits_val 0 s * 10 + (of_char c - 48) = digits_val 0 t' * 10 + (of_char d - 48)"
    using snoc.prems(4) t by simp
  moreover from this have "digits_val 0 s = digits_val 0 t'" using d(1,2) by linarith
  ultimately have "digits_val 0 s = digits_val 0 t'" "of_char c - 48 = (of_char d - 48 :: nat)"
    by simp_all
  moreover from this have "(of_char c :: nat) = of_char d" using d(3,4) by linarith
  ultimately show ?case using snoc t by simp
qed simp

lemma of_char_digit: "n < 10 \<Longrightarrow> of_char (char_of (48 + n) :: char) = (48 + n :: nat)"
  by simp

lemma is_ascii_digit_char_of: "n < 10 \<Longrightarrow> is_ascii_digit (char_of (48 + n))" for n :: nat
  by (simp add: is_ascii_digit_def)

lemma decimal_digits: "list_all is_ascii_digit (decimal n)"
proof (induction n rule: decimal.induct)
  case (1 n)
  then show ?case
    using is_ascii_digit_char_of [of n] is_ascii_digit_char_of [of "n mod 10"]
    by (subst decimal.simps) (simp del: of_char_of)
qed

lemma digits_val_decimal: "digits_val 0 (decimal n) = n"
proof (induction n rule: decimal.induct)
  case (1 n)
  then show ?case
    using of_char_digit [of n] of_char_digit [of "n mod 10"]
    by (subst decimal.simps) (simp del: of_char_of)
qed

lemma length_decimal: "n < 10 ^ Suc k \<Longrightarrow> length (decimal n) \<le> Suc k"
proof (induction k arbitrary: n)
  case 0
  then show ?case by (simp add: decimal.simps)
next
  case (Suc k)
  then have "n div 10 < 10 ^ Suc k" by auto
  with Suc.IH show ?case by (subst decimal.simps) auto
qed

lemma digits_val_zeros: "digits_val 0 (replicate k (CHR ''0'') @ s) = digits_val 0 s"
  by (induction k) simp_all

lemma format_06_digits: "list_all is_ascii_digit (format_06 n)"
  by (simp add: format_06_def Let_def decimal_digits list_all_iff is_ascii_digit_def)
    (use decimal_digits in \<open>auto simp: list_all_iff is_ascii_digit_def\<close>)

lemma digits_val_format_06: "digits_val 0 (format_06 n) = unat n"
  by (simp add: format_06_def Let_def digits_val_zeros digits_val_decimal)

lemma length_format_06: "n < MAX_FILES \<Longrightarrow> length (format_06 n) = 6"
  using length_decimal [of "unat n" 5]
  by (simp add: format_06_def Let_def MAX_FILES_def word_less_nat_alt)

lemma utf8_valid_digits: "list_all is_ascii_digit s \<Longrightarrow> utf8_valid s"
  by (induction s) (auto simp: is_ascii_digit_def)

definition wf_ns :: "FlatObjectNamespace \<Rightarrow> bool" where
  "wf_ns ns \<longleftrightarrow> ns_inode_count ns < MAX_FILES"

lemma wf_ns_new: "wf_ns (fst (FlatObjectNamespace_new c u g t))"
  by (auto simp: FlatObjectNamespace_new_def wf_ns_def MAX_FILES_def min_def Let_def intro: le_less_trans)

lemma parse_u64_digits:
  assumes "list_all is_ascii_digit s" "length s = 6"
  shows "parse_u64 s = Some (of_nat (digits_val 0 s))"
proof -
  have "digits_val 0 s < 2 ^ 64" using digits_val_bound [OF assms(1)] assms(2) by simp
  moreover obtain c t where s: "s = c # t" using assms(2) by (cases s) auto
  moreover have "c \<noteq> CHR ''+''" using assms(1) s by (auto simp: is_ascii_digit_def)
  ultimately show ?thesis using parse_digits_eq [of s 0] assms(1) by simp
qed

lemma parse_name_iff:
  assumes "wf_ns ns"
  shows "parse_name ns nm = Some n \<longleftrightarrow> n < ns_inode_count ns \<and> nm = index_to_name n"
proof
  assume *: "parse_name ns nm = Some n"
  then have d: "list_all is_ascii_digit nm" "length nm = 6"
    by (auto simp: parse_name_def to_str_def split: if_splits)
  then have n: "n = of_nat (digits_val 0 nm)" "n < ns_inode_count ns"
    using * parse_u64_digits [OF d] utf8_valid_digits [OF d(1)]
    by (auto simp: parse_name_def to_str_def)
  have "unat n = digits_val 0 nm"
    using digits_val_bound [OF d(1)] d(2) by (simp add: n(1) unat_of_nat)
  moreover have "n < MAX_FILES" using n(2) assms by (simp add: wf_ns_def)
  ultimately have "nm = format_06 n"
    by (intro digits_val_inj) (simp_all add: d format_06_digits length_format_06 digits_val_format_06)
  then show "n < ns_inode_count ns \<and> nm = index_to_name n" using n by (simp add: index_to_name_def)
next
  assume *: "n < ns_inode_count ns \<and> nm = index_to_name n"
  then have "n < MAX_FILES" using assms by (auto simp: wf_ns_def)
  then have l: "length (format_06 n) = 6" by (rule length_format_06)
  show "parse_name ns nm = Some n"
    using * parse_u64_digits [OF format_06_digits l] l
    by (simp add: parse_name_def to_str_def index_to_name_def format_06_digits utf8_valid_digits
        digits_val_format_06)
qed

section \<open>The contract of the trait\<close>

definition entry_off :: "dir_entry \<Rightarrow> u64" where
  "entry_off e = fst (snd e)"

text \<open>Push entries until the sink stops the listing.\<close>

fun push_while :: "'s dir_sink \<Rightarrow> dir_entry list \<Rightarrow> 's \<Rightarrow> 's" where
  "push_while push [] s = s"
| "push_while push (e # es) s =
     (let (go, s') = push s e in if go then push_while push es s' else s')"

text \<open>A sink that stops the listing once it holds \<open>k\<close> entries.\<close>

definition bounded_sink :: "nat \<Rightarrow> dir_entry list dir_sink" where
  "bounded_sink k = (\<lambda>acc e. (Suc (length acc) < k, acc @ [e]))"

lemma push_while_bounded:
  "length acc < k \<Longrightarrow> push_while (bounded_sink k) es acc = acc @ take (k - length acc) es"
proof (induction es arbitrary: acc)
  case (Cons e es)
  then show ?case
    by (cases "Suc (length acc) < k") (auto simp: bounded_sink_def take_Cons' not_less)
qed simp

abbreviation offsets_ascend :: "dir_entry list \<Rightarrow> bool" where
  "offsets_ascend \<equiv> sorted_wrt (\<lambda>e e'. entry_off e < entry_off e')"

lemma filter_after_nth:
  assumes "offsets_ascend xs" "j < length xs"
  shows "filter (\<lambda>e. entry_off (xs ! j) < entry_off e) xs = drop (Suc j) xs"
proof -
  have xs: "xs = take j xs @ xs ! j # drop (Suc j) xs" using assms(2) by (rule id_take_nth_drop)
  then have s: "offsets_ascend (take j xs @ xs ! j # drop (Suc j) xs)" using assms(1) by simp
  then have "filter (\<lambda>e. entry_off (xs ! j) < entry_off e) (take j xs @ xs ! j # drop (Suc j) xs)
      = drop (Suc j) xs"
    by (fastforce simp: sorted_wrt_append filter_empty_conv filter_id_conv intro: less_asym)
  with xs show ?thesis by simp
qed

text \<open>After a page of at most \<open>k\<close> entries the entries behind its last offset are the rest.\<close>

lemma filter_after_page:
  assumes "offsets_ascend es" "fs = filter (\<lambda>e. off < entry_off e) es" "take k fs \<noteq> []"
  shows "filter (\<lambda>e. entry_off (last (take k fs)) < entry_off e) es = drop k fs"
proof -
  define j where "j = min (length fs) k - 1"
  have j: "j < length fs" "last (take k fs) = fs ! j" "drop (Suc j) fs = drop k fs"
    using assms(3) by (auto simp: j_def last_conv_nth min_def)
  have s: "offsets_ascend fs" using assms(1,2) by (simp add: sorted_wrt_filter)
  have "fs ! j \<in> set fs" using j(1) by simp
  then have "off < entry_off (fs ! j)" using assms(2) by auto
  then have "filter (\<lambda>e. entry_off (fs ! j) < entry_off e) es
      = filter (\<lambda>e. entry_off (fs ! j) < entry_off e) fs"
    by (auto simp: assms(2) intro!: filter_cong)
  then show ?thesis using filter_after_nth [OF s j(1)] j(2,3) by simp
qed

locale namespace_model =
  fixes ns_lookup :: "u64 \<Rightarrow> os_str \<Rightarrow> u64 option"
    and ns_attr :: "u64 \<Rightarrow> FileAttrSpec option"
    and ns_entries :: "u64 \<Rightarrow> dir_entry list option"
    and ns_readdir :: "dir_entry list dir_sink \<Rightarrow> u64 \<Rightarrow> u64 \<Rightarrow> dir_entry list
      \<Rightarrow> unit fs_result \<times> dir_entry list"
  assumes attr_same_ino: "ns_attr i = Some a \<Longrightarrow> attr_ino a = i"
    and entries_iff_dir: "(\<exists>es. ns_entries i = Some es) \<longleftrightarrow> (\<exists>a. ns_attr i = Some a \<and> attr_kind a = Dir)"
    and entries_ascend: "ns_entries i = Some es \<Longrightarrow> offsets_ascend es \<and> (\<forall>e\<in>set es. 0 < entry_off e)"
    and readdir_pushes: "ns_readdir push i off s =
      (case ns_entries i of None \<Rightarrow> (Err (Errno ENOTDIR), s)
       | Some es \<Rightarrow> (Ok (), push_while push (filter (\<lambda>e. off < entry_off e) es) s))"
    and entry_resolves: "ns_entries d = Some es \<Longrightarrow> (i, off, k, nm) \<in> set es \<Longrightarrow>
      (\<exists>a. ns_attr i = Some a \<and> attr_kind a = k)
      \<and> (nm \<noteq> ''.'' \<and> nm \<noteq> ''..'' \<longrightarrow> ns_lookup d nm = Some i)"
    and lookup_listed: "ns_lookup d nm = Some i \<Longrightarrow>
      \<exists>es off k. ns_entries d = Some es \<and> (i, off, k, nm) \<in> set es"
begin

text \<open>Resolving a path component by component.\<close>

fun resolve :: "u64 \<Rightarrow> os_str list \<Rightarrow> u64 option" where
  "resolve i [] = Some i"
| "resolve i (nm # nms) = (case ns_lookup i nm of None \<Rightarrow> None | Some j \<Rightarrow> resolve j nms)"

lemma lookup_has_attr:
  assumes "ns_lookup d nm = Some i"
  shows "\<exists>a. ns_attr i = Some a \<and> attr_ino a = i"
    and "\<exists>a. ns_attr d = Some a \<and> attr_kind a = Dir"
  using lookup_listed [OF assms] entry_resolves attr_same_ino entries_iff_dir by blast+

lemma resolve_has_attr:
  "ns_attr i \<noteq> None \<Longrightarrow> resolve i nms = Some j \<Longrightarrow> \<exists>a. ns_attr j = Some a \<and> attr_ino a = j"
proof (induction i nms rule: resolve.induct)
  case (1 i)
  then show ?case using attr_same_ino by auto
next
  case (2 i nm nms)
  then obtain m where m: "ns_lookup i nm = Some m" "resolve m nms = Some j"
    by (auto split: option.splits)
  with lookup_has_attr(1) have "ns_attr m \<noteq> None" by fastforce
  with 2(1) m show ?case by blast
qed

lemma readdir_not_dir:
  "\<not> (\<exists>a. ns_attr i = Some a \<and> attr_kind a = Dir) \<Longrightarrow> ns_readdir push i off s = (Err (Errno ENOTDIR), s)"
  using entries_iff_dir [of i] by (auto simp: readdir_pushes split: option.splits)

lemma readdir_bounded:
  assumes "ns_entries d = Some es" "0 < k"
  shows "ns_readdir (bounded_sink k) d off [] = (Ok (), take k (filter (\<lambda>e. off < entry_off e) es))"
  using assms push_while_bounded [of "[]" k] by (simp add: readdir_pushes)

text \<open>
  List a directory in pages of at most \<open>k\<close> entries, continuing after the last offset of each
  page until a page is empty.
\<close>

fun list_pages :: "nat \<Rightarrow> nat \<Rightarrow> u64 \<Rightarrow> u64 \<Rightarrow> dir_entry list" where
  "list_pages 0 k d off = []"
| "list_pages (Suc fuel) k d off =
     (let page = snd (ns_readdir (bounded_sink k) d off []) in
      if page = [] then [] else page @ list_pages fuel k d (entry_off (last page)))"

lemma list_pages_from:
  assumes "ns_entries d = Some es" "0 < k"
  shows "length (filter (\<lambda>e. off < entry_off e) es) < fuel \<Longrightarrow>
    list_pages fuel k d off = filter (\<lambda>e. off < entry_off e) es"
proof (induction fuel arbitrary: off)
  case (Suc fuel)
  define fs where "fs = filter (\<lambda>e. off < entry_off e) es"
  have r: "snd (ns_readdir (bounded_sink k) d off []) = take k fs"
    by (simp add: readdir_bounded [OF assms] fs_def)
  show ?case
  proof (cases "fs = []")
    case True
    then show ?thesis using r by (simp add: fs_def)
  next
    case False
    then have ne: "take k fs \<noteq> []" using assms(2) by simp
    have rest: "filter (\<lambda>e. entry_off (last (take k fs)) < entry_off e) es = drop k fs"
      by (rule filter_after_page [OF _ fs_def ne]) (use entries_ascend [OF assms(1)] in simp)
    have "length (drop k fs) < fuel"
      using Suc.prems False assms(2) by (cases fs) (auto simp: fs_def [symmetric])
    then have "list_pages fuel k d (entry_off (last (take k fs))) = drop k fs"
      using Suc.IH [of "entry_off (last (take k fs))"] rest by simp
    then show ?thesis using ne by (simp add: r fs_def [symmetric])
  qed
qed simp

lemma list_pages_all:
  assumes "ns_entries d = Some es" "0 < k" "length es < fuel"
  shows "list_pages fuel k d 0 = es"
proof -
  have "filter (\<lambda>e. 0 < entry_off e) es = es"
    using entries_ascend [OF assms(1)] by (simp add: filter_id_conv)
  then show ?thesis using list_pages_from [OF assms(1,2), of 0 fuel] assms(3) by simp
qed

end

section \<open>The flat layout keeps the contract\<close>

definition file_entry :: "nat \<Rightarrow> dir_entry" where
  "file_entry n = (FIRST_FILE_INO + of_nat n, of_nat n + 3, File, index_to_name (of_nat n))"

definition objects_entries :: "FlatObjectNamespace \<Rightarrow> dir_entry list" where
  "objects_entries ns = (OBJECTS_INO, 1, Dir, ''.'') # (FUSE_ROOT_INO, 2, Dir, ''..'')
     # map file_entry [0..<unat (ns_inode_count ns)]"

definition dir_entries :: "FlatObjectNamespace \<Rightarrow> u64 \<Rightarrow> dir_entry list option" where
  "dir_entries ns ino =
     (if ino = FUSE_ROOT_INO then Some root_entries
      else if ino = OBJECTS_INO then Some (objects_entries ns) else None)"

lemma readdir_root_eq:
  "readdir_root push off es s = push_while push (filter (\<lambda>e. off < entry_off e) es) s"
  by (induction push off es s rule: readdir_root.induct)
    (auto simp: entry_off_def split: prod.splits)

lemma file_entry_unat:
  "file_entry (unat n) = (FIRST_FILE_INO + n, n + 3, File, index_to_name n)"
  by (simp add: file_entry_def)

lemma readdir_files_eq:
  "readdir_files push n count s
     = push_while push (map file_entry [unat n..<unat count]) s"
proof (induction push n count s rule: readdir_files.induct)
  case (1 push n count s)
  show ?case
  proof (cases "n < count")
    case True
    then have "[unat n..<unat count] = unat n # [unat (n + 1)..<unat count]"
      by (simp add: upt_conv_Cons word_less_nat_alt unat_Suc_no_overflow [OF True])
    then show ?thesis
      using 1 True by (subst readdir_files.simps) (auto simp: file_entry_unat split: prod.splits)
  next
    case False
    then show ?thesis by (subst readdir_files.simps) (simp add: word_less_nat_alt)
  qed
qed

lemma filter_upt_ge: "filter (\<lambda>n. k \<le> n) [0..<c] = [k..<c]"
  by (induction c) auto

lemma file_entry_off:
  "n < 1000000 \<Longrightarrow> unat (entry_off (file_entry n)) = n + 3"
  by (simp add: entry_off_def file_entry_def unat_word_ariths unat_of_nat)

lemma unat_count:
  "wf_ns ns \<Longrightarrow> unat (ns_inode_count ns) < 1000000"
  by (simp add: wf_ns_def MAX_FILES_def word_less_nat_alt)

lemma filter_files:
  assumes "wf_ns ns"
  shows "filter (\<lambda>e. off < entry_off e) (map file_entry [0..<unat (ns_inode_count ns)])
    = map file_entry [unat (saturating_sub off 2)..<unat (ns_inode_count ns)]"
proof -
  have "filter (\<lambda>n. off < entry_off (file_entry n)) [0..<unat (ns_inode_count ns)]
      = filter (\<lambda>n. unat (saturating_sub off 2) \<le> n) [0..<unat (ns_inode_count ns)]"
    using unat_count [OF assms]
    by (intro filter_cong) (auto simp: word_less_nat_alt file_entry_off unat_saturating_sub)
  then show ?thesis by (simp add: filter_map o_def filter_upt_ge)
qed

lemma readdir_eq:
  assumes "wf_ns ns"
  shows "readdir ns push ino off s =
    (case dir_entries ns ino of None \<Rightarrow> (Err (Errno ENOTDIR), s)
     | Some es \<Rightarrow> (Ok (), push_while push (filter (\<lambda>e. off < entry_off e) es) s))"
proof -
  have o: "entry_off (OBJECTS_INO, 1, Dir, ''.'') = 1" "entry_off (FUSE_ROOT_INO, 2, Dir, ''..'') = 2"
    by (simp_all add: entry_off_def)
  have n: "FUSE_ROOT_INO \<noteq> OBJECTS_INO" by (simp add: FUSE_ROOT_INO_def OBJECTS_INO_def)
  show ?thesis
    by (auto simp: readdir_def dir_entries_def readdir_root_eq readdir_files_eq objects_entries_def
        filter_files [OF assms] o n Let_def split: prod.splits)
qed

lemma file_entry_less: "m < n \<Longrightarrow> n < 1000000 \<Longrightarrow> entry_off (file_entry m) < entry_off (file_entry n)"
  by (simp add: word_less_nat_alt file_entry_off)

lemma dir_entries_ascend:
  assumes "wf_ns ns" "dir_entries ns i = Some es"
  shows "offsets_ascend es \<and> (\<forall>e\<in>set es. 0 < entry_off e)"
proof (cases "i = FUSE_ROOT_INO")
  case True
  then show ?thesis using assms(2) by (auto simp: dir_entries_def root_entries_def entry_off_def)
next
  case False
  then have es: "es = objects_entries ns" using assms(2) by (simp add: dir_entries_def split: if_splits)
  have c: "unat (ns_inode_count ns) < 1000000" by (rule unat_count [OF assms(1)])
  have f: "2 < entry_off (file_entry n)" if "n < unat (ns_inode_count ns)" for n
    using that c by (simp add: word_less_nat_alt file_entry_off)
  then have "1 < entry_off (file_entry n)" "0 < entry_off (file_entry n)"
    if "n < unat (ns_inode_count ns)" for n
    using that by (force simp: word_less_nat_alt)+
  moreover have "offsets_ascend (map file_entry [0..<unat (ns_inode_count ns)])"
    using c by (auto simp: sorted_wrt_map intro!: sorted_wrt_mono_rel [OF _ sorted_wrt_upt] file_entry_less)
  ultimately show ?thesis
    using f by (auto simp: es objects_entries_def entry_off_def [of "(_, _)"])
qed

lemma ino_to_index_file:
  assumes "wf_ns ns" "n < ns_inode_count ns"
  shows "ino_to_index ns (FIRST_FILE_INO + n) = Some n"
proof -
  have "unat n < 1000000" using assms unat_count [OF assms(1)] by (simp add: word_less_nat_alt)
  then have "unat (100 + n) = 100 + unat n" by (simp add: unat_word_ariths)
  then show ?thesis
    using assms(2) by (simp add: ino_to_index_def checked_sub_def FIRST_FILE_INO_def word_le_nat_alt)
qed

lemma ino_to_index_dirs: "ino_to_index ns FUSE_ROOT_INO = None" "ino_to_index ns OBJECTS_INO = None"
  by (simp_all add: ino_to_index_def checked_sub_def FUSE_ROOT_INO_def OBJECTS_INO_def
      FIRST_FILE_INO_def word_le_nat_alt)

lemma file_ino_not_dir:
  assumes "wf_ns ns" "n < ns_inode_count ns"
  shows "FIRST_FILE_INO + n \<noteq> FUSE_ROOT_INO" "FIRST_FILE_INO + n \<noteq> OBJECTS_INO"
  using ino_to_index_file [OF assms] ino_to_index_dirs [of ns] by auto

lemma attr_file:
  assumes "wf_ns ns" "n < ns_inode_count ns"
  shows "attr ns (FIRST_FILE_INO + n) = Some (file_attr ns (FIRST_FILE_INO + n))"
  using ino_to_index_file [OF assms] file_ino_not_dir [OF assms] by (simp add: attr_def)

lemma lookup_objects_iff:
  "wf_ns ns \<Longrightarrow> lookup ns OBJECTS_INO nm = Some i
     \<longleftrightarrow> (\<exists>n. n < ns_inode_count ns \<and> nm = index_to_name n \<and> i = FIRST_FILE_INO + n)"
  by (auto simp: lookup_def parse_name_iff FUSE_ROOT_INO_def OBJECTS_INO_def)

lemma lookup_root_iff: "lookup ns FUSE_ROOT_INO nm = Some i \<longleftrightarrow> nm = ''objects'' \<and> i = OBJECTS_INO"
  by (auto simp: lookup_def)

lemma dir_inos_distinct: "OBJECTS_INO \<noteq> FUSE_ROOT_INO"
  by (simp add: FUSE_ROOT_INO_def OBJECTS_INO_def)

lemma in_objects_entries:
  "e \<in> set (objects_entries ns) \<longleftrightarrow>
     e = (OBJECTS_INO, 1, Dir, ''.'') \<or> e = (FUSE_ROOT_INO, 2, Dir, ''..'')
     \<or> (\<exists>n < ns_inode_count ns. e = (FIRST_FILE_INO + n, n + 3, File, index_to_name n))"
proof -
  have u: "unat (of_nat m :: u64) = m" if "m < unat c" for m and c :: u64
    using that unat_bound [of c] by (simp add: unat_of_nat)
  have "(\<exists>m < unat c. e = file_entry m) \<longleftrightarrow> (\<exists>n < c. e = file_entry (unat n))" for c :: u64
    by (metis u word_less_nat_alt)
  then show ?thesis by (auto simp: objects_entries_def file_entry_unat image_iff Bex_def)
qed

lemma attr_dir_iff: "(\<exists>a. attr ns i = Some a \<and> attr_kind a = Dir) \<longleftrightarrow> i = FUSE_ROOT_INO \<or> i = OBJECTS_INO"
  by (auto simp: attr_def dir_attr_def file_attr_def)

lemma attr_has_ino: "attr ns i = Some a \<Longrightarrow> attr_ino a = i"
  by (auto simp: attr_def dir_attr_def file_attr_def split: if_splits)

lemma dir_entries_resolve:
  assumes "wf_ns ns" "dir_entries ns d = Some es" "(i, off, k, nm) \<in> set es"
  shows "(\<exists>a. attr ns i = Some a \<and> attr_kind a = k)
    \<and> (nm \<noteq> ''.'' \<and> nm \<noteq> ''..'' \<longrightarrow> lookup ns d nm = Some i)"
proof (cases "d = FUSE_ROOT_INO")
  case True
  then show ?thesis
    using assms(2,3) by (auto simp: dir_entries_def root_entries_def attr_def dir_attr_def lookup_def)
next
  case False
  then have d: "d = OBJECTS_INO" "es = objects_entries ns"
    using assms(2) by (simp_all add: dir_entries_def split: if_splits)
  consider "(i, off, k, nm) = (OBJECTS_INO, 1, Dir, ''.'')"
    | "(i, off, k, nm) = (FUSE_ROOT_INO, 2, Dir, ''..'')"
    | n where "n < ns_inode_count ns"
      "(i, off, k, nm) = (FIRST_FILE_INO + n, n + 3, File, index_to_name n)"
    using assms(3) unfolding d in_objects_entries by blast
  then show ?thesis
  proof cases
    case 3
    then show ?thesis
      using attr_file [OF assms(1) 3(1)] lookup_objects_iff [OF assms(1)]
      by (auto simp: d(1) file_attr_def)
  qed (simp_all add: attr_def dir_attr_def)
qed

lemma lookup_is_listed:
  assumes "wf_ns ns" "lookup ns d nm = Some i"
  shows "\<exists>es off k. dir_entries ns d = Some es \<and> (i, off, k, nm) \<in> set es"
proof (cases "d = FUSE_ROOT_INO")
  case True
  then show ?thesis using assms(2) by (auto simp: lookup_root_iff dir_entries_def root_entries_def)
next
  case False
  then have d: "d = OBJECTS_INO" using assms(2) by (simp add: lookup_def split: if_splits)
  then show ?thesis
    using assms(2) by (auto simp: lookup_objects_iff [OF assms(1)] dir_entries_def dir_inos_distinct
        in_objects_entries)
qed

text \<open>
  The contract holds for every namespace with a representable file count; the definitions of
  the locale are used at the clamped namespace, where it always holds.
\<close>

definition clamp_ns :: "FlatObjectNamespace \<Rightarrow> FlatObjectNamespace" where
  "clamp_ns ns = ns\<lparr>ns_inode_count := min (ns_inode_count ns) (MAX_FILES - 1)\<rparr>"

lemma wf_clamp_ns: "wf_ns (clamp_ns ns)"
  by (auto simp: clamp_ns_def wf_ns_def MAX_FILES_def min_def intro: le_less_trans)

lemma clamp_ns_wf: "wf_ns ns \<Longrightarrow> clamp_ns ns = ns"
  by (cases ns) (auto simp: clamp_ns_def wf_ns_def MAX_FILES_def word_less_nat_alt word_le_nat_alt min_def)

interpretation flat: namespace_model "lookup (clamp_ns ns)" "attr (clamp_ns ns)"
  "dir_entries (clamp_ns ns)" "readdir (clamp_ns ns)" for ns
proof unfold_locales
  show "(\<exists>es. dir_entries (clamp_ns ns) i = Some es)
      \<longleftrightarrow> (\<exists>a. attr (clamp_ns ns) i = Some a \<and> attr_kind a = Dir)" for i
    by (auto simp: attr_dir_iff dir_entries_def)
qed (fact attr_has_ino dir_entries_ascend [OF wf_clamp_ns] readdir_eq [OF wf_clamp_ns]
    dir_entries_resolve [OF wf_clamp_ns] lookup_is_listed [OF wf_clamp_ns])+

section \<open>Properties\<close>

text \<open>A sink that takes every entry, the \<open>Collector\<close> of the mount.\<close>

definition collect_all :: "dir_entry list dir_sink" where
  "collect_all acc e = (True, acc @ [e])"

lemma push_while_collect: "push_while collect_all es acc = acc @ es"
  by (induction es arbitrary: acc) (simp_all add: collect_all_def)

lemma readdir_collect:
  "wf_ns ns \<Longrightarrow> dir_entries ns d = Some es \<Longrightarrow>
     readdir ns collect_all d off acc = (Ok (), acc @ filter (\<lambda>e. off < entry_off e) es)"
  by (simp add: readdir_eq push_while_collect)

lemma index_to_name_not_dots:
  "n < MAX_FILES \<Longrightarrow> index_to_name n \<noteq> ''.'' \<and> index_to_name n \<noteq> ''..''"
  using length_format_06 [of n] by (auto simp: index_to_name_def)

lemma lookup_no_dots:
  assumes "wf_ns ns" "lookup ns d nm = Some i"
  shows "nm \<noteq> ''.'' \<and> nm \<noteq> ''..''"
proof (cases "d = FUSE_ROOT_INO")
  case True
  then show ?thesis using assms(2) by (auto simp: lookup_root_iff)
next
  case False
  then have "d = OBJECTS_INO" using assms(2) by (simp add: lookup_def split: if_splits)
  then obtain n where "n < ns_inode_count ns" "nm = index_to_name n"
    using assms(2) by (auto simp: lookup_objects_iff [OF assms(1)])
  then show ?thesis using index_to_name_not_dots [of n] assms(1) by (auto simp: wf_ns_def)
qed

text \<open>C28. File names and file indices are in bijection in every namespace the constructor
  builds: a name parses to an index exactly when it is the six-digit name of that index and the
  index is in range, and a lookup in the object directory finds the inode of that index.\<close>

theorem names_and_indices_biject:
  fixes config :: FilesConfig and uid gid :: u32 and now :: system_time
  defines "ns \<equiv> fst (FlatObjectNamespace_new config uid gid now)"
  shows "(parse_name ns nm = Some n \<longleftrightarrow> n < ns_inode_count ns \<and> nm = index_to_name n)
    \<and> (lookup ns OBJECTS_INO nm = Some i
      \<longleftrightarrow> (\<exists>n. n < ns_inode_count ns \<and> nm = index_to_name n \<and> i = FIRST_FILE_INO + n))"
  unfolding ns_def by (intro conjI parse_name_iff [OF wf_ns_new] lookup_objects_iff [OF wf_ns_new])

lemma attr_kinds: "attr_kind (dir_attr ns i) = Dir" "attr_kind (file_attr ns i) = File"
  by (simp_all add: dir_attr_def file_attr_def)

text \<open>The inodes of a namespace are the root, the object directory and one inode per file,
  without wrap-around: an inode has attributes exactly when it is one of these, the attributes
  carry the inode asked for, and it is a regular file exactly when it is in the file range.\<close>

theorem inode_space:
  assumes "wf_ns ns"
  shows "(attr ns i \<noteq> None \<longleftrightarrow> unat i = 1 \<or> unat i = 2
      \<or> 100 \<le> unat i \<and> unat i < 100 + unat (ns_inode_count ns))
    \<and> (attr ns i = Some a \<longrightarrow> attr_ino a = i \<and> (attr_kind a = File \<longleftrightarrow> 100 \<le> unat i))"
proof (intro conjI impI)
  have dirs: "i = FUSE_ROOT_INO \<longleftrightarrow> unat i = 1" "i = OBJECTS_INO \<longleftrightarrow> unat i = 2"
    by (auto simp: FUSE_ROOT_INO_def OBJECTS_INO_def word_unat_eq_iff)
  have files: "ino_to_index ns i \<noteq> None \<longleftrightarrow> 100 \<le> unat i \<and> unat i < 100 + unat (ns_inode_count ns)"
    by (auto simp: ino_to_index_def checked_sub_def FIRST_FILE_INO_def word_le_nat_alt
        word_less_nat_alt unat_sub)
  show "attr ns i \<noteq> None \<longleftrightarrow> unat i = 1 \<or> unat i = 2
      \<or> 100 \<le> unat i \<and> unat i < 100 + unat (ns_inode_count ns)"
    using dirs files by (auto simp: attr_def)
  show "attr_ino a = i" if "attr ns i = Some a" by (rule attr_has_ino [OF that])
  show "attr_kind a = File \<longleftrightarrow> 100 \<le> unat i" if "attr ns i = Some a"
    using that dirs files by (auto simp: attr_def attr_kinds split: if_splits)
qed

definition small_ns :: FlatObjectNamespace where
  "small_ns = fst (FlatObjectNamespace_new (FilesConfig_default\<lparr>inode_count := 12\<rparr>) 0 0 0)"

lemma wf_small_ns: "wf_ns small_ns"
  unfolding small_ns_def by (rule wf_ns_new)

theorem inode_space_witness: "attr small_ns 111 \<noteq> None \<and> attr small_ns 112 = None"
  using inode_space [OF wf_small_ns, of 111] inode_space [OF wf_small_ns, of 112]
  by (simp add: small_ns_def FlatObjectNamespace_new_def FilesConfig_default_def MAX_FILES_def min_def
      word_le_nat_alt)

lemma in_full_listing:
  assumes "wf_ns ns"
  shows "e \<in> set (snd (readdir ns collect_all d 0 []))
    \<longleftrightarrow> (\<exists>es. dir_entries ns d = Some es \<and> e \<in> set es)"
proof (cases "dir_entries ns d")
  case None
  then show ?thesis by (simp add: readdir_eq [OF assms])
next
  case (Some es)
  then show ?thesis
    using readdir_collect [OF assms Some, of 0 "[]"] dir_entries_ascend [OF assms Some]
    by (simp add: filter_id_conv)
qed

text \<open>C29. Lookup and directory listing describe the same tree: a name resolves to an inode in a
  directory exactly when the full listing of that directory has an entry for it that is neither
  of the dot entries, and the kind of every listed entry is the kind in its attributes.\<close>

theorem lookup_agrees_with_readdir:
  assumes "wf_ns ns"
  shows "(lookup ns d nm = Some i \<longleftrightarrow> nm \<noteq> ''.'' \<and> nm \<noteq> ''..''
      \<and> (\<exists>off k. (i, off, k, nm) \<in> set (snd (readdir ns collect_all d 0 []))))
    \<and> ((i, off, k, nm) \<in> set (snd (readdir ns collect_all d 0 []))
        \<longrightarrow> (\<exists>a. attr ns i = Some a \<and> attr_kind a = k))"
proof (intro conjI impI)
  show "lookup ns d nm = Some i \<longleftrightarrow> nm \<noteq> ''.'' \<and> nm \<noteq> ''..''
      \<and> (\<exists>off k. (i, off, k, nm) \<in> set (snd (readdir ns collect_all d 0 [])))"
    unfolding in_full_listing [OF assms]
    using lookup_is_listed [OF assms] dir_entries_resolve [OF assms] lookup_no_dots [OF assms] by blast
  show "\<exists>a. attr ns i = Some a \<and> attr_kind a = k"
    if "(i, off, k, nm) \<in> set (snd (readdir ns collect_all d 0 []))"
    using that dir_entries_resolve [OF assms] unfolding in_full_listing [OF assms] by blast
qed

theorem lookup_agrees_with_readdir_witness:
  "\<exists>off k. (OBJECTS_INO, off, k, ''objects'') \<in> set (snd (readdir small_ns collect_all FUSE_ROOT_INO 0 []))"
  using lookup_agrees_with_readdir [OF wf_small_ns, of FUSE_ROOT_INO "''objects''" OBJECTS_INO]
  by (simp add: lookup_def)

text \<open>A listing started at any offset pushes, in order and until the sink stops it, exactly
  the entries of the directory whose offsets are larger, for every sink; on an inode that is
  not a directory it fails with ENOTDIR and does not touch the sink.\<close>

theorem readdir_resumes_after_offset:
  assumes "wf_ns ns"
  shows "readdir ns push ino off s =
    (case dir_entries ns ino of None \<Rightarrow> (Err (Errno ENOTDIR), s)
     | Some es \<Rightarrow> (Ok (), push_while push (filter (\<lambda>e. off < entry_off e) es) s))"
  by (rule readdir_eq [OF assms])

theorem readdir_resumes_after_offset_witness:
  "readdir small_ns (bounded_sink 1) FUSE_ROOT_INO 2 [] = (Ok (), [(OBJECTS_INO, 3, Dir, ''objects'')])"
  by (subst readdir_resumes_after_offset [OF wf_small_ns])
    (simp add: dir_entries_def root_entries_def entry_off_def bounded_sink_def)

text \<open>C18. Paging through a directory, with pages of any positive size and each page started at
  the offset of the last entry of the page before, lists every entry exactly once and in order,
  and stops; the object directory has the two dot entries and one entry per file.\<close>

theorem paging_lists_directory_once:
  assumes "wf_ns ns" "dir_entries ns d = Some es" "0 < k" "length es < fuel"
  shows "flat.list_pages ns fuel k d 0 = es
    \<and> distinct es
    \<and> (d = OBJECTS_INO \<longrightarrow> length es = unat (ns_inode_count ns) + 2)"
proof (intro conjI impI)
  have c: "clamp_ns ns = ns" by (rule clamp_ns_wf [OF assms(1)])
  show "flat.list_pages ns fuel k d 0 = es"
    by (rule flat.list_pages_all) (simp_all add: c assms)
  have "offsets_ascend es" using dir_entries_ascend [OF assms(1,2)] by simp
  then show "distinct es" by (induction es) auto
  show "length es = unat (ns_inode_count ns) + 2" if "d = OBJECTS_INO"
    using assms(2) that by (auto simp: dir_entries_def objects_entries_def dir_inos_distinct)
qed

theorem paging_lists_directory_once_witness:
  "flat.list_pages small_ns 4 2 FUSE_ROOT_INO 0 = root_entries"
  by (rule paging_lists_directory_once [OF wf_small_ns, THEN conjunct1]) (simp_all add: dir_entries_def root_entries_def)

end
