(* ===== verification/Fuser.thy ===== *)
theory Fuser
  imports Content Namespace Engine
begin

text \<open>
  The FUSE adapter (\<open>fusecraft-fuser/src\<close>): one definition per request handler of \<open>FaultFs\<close>,
  the conversion of attributes, and the mount options. The adapter is generic in the namespace
  and the content; the model takes the two implementations of the core crate.

  A handler computes the reply it sends to the kernel and the engine after the operation. The
  reply buffer of a directory listing belongs to the \<open>fuser\<close> crate: adding an entry is a
  parameter that returns whether the buffer is full.
\<close>

section \<open>Replies\<close>

datatype FileType = Directory | RegularFile

record FileAttr =
  fa_ino :: u64
  fa_size :: u64
  fa_blocks :: u64
  fa_atime :: system_time
  fa_mtime :: system_time
  fa_ctime :: system_time
  fa_crtime :: system_time
  fa_kind :: FileType
  fa_perm :: u16
  fa_nlink :: u32
  fa_uid :: u32
  fa_gid :: u32
  fa_rdev :: u32
  fa_blksize :: u32
  fa_flags :: u32

text \<open>\<open>fuser::Errno::from_i32\<close> wraps the number.\<close>

datatype fuser_errno = Errno_from_i32 i32

record Statfs =
  st_blocks :: u64
  st_bfree :: u64
  st_bavail :: u64
  st_files :: u64
  st_ffree :: u64
  st_bsize :: u32
  st_namelen :: u32
  st_frsize :: u32

datatype 'b reply =
    Reply_entry duration FileAttr u64
  | Reply_attr duration FileAttr
  | Reply_opened u64 u32
  | Reply_data bytes
  | Reply_written u32
  | Reply_ok
  | Reply_directory 'b
  | Reply_statfs Statfs
  | Reply_error fuser_errno

text \<open>A handler replies, unwinds without a reply, or waits in the queue of the limiter.\<close>

datatype 'b handler_outcome = Replies "'b reply" | Handler_panics | Handler_waits

definition file_type :: "FileKind \<Rightarrow> FileType" where
  "file_type k = (case k of Dir \<Rightarrow> Directory | File \<Rightarrow> RegularFile)"

definition attr_from_spec :: "FileAttrSpec \<Rightarrow> FileAttr" where
  "attr_from_spec spec =
     \<lparr>fa_ino = attr_ino spec, fa_size = attr_size spec, fa_blocks = div_ceil (attr_size spec) 512,
      fa_atime = attr_mtime spec, fa_mtime = attr_mtime spec, fa_ctime = attr_mtime spec, fa_crtime = 0,
      fa_kind = file_type (attr_kind spec), fa_perm = ucast (attr_mode spec), fa_nlink = attr_nlink spec,
      fa_uid = attr_uid spec, fa_gid = attr_gid spec, fa_rdev = 0, fa_blksize = 4096, fa_flags = 0\<rparr>"

definition errno_to_fuser :: "i32 \<Rightarrow> fuser_errno" where
  "errno_to_fuser n = Errno_from_i32 n"

section \<open>The filesystem\<close>

definition DEFAULT_ATTR_TTL :: duration where "DEFAULT_ATTR_TTL = 1000000000"
definition DEFAULT_ENTRY_TTL :: duration where "DEFAULT_ENTRY_TTL = 1000000000"

record ('s, 'h) FaultFs =
  fs_engine :: "('s, 'h) SimEngine"
  fs_namespace :: FlatObjectNamespace
  fs_content :: DeterministicContent
  attr_ttl :: duration
  entry_ttl :: duration

definition FaultFs_new ::
    "('s, 'h) SimEngine \<Rightarrow> FlatObjectNamespace \<Rightarrow> DeterministicContent \<Rightarrow> ('s, 'h) FaultFs" where
  "FaultFs_new eng ns c =
     \<lparr>fs_engine = eng, fs_namespace = ns, fs_content = c, attr_ttl = DEFAULT_ATTR_TTL,
      entry_ttl = DEFAULT_ENTRY_TTL\<rparr>"

definition with_ttls :: "('s, 'h) FaultFs \<Rightarrow> duration \<Rightarrow> duration \<Rightarrow> ('s, 'h) FaultFs" where
  "with_ttls fs a e = fs\<lparr>attr_ttl := a, entry_ttl := e\<rparr>"

text \<open>
  The common shape of a handler: run the operation with a closure that only reads, then send
  the reply for its value, or the errno.
\<close>

definition handle ::
    "('r, 's, 'h) engine_env \<Rightarrow> ('s, 'h) FaultFs \<Rightarrow> OpContext \<Rightarrow> 'a fs_result \<Rightarrow> ('a \<Rightarrow> 'b reply) \<Rightarrow> readings
     \<Rightarrow> 'b handler_outcome \<times> ('s, 'h) FaultFs" where
  "handle env fs ctx closure reply_ok t =
     (let (out, eng, _) = run_op env (fs_engine fs) ctx (\<lambda>_. (Returns closure, ())) () t;
          fs1 = fs\<lparr>fs_engine := eng\<rparr>
      in case out of
           Finished (Inr v) \<Rightarrow> (Replies (reply_ok v), fs1)
         | Finished (Inl e) \<Rightarrow> (Replies (Reply_error (errno_to_fuser (as_errno e))), fs1)
         | Op_panics \<Rightarrow> (Handler_panics, fs1)
         | Waits \<Rightarrow> (Handler_waits, fs1))"

definition fs_lookup ::
    "('r, 's, 'h) engine_env \<Rightarrow> ('s, 'h) FaultFs \<Rightarrow> u64 \<Rightarrow> os_str \<Rightarrow> readings
     \<Rightarrow> 'b handler_outcome \<times> ('s, 'h) FaultFs" where
  "fs_lookup env fs parent nm t =
     handle env fs (OpContext_metadata Lookup parent)
       (try_ok (ok_or (lookup (fs_namespace fs) parent nm) (Errno ENOENT)) (\<lambda>ino.
          try_ok (ok_or (attr (fs_namespace fs) ino) (Errno ENOENT)) (\<lambda>spec. Ok spec)))
       (\<lambda>spec. Reply_entry (entry_ttl fs) (attr_from_spec spec) 0) t"

definition fs_getattr ::
    "('r, 's, 'h) engine_env \<Rightarrow> ('s, 'h) FaultFs \<Rightarrow> u64 \<Rightarrow> readings \<Rightarrow> 'b handler_outcome \<times> ('s, 'h) FaultFs" where
  "fs_getattr env fs ino t =
     handle env fs (OpContext_metadata GetAttr ino)
       (ok_or (attr (fs_namespace fs) ino) (Errno ENOENT))
       (\<lambda>spec. Reply_attr (attr_ttl fs) (attr_from_spec spec)) t"

definition fs_open ::
    "('r, 's, 'h) engine_env \<Rightarrow> ('s, 'h) FaultFs \<Rightarrow> u64 \<Rightarrow> readings \<Rightarrow> 'b handler_outcome \<times> ('s, 'h) FaultFs" where
  "fs_open env fs ino t =
     handle env fs (OpContext_metadata Open ino) (Ok ()) (\<lambda>_. Reply_opened 0 0) t"

text \<open>The bytes a read can return: what is left of the file, at most what was asked for.\<close>

definition readable_len :: "('s, 'h) FaultFs \<Rightarrow> u64 \<Rightarrow> u64 \<Rightarrow> u32 \<Rightarrow> usize" where
  "readable_len fs ino offset size_req =
     (let requested = ucast size_req; len = file_len (fs_content fs) ino in
      if len \<le> offset then 0 else min (len - offset) requested)"

definition fs_read ::
    "('r, 's, 'h) engine_env \<Rightarrow> ('s, 'h) FaultFs \<Rightarrow> u64 \<Rightarrow> u64 \<Rightarrow> u32 \<Rightarrow> readings
     \<Rightarrow> 'b handler_outcome \<times> ('s, 'h) FaultFs" where
  "fs_read env fs ino offset size_req t =
     (let readable = readable_len fs ino offset size_req;
          ctx = with_requested_len (OpContext_data Read ino offset readable) (ucast size_req)
      in handle env fs ctx
           (if readable = 0 then Ok []
            else Ok (read_at (fs_content fs) ino offset (replicate (unat readable) 0)))
           Reply_data t)"

definition fs_write ::
    "('r, 's, 'h) engine_env \<Rightarrow> ('s, 'h) FaultFs \<Rightarrow> u64 \<Rightarrow> u64 \<Rightarrow> bytes \<Rightarrow> readings
     \<Rightarrow> 'b handler_outcome \<times> ('s, 'h) FaultFs" where
  "fs_write env fs ino offset data t =
     handle env fs (OpContext_data Write ino offset (of_nat (length data)))
       (map_sum id (\<lambda>n. ucast n) (write_at (fs_content fs) ino offset data)) Reply_written t"

definition fs_flush ::
    "('r, 's, 'h) engine_env \<Rightarrow> ('s, 'h) FaultFs \<Rightarrow> u64 \<Rightarrow> readings \<Rightarrow> 'b handler_outcome \<times> ('s, 'h) FaultFs" where
  "fs_flush env fs ino t = handle env fs (OpContext_metadata Flush ino) (Ok ()) (\<lambda>_. Reply_ok) t"

definition fs_release ::
    "('r, 's, 'h) engine_env \<Rightarrow> ('s, 'h) FaultFs \<Rightarrow> u64 \<Rightarrow> readings \<Rightarrow> 'b handler_outcome \<times> ('s, 'h) FaultFs" where
  "fs_release env fs ino t = handle env fs (OpContext_metadata Release ino) (Ok ()) (\<lambda>_. Reply_ok) t"

definition fs_fsync ::
    "('r, 's, 'h) engine_env \<Rightarrow> ('s, 'h) FaultFs \<Rightarrow> u64 \<Rightarrow> readings \<Rightarrow> 'b handler_outcome \<times> ('s, 'h) FaultFs" where
  "fs_fsync env fs ino t = handle env fs (OpContext_metadata Fsync ino) (Ok ()) (\<lambda>_. Reply_ok) t"

text \<open>The loop over the collected entries: stop when the reply buffer is full.\<close>

type_synonym 'b add_entry = "'b \<Rightarrow> u64 \<Rightarrow> u64 \<Rightarrow> FileType \<Rightarrow> os_str \<Rightarrow> bool \<times> 'b"

fun add_entries :: "'b add_entry \<Rightarrow> dir_entry list \<Rightarrow> 'b \<Rightarrow> 'b" where
  "add_entries add [] b = b"
| "add_entries add ((ino, off, kind, nm) # es) b =
     (let (full, b1) = add b ino off (file_type kind) nm in if full then b1 else add_entries add es b1)"

definition fs_readdir ::
    "('r, 's, 'h) engine_env \<Rightarrow> 'b add_entry \<Rightarrow> 'b \<Rightarrow> ('s, 'h) FaultFs \<Rightarrow> u64 \<Rightarrow> u64 \<Rightarrow> readings
     \<Rightarrow> 'b handler_outcome \<times> ('s, 'h) FaultFs" where
  "fs_readdir env add b fs ino offset t =
     handle env fs (OpContext_metadata Readdir ino)
       (let (r, entries) = readdir (fs_namespace fs) collect_all ino offset [] in
        try_ok r (\<lambda>_. Ok entries))
       (\<lambda>entries. Reply_directory (add_entries add entries b)) t"

definition fs_statfs ::
    "('r, 's, 'h) engine_env \<Rightarrow> ('s, 'h) FaultFs \<Rightarrow> u64 \<Rightarrow> readings \<Rightarrow> 'b handler_outcome \<times> ('s, 'h) FaultFs" where
  "fs_statfs env fs ino t =
     handle env fs (OpContext_metadata FsOp.Statfs ino) (Ok ())
       (\<lambda>_. Reply_statfs \<lparr>st_blocks = 1000000, st_bfree = 1000000, st_bavail = 1000000,
          st_files = 1000000, st_ffree = 1000000, st_bsize = 4096, st_namelen = 255, st_frsize = 4096\<rparr>) t"

definition fs_access ::
    "('r, 's, 'h) engine_env \<Rightarrow> ('s, 'h) FaultFs \<Rightarrow> u64 \<Rightarrow> readings \<Rightarrow> 'b handler_outcome \<times> ('s, 'h) FaultFs" where
  "fs_access env fs ino t =
     handle env fs (OpContext_metadata Access ino)
       (ok_or (map_option (\<lambda>_. ()) (attr (fs_namespace fs) ino)) (Errno ENOENT)) (\<lambda>_. Reply_ok) t"

section \<open>Mount options\<close>

record FuserMountOptions =
  opt_fs_name :: string
  opt_subtype :: string
  opt_auto_unmount :: bool
  opt_default_permissions :: bool
  opt_read_only :: bool
  opt_direct_io :: bool
  opt_allow_other :: bool

datatype MountOption =
    FSName string | Subtype string | AutoUnmount | DefaultPermissions | RO | RW | CUSTOM string

datatype SessionACL = ACL_All | ACL_RootAndOwner | ACL_Owner

record FuserConfig =
  mount_options :: "MountOption list"
  acl :: SessionACL

definition from_mount_config :: "MountConfig \<Rightarrow> FuserMountOptions" where
  "from_mount_config c =
     \<lparr>opt_fs_name = fs_name c, opt_subtype = subtype c, opt_auto_unmount = auto_unmount c,
      opt_default_permissions = default_permissions c, opt_read_only = read_only c,
      opt_direct_io = direct_io c, opt_allow_other = False\<rparr>"

text \<open>The remaining fields of \<open>fuser::Config\<close> keep their defaults.\<close>

definition to_fuser_config :: "FuserMountOptions \<Rightarrow> FuserConfig" where
  "to_fuser_config o' =
     \<lparr>mount_options =
        [FSName (opt_fs_name o'), Subtype (opt_subtype o')]
        @ (if opt_auto_unmount o' \<and> opt_allow_other o' then [AutoUnmount] else [])
        @ (if opt_default_permissions o' then [DefaultPermissions] else [])
        @ (if opt_read_only o' then [RO] else [RW])
        @ (if opt_direct_io o' then [CUSTOM ''direct_io''] else []),
      acl = (if opt_allow_other o' then ACL_All else ACL_Owner)\<rparr>"

section \<open>What a handler replies\<close>

definition engine_ok :: "Config \<Rightarrow> ('s, 'h) FaultFs \<Rightarrow> bool" where
  "engine_ok config fs \<longleftrightarrow> engine_of config (fs_engine fs)"

text \<open>The reply for a given closure: the rejection, the injected fault, or the closure's.\<close>

definition reply_for ::
    "('r, 's, 'h) engine_env \<Rightarrow> Config \<Rightarrow> ('s, 'h) FaultFs \<Rightarrow> OpContext \<Rightarrow> 'a fs_result \<Rightarrow> ('a \<Rightarrow> 'b reply)
     \<Rightarrow> 'b reply" where
  "reply_for env config fs ctx closure reply_ok =
     (if \<not> admitted (fs_engine fs) ctx then Reply_error (errno_to_fuser EAGAIN)
      else case decided_fault (env_rng env) config ctx (eng_seq (fs_engine fs)) of
        Some errno \<Rightarrow> Reply_error (errno_to_fuser errno)
      | None \<Rightarrow> (case closure of Inr v \<Rightarrow> reply_ok v
          | Inl e \<Rightarrow> Reply_error (errno_to_fuser (as_errno e))))"

lemma handle_replies:
  assumes "engine_ok config fs" "handle env fs ctx closure reply_ok t = (Replies rep, fs')"
  shows "rep = reply_for env config fs ctx closure reply_ok"
    and "occupancy (fs_engine fs') = occupancy (fs_engine fs)"
    and "fs' = fs\<lparr>fs_engine := fs_engine fs'\<rparr>" "engine_ok config fs'"
proof -
  obtain out eng u where run: "run_op env (fs_engine fs) ctx (\<lambda>_. (Returns closure, ())) () t = (out, eng, u)"
    by (metis prod.exhaust)
  obtain r where r: "out = Finished r" "fs' = fs\<lparr>fs_engine := eng\<rparr>"
    "rep = (case r of Inr v \<Rightarrow> reply_ok v | Inl e \<Rightarrow> Reply_error (errno_to_fuser (as_errno e)))"
    using assms(2) run by (auto simp: handle_def Let_def split: op_outcome.splits sum.splits)
  have fin: "run_op env (fs_engine fs) ctx (\<lambda>_. (Returns closure, ())) () t = (Finished r, eng, u)"
    using run r(1) by simp
  have ok: "engine_of config (fs_engine fs)" using assms(1) by (simp add: engine_ok_def)
  note effects = run_op_finished [OF ok fin]
  show "rep = reply_for env config fs ctx closure reply_ok"
    using effects r(3) by (auto simp: reply_for_def split: option.splits if_splits)
  show "occupancy (fs_engine fs') = occupancy (fs_engine fs)" using effects r(2) by simp
  show "fs' = fs\<lparr>fs_engine := fs_engine fs'\<rparr>" using r(2) by simp
  show "engine_ok config fs'"
    using engine_of_run_op [OF ok, of env ctx "\<lambda>_. (Returns closure, ())" "()" t] run r(2)
    by (simp add: engine_ok_def)
qed

section \<open>Reading\<close>

text \<open>The bytes of a file as the deterministic content defines them.\<close>

definition file_bytes :: "('s, 'h) FaultFs \<Rightarrow> u64 \<Rightarrow> bytes" where
  "file_bytes fs ino =
     map (\<lambda>i. synth_byte ino (of_nat i) (content_seed (fs_content fs)))
       [0..<unat (file_len (fs_content fs) ino)]"

lemma unat_readable_len:
  "unat (readable_len fs ino offset size_req)
     = min (unat (file_len (fs_content fs) ino) - unat offset) (unat size_req)"
proof -
  have u: "unat (ucast size_req :: u64) = unat size_req"
    using unat_bound [of size_req] by (simp add: unsigned_ucast_eq unsigned_take_bit_eq take_bit_nat_eq_self)
  show ?thesis
    by (auto simp: readable_len_def Let_def u unat_sub word_le_nat_alt min_def)
qed

lemma read_bytes:
  "read_at (fs_content fs) ino offset (replicate (unat (readable_len fs ino offset size_req)) 0)
     = take (unat size_req) (drop (unat offset) (file_bytes fs ino))"
proof (rule nth_equalityI)
  show "length (read_at (fs_content fs) ino offset (replicate (unat (readable_len fs ino offset size_req)) 0))
      = length (take (unat size_req) (drop (unat offset) (file_bytes fs ino)))"
    by (simp add: length_read_at unat_readable_len file_bytes_def min.commute)
next
  fix i
  assume "i < length (read_at (fs_content fs) ino offset (replicate (unat (readable_len fs ino offset size_req)) 0))"
  then have "i < min (unat (file_len (fs_content fs) ino) - unat offset) (unat size_req)"
    by (simp add: length_read_at unat_readable_len)
  then show "read_at (fs_content fs) ino offset (replicate (unat (readable_len fs ino offset size_req)) 0) ! i
      = take (unat size_req) (drop (unat offset) (file_bytes fs ino)) ! i"
    by (simp add: read_at_eq_map unat_readable_len file_bytes_def nth_drop [of "unat offset"]
        less_imp_le less_diff_conv add.commute)
qed

lemma read_closure:
  "(if readable_len fs ino offset size_req = 0 then Ok []
    else Ok (read_at (fs_content fs) ino offset (replicate (unat (readable_len fs ino offset size_req)) 0)))
   = Ok (take (unat size_req) (drop (unat offset) (file_bytes fs ino)))"
  using read_bytes [of fs ino offset size_req] by (auto simp: read_at_eq_map)

section \<open>Directory replies\<close>

text \<open>A reply buffer with room for \<open>k\<close> entries: an entry that does not fit is not added.\<close>

definition bounded_reply :: "nat \<Rightarrow> (u64 \<times> u64 \<times> FileType \<times> os_str) list add_entry" where
  "bounded_reply k b ino off ft nm =
     (if length b < k then (False, b @ [(ino, off, ft, nm)]) else (True, b))"

definition reply_item :: "dir_entry \<Rightarrow> u64 \<times> u64 \<times> FileType \<times> os_str" where
  "reply_item = (\<lambda>(ino, off, kind, nm). (ino, off, file_type kind, nm))"

lemma add_entries_bounded:
  "length b \<le> k \<Longrightarrow> add_entries (bounded_reply k) es b = b @ map reply_item (take (k - length b) es)"
proof (induction es arbitrary: b)
  case (Cons e es)
  obtain ino off kind nm where e: "e = (ino, off, kind, nm)" by (cases e) auto
  show ?case
    using Cons by (auto simp: e bounded_reply_def reply_item_def take_Cons' Suc_diff_le)
qed simp

lemma readdir_closure:
  assumes "wf_ns (fs_namespace fs)"
  shows "(let (r, entries) = readdir (fs_namespace fs) collect_all ino offset [] in try_ok r (\<lambda>_. Ok entries))
    = (case dir_entries (fs_namespace fs) ino of None \<Rightarrow> Err (Errno ENOTDIR)
       | Some es \<Rightarrow> Ok (filter (\<lambda>e. offset < entry_off e) es))"
  using readdir_eq [OF assms, of collect_all ino offset "[]"]
  by (auto simp: push_while_collect split: option.split)

section \<open>Concrete filesystems\<close>

definition demo_fs :: "(Event list, u64 list) FaultFs" where
  "demo_fs = FaultFs_new demo_engine small_ns (DeterministicContent_new 42 10)"

lemma demo_fs_ok: "engine_ok Config_default demo_fs"
  using demo_engine_of by (simp add: engine_ok_def demo_fs_def FaultFs_new_def)

lemma demo_fs_admits: "admitted (fs_engine demo_fs) ctx"
  using demo_admits by (simp add: demo_fs_def FaultFs_new_def)

text \<open>Operations of the default engine reply.\<close>

lemma demo_handles:
  obtains rep fs' where "handle demo_env demo_fs ctx closure reply_ok t = (Replies rep, fs')"
proof -
  obtain out eng u where run: "run_op demo_env (fs_engine demo_fs) ctx (\<lambda>_. (Returns closure, ())) () t = (out, eng, u)"
    by (metis prod.exhaust)
  have ok: "engine_of Config_default (fs_engine demo_fs)" using demo_fs_ok by (simp add: engine_ok_def)
  have "out \<noteq> Waits" using run_op_waits_iff [OF ok demo_fs_admits] run by (metis fst_conv)
  moreover have "out \<noteq> Op_panics"
  proof
    assume "out = Op_panics"
    with run have p: "run_op demo_env (fs_engine demo_fs) ctx (\<lambda>_. (Returns closure, ())) () t = (Op_panics, eng, u)"
      by simp
    have "\<not> throttled (policy_for Config_default (ctx_op ctx)) ctx"
      by (simp add: throttled_def policy_for_def Config_default_def OpPolicy_default_def routed_large_def)
    then show False using run_op_panicked [OF ok demo_constructs p] by simp
  qed
  ultimately obtain r where r: "out = Finished r" by (cases out) auto
  have "\<exists>rep fs'. handle demo_env demo_fs ctx closure reply_ok t = (Replies rep, fs')"
    using run by (cases r) (simp_all add: r handle_def)
  then show thesis using that by blast
qed

lemma demo_reply:
  "reply_for demo_env Config_default demo_fs ctx closure reply_ok
     = (case closure of Inr v \<Rightarrow> reply_ok v | Inl e \<Rightarrow> Reply_error (errno_to_fuser (as_errno e)))"
  by (simp add: reply_for_def demo_fs_admits demo_no_fault)

section \<open>Properties\<close>



text \<open>C19. A read without a fault returns exactly the bytes of the file at its offset: at most the
  requested number, nothing past the end of the file, no wrap-around of offsets, and the engine
  is charged for exactly the bytes returned while the tier is chosen by the bytes requested.\<close>

theorem read_returns_file_range:
  assumes "engine_ok config fs" "fs_read env fs ino offset size_req t = (Replies rep, fs')"
  defines "ctx \<equiv> with_requested_len (OpContext_data Read ino offset (readable_len fs ino offset size_req))
    (ucast size_req)"
  shows "rep = reply_for env config fs ctx
      (Ok (take (unat size_req) (drop (unat offset) (file_bytes fs ino)))) Reply_data
    \<and> unat (ctx_len ctx) = length (take (unat size_req) (drop (unat offset) (file_bytes fs ino)))
    \<and> ctx_requested_len ctx = ucast size_req"
proof (intro conjI impI)
  have "handle env fs ctx (Ok (take (unat size_req) (drop (unat offset) (file_bytes fs ino)))) Reply_data t
      = (Replies rep, fs')"
    using assms(2) unfolding fs_read_def Let_def read_closure ctx_def .
  then show "rep = reply_for env config fs ctx
      (Ok (take (unat size_req) (drop (unat offset) (file_bytes fs ino)))) Reply_data"
    by (rule handle_replies(1) [OF assms(1)])
  show "unat (ctx_len ctx) = length (take (unat size_req) (drop (unat offset) (file_bytes fs ino)))"
    by (simp add: ctx_def with_requested_len_def OpContext_data_def unat_readable_len file_bytes_def min.commute)
  show "ctx_requested_len ctx = ucast size_req" by (simp add: ctx_def with_requested_len_def)
qed

theorem read_returns_file_range_witness:
  "\<exists>rep fs'. fs_read demo_env demo_fs 100 8 4096 demo_times = (Replies rep :: nat handler_outcome, fs')
    \<and> rep = Reply_data [synth_byte 100 8 42, synth_byte 100 9 42]"
proof -
  obtain rep :: "nat reply" and fs' where
    r: "fs_read demo_env demo_fs 100 8 4096 demo_times = (Replies rep, fs')"
    unfolding fs_read_def Let_def by (rule demo_handles)
  have "file_bytes demo_fs 100 = map (\<lambda>i. synth_byte 100 (of_nat i) 42) [0..<10]"
    by (simp add: file_bytes_def demo_fs_def FaultFs_new_def DeterministicContent_new_def file_len_def)
  then show ?thesis
    using r read_returns_file_range [OF demo_fs_ok r] by (simp add: demo_reply upt_rec)
qed

lemma concat_blocks: "concat (map (\<lambda>i. take k (drop (i * k) xs)) [0..<m]) = take (m * k) xs"
proof (induction m)
  case (Suc m)
  have "take (Suc m * k) xs = take (m * k) xs @ take k (drop (m * k) xs)"
    using take_add [of "m * k" k xs] by (simp add: add.commute)
  with Suc show ?case by simp
qed simp

text \<open>C36. Reading a file from front to back in requests of any positive size yields the whole file:
  the bytes the closures of consecutive reads of \<open>k\<close> bytes return, concatenated, are the bytes of
  the file, each once and in order.\<close>

theorem sequential_reads_yield_file:
  assumes "0 < k" "k < 2 ^ 32" "unat (file_len (fs_content fs) ino) \<le> n * k" "n * k < 2 ^ 64"
  shows "concat (map (\<lambda>i. read_at (fs_content fs) ino (of_nat (i * k))
      (replicate (unat (readable_len fs ino (of_nat (i * k)) (of_nat k))) 0)) [0..<n]) = file_bytes fs ino"
proof -
  have "read_at (fs_content fs) ino (of_nat (i * k))
      (replicate (unat (readable_len fs ino (of_nat (i * k)) (of_nat k))) 0)
      = take k (drop (i * k) (file_bytes fs ino))" if "i < n" for i
  proof -
    have "i * k \<le> n * k" using that by simp
    then have "i * k < 2 ^ 64" using assms(4) by linarith
    then have "unat (of_nat (i * k) :: u64) = i * k" "unat (of_nat k :: u32) = k"
      using assms(2) by (simp_all add: unat_of_nat del: of_nat_mult)
    then show ?thesis by (simp add: read_bytes del: of_nat_mult)
  qed
  then have "map (\<lambda>i. read_at (fs_content fs) ino (of_nat (i * k))
      (replicate (unat (readable_len fs ino (of_nat (i * k)) (of_nat k))) 0)) [0..<n]
      = map (\<lambda>i. take k (drop (i * k) (file_bytes fs ino))) [0..<n]"
    by (intro map_cong) simp_all
  moreover have "length (file_bytes fs ino) \<le> n * k" using assms(3) by (simp add: file_bytes_def)
  ultimately show ?thesis by (simp only: concat_blocks take_all)
qed

theorem sequential_reads_yield_file_witness:
  "concat (map (\<lambda>i. read_at (fs_content demo_fs) 100 (of_nat (i * 4))
      (replicate (unat (readable_len demo_fs 100 (of_nat (i * 4)) (of_nat 4))) 0)) [0..<3])
    = file_bytes demo_fs 100"
  by (rule sequential_reads_yield_file)
    (simp_all add: demo_fs_def FaultFs_new_def DeterministicContent_new_def file_len_def)

text \<open>A lookup without a fault replies with the attributes \<open>getattr\<close> gives for the inode it
  finds, which is the inode in the reply, and fails with ENOENT exactly when the namespace has no
  such name.\<close>

theorem lookup_replies_getattr:
  assumes "engine_ok config fs" "wf_ns (fs_namespace fs)" "fs_lookup env fs parent nm t = (Replies rep, fs')"
    and "admitted (fs_engine fs) (OpContext_metadata Lookup parent)"
    and "decided_fault (env_rng env) config (OpContext_metadata Lookup parent) (eng_seq (fs_engine fs)) = None"
  shows "(rep = (case lookup (fs_namespace fs) parent nm of
      None \<Rightarrow> Reply_error (errno_to_fuser ENOENT)
    | Some ino \<Rightarrow> Reply_entry (entry_ttl fs) (attr_from_spec (the (attr (fs_namespace fs) ino))) 0))
    \<and> (lookup (fs_namespace fs) parent nm = Some ino
      \<longrightarrow> fa_ino (attr_from_spec (the (attr (fs_namespace fs) ino))) = ino)"
proof (intro conjI impI)
  have a: "\<exists>a. attr (fs_namespace fs) i = Some a \<and> attr_ino a = i"
    if l: "lookup (fs_namespace fs) parent nm = Some i" for i
    using lookup_is_listed [OF assms(2) l] dir_entries_resolve [OF assms(2)] attr_has_ino by blast
  have "rep = reply_for env config fs (OpContext_metadata Lookup parent)
       (try_ok (ok_or (lookup (fs_namespace fs) parent nm) (Errno ENOENT)) (\<lambda>ino.
          try_ok (ok_or (attr (fs_namespace fs) ino) (Errno ENOENT)) (\<lambda>spec. Ok spec)))
       (\<lambda>spec. Reply_entry (entry_ttl fs) (attr_from_spec spec) 0)"
    by (rule handle_replies(1) [OF assms(1) assms(3) [unfolded fs_lookup_def]])
  then show "rep = (case lookup (fs_namespace fs) parent nm of
      None \<Rightarrow> Reply_error (errno_to_fuser ENOENT)
    | Some ino \<Rightarrow> Reply_entry (entry_ttl fs) (attr_from_spec (the (attr (fs_namespace fs) ino))) 0)"
    using assms(4,5) a by (auto simp: reply_for_def split: option.split)
  show "fa_ino (attr_from_spec (the (attr (fs_namespace fs) ino))) = ino"
    if "lookup (fs_namespace fs) parent nm = Some ino"
    using a [OF that] by (auto simp: attr_from_spec_def)
qed

theorem lookup_replies_getattr_witness:
  "\<exists>fs'. fs_lookup demo_env demo_fs 1 ''missing'' demo_times
    = (Replies (Reply_error (errno_to_fuser ENOENT)) :: nat handler_outcome, fs')"
proof -
  obtain rep :: "nat reply" and fs' where
    r: "fs_lookup demo_env demo_fs 1 ''missing'' demo_times = (Replies rep, fs')"
    unfolding fs_lookup_def by (rule demo_handles)
  have ns: "fs_namespace demo_fs = small_ns" by (simp add: demo_fs_def FaultFs_new_def)
  have "lookup small_ns 1 ''missing'' = None"
    by (simp add: lookup_def FUSE_ROOT_INO_def)
  then show ?thesis
    using r lookup_replies_getattr [OF demo_fs_ok _ r demo_fs_admits demo_no_fault]
    by (simp add: ns wf_small_ns)
qed

text \<open>A directory reply without a fault carries exactly the entries behind the requested offset
  that fit the reply buffer, in order and with the kind of their attributes, and ENOTDIR for an
  inode that is no directory; so continuing each request at the offset of the last entry of the
  reply before lists the directory once.\<close>

theorem readdir_reply_is_next_page:
  assumes "engine_ok config fs" "wf_ns (fs_namespace fs)"
    and "fs_readdir env (bounded_reply k) [] fs ino offset t = (Replies rep, fs')"
    and "admitted (fs_engine fs) (OpContext_metadata Readdir ino)"
    and "decided_fault (env_rng env) config (OpContext_metadata Readdir ino) (eng_seq (fs_engine fs)) = None"
  shows "rep = (case dir_entries (fs_namespace fs) ino of
      None \<Rightarrow> Reply_error (errno_to_fuser ENOTDIR)
    | Some es \<Rightarrow> Reply_directory (map reply_item (take k (filter (\<lambda>e. offset < entry_off e) es))))"
proof -
  have "rep = reply_for env config fs (OpContext_metadata Readdir ino)
      (let (r, entries) = readdir (fs_namespace fs) collect_all ino offset [] in try_ok r (\<lambda>_. Ok entries))
      (\<lambda>entries. Reply_directory (add_entries (bounded_reply k) entries []))"
    by (rule handle_replies(1) [OF assms(1) assms(3) [unfolded fs_readdir_def]])
  then show ?thesis
    unfolding readdir_closure [OF assms(2)]
    using assms(4,5) add_entries_bounded [of "[]" k]
    by (auto simp: reply_for_def split: option.split)
qed

theorem readdir_reply_is_next_page_witness:
  "\<exists>fs'. fs_readdir demo_env (bounded_reply 1) [] demo_fs 1 2 demo_times
    = (Replies (Reply_directory [(2, 3, Directory, ''objects'')]), fs')"
proof -
  obtain rep fs' where
    r: "fs_readdir demo_env (bounded_reply 1) [] demo_fs 1 2 demo_times = (Replies rep, fs')"
    unfolding fs_readdir_def by (rule demo_handles)
  have ns: "fs_namespace demo_fs = small_ns" by (simp add: demo_fs_def FaultFs_new_def)
  show ?thesis
    using r readdir_reply_is_next_page [OF demo_fs_ok _ r demo_fs_admits demo_no_fault]
    by (simp add: ns wf_small_ns dir_entries_def FUSE_ROOT_INO_def root_entries_def entry_off_def
        reply_item_def file_type_def OBJECTS_INO_def)
qed

text \<open>The mount options are safe for an unprivileged mount: \<open>AutoUnmount\<close> is passed only
  together with the access list that fusermount demands for it, exactly one of the read-only and
  read-write options is passed, and options built from a configuration never widen the access
  and so never pass \<open>AutoUnmount\<close>.\<close>

theorem mount_options_consistent:
  "(AutoUnmount \<in> set (mount_options (to_fuser_config opts)) \<longrightarrow> acl (to_fuser_config opts) = ACL_All)
   \<and> (RO \<in> set (mount_options (to_fuser_config opts)) \<longleftrightarrow> opt_read_only opts)
   \<and> (RW \<in> set (mount_options (to_fuser_config opts)) \<longleftrightarrow> \<not> opt_read_only opts)
   \<and> acl (to_fuser_config (from_mount_config c)) = ACL_Owner
   \<and> AutoUnmount \<notin> set (mount_options (to_fuser_config (from_mount_config c)))"
  by (auto simp: to_fuser_config_def from_mount_config_def)

theorem mount_options_consistent_witness:
  "acl (to_fuser_config (from_mount_config MountConfig_default\<lparr>opt_auto_unmount := True, opt_allow_other := True\<rparr>)) = ACL_All"
  using mount_options_consistent
    [of "from_mount_config MountConfig_default\<lparr>opt_auto_unmount := True, opt_allow_other := True\<rparr>"]
  by (simp add: to_fuser_config_def)

end
