(* ===== verification/Session.thy ===== *)
theory Session
  imports Fuser
begin

text \<open>
  Sessions: the requests the kernel sends, the dispatch to the handlers of \<open>FaultFs\<close>
  (\<open>impl Filesystem for FaultFs\<close>), and a session that serves a sequence of requests one after
  the other. The lemmas reduce every request to its context and the reply its closure would
  give; from there the log and the reproducibility of a whole session follow by induction.
\<close>

section \<open>Requests\<close>

datatype request =
    Req_lookup u64 os_str
  | Req_getattr u64
  | Req_open u64
  | Req_read u64 u64 u32
  | Req_write u64 u64 bytes
  | Req_flush u64
  | Req_release u64
  | Req_fsync u64
  | Req_readdir u64 u64
  | Req_statfs u64
  | Req_access u64

fun serve_one ::
    "('r, 's, 'h) engine_env \<Rightarrow> 'b add_entry \<Rightarrow> 'b \<Rightarrow> ('s, 'h) FaultFs \<Rightarrow> request \<Rightarrow> readings
     \<Rightarrow> 'b handler_outcome \<times> ('s, 'h) FaultFs" where
  "serve_one env add b fs (Req_lookup parent nm) t = fs_lookup env fs parent nm t"
| "serve_one env add b fs (Req_getattr ino) t = fs_getattr env fs ino t"
| "serve_one env add b fs (Req_open ino) t = fs_open env fs ino t"
| "serve_one env add b fs (Req_read ino off n) t = fs_read env fs ino off n t"
| "serve_one env add b fs (Req_write ino off data) t = fs_write env fs ino off data t"
| "serve_one env add b fs (Req_flush ino) t = fs_flush env fs ino t"
| "serve_one env add b fs (Req_release ino) t = fs_release env fs ino t"
| "serve_one env add b fs (Req_fsync ino) t = fs_fsync env fs ino t"
| "serve_one env add b fs (Req_readdir ino off) t = fs_readdir env add b fs ino off t"
| "serve_one env add b fs (Req_statfs ino) t = fs_statfs env fs ino t"
| "serve_one env add b fs (Req_access ino) t = fs_access env fs ino t"

fun serve_all ::
    "('r, 's, 'h) engine_env \<Rightarrow> 'b add_entry \<Rightarrow> 'b \<Rightarrow> ('s, 'h) FaultFs \<Rightarrow> (request \<times> readings) list
     \<Rightarrow> 'b handler_outcome list \<times> ('s, 'h) FaultFs" where
  "serve_all env add b fs [] = ([], fs)"
| "serve_all env add b fs ((req, t) # reqs) =
     (let (out, fs1) = serve_one env add b fs req t;
          (outs, fs2) = serve_all env add b fs1 reqs
      in (out # outs, fs2))"

section \<open>The reply of a request\<close>

fun request_ctx :: "('s, 'h) FaultFs \<Rightarrow> request \<Rightarrow> OpContext" where
  "request_ctx fs (Req_lookup parent nm) = OpContext_metadata Lookup parent"
| "request_ctx fs (Req_getattr ino) = OpContext_metadata GetAttr ino"
| "request_ctx fs (Req_open ino) = OpContext_metadata Open ino"
| "request_ctx fs (Req_read ino off n) =
     with_requested_len (OpContext_data Read ino off (readable_len fs ino off n)) (ucast n)"
| "request_ctx fs (Req_write ino off data) = OpContext_data Write ino off (of_nat (length data))"
| "request_ctx fs (Req_flush ino) = OpContext_metadata Flush ino"
| "request_ctx fs (Req_release ino) = OpContext_metadata Release ino"
| "request_ctx fs (Req_fsync ino) = OpContext_metadata Fsync ino"
| "request_ctx fs (Req_readdir ino off) = OpContext_metadata Readdir ino"
| "request_ctx fs (Req_statfs ino) = OpContext_metadata FsOp.Statfs ino"
| "request_ctx fs (Req_access ino) = OpContext_metadata Access ino"

fun request_op :: "request \<Rightarrow> FsOp" where
  "request_op (Req_lookup parent nm) = Lookup"
| "request_op (Req_getattr ino) = GetAttr"
| "request_op (Req_open ino) = Open"
| "request_op (Req_read ino off n) = Read"
| "request_op (Req_write ino off data) = FsOp.Write"
| "request_op (Req_flush ino) = Flush"
| "request_op (Req_release ino) = Release"
| "request_op (Req_fsync ino) = Fsync"
| "request_op (Req_readdir ino off) = Readdir"
| "request_op (Req_statfs ino) = FsOp.Statfs"
| "request_op (Req_access ino) = Access"

lemma ctx_op_request_ctx [simp]: "ctx_op (request_ctx fs req) = request_op req"
  by (cases req) (simp_all add: OpContext_metadata_def OpContext_data_def with_requested_len_def)

text \<open>What is replied when the operation is admitted and no fault is injected.\<close>

fun unfaulted_reply :: "'b add_entry \<Rightarrow> 'b \<Rightarrow> ('s, 'h) FaultFs \<Rightarrow> request \<Rightarrow> 'b reply fs_result" where
  "unfaulted_reply add b fs (Req_lookup parent nm) =
     (case lookup (fs_namespace fs) parent nm of None \<Rightarrow> Err (Errno ENOENT)
      | Some ino \<Rightarrow> (case attr (fs_namespace fs) ino of None \<Rightarrow> Err (Errno ENOENT)
          | Some spec \<Rightarrow> Ok (Reply_entry (entry_ttl fs) (attr_from_spec spec) 0)))"
| "unfaulted_reply add b fs (Req_getattr ino) =
     (case attr (fs_namespace fs) ino of None \<Rightarrow> Err (Errno ENOENT)
      | Some spec \<Rightarrow> Ok (Reply_attr (attr_ttl fs) (attr_from_spec spec)))"
| "unfaulted_reply add b fs (Req_open ino) = Ok (Reply_opened 0 0)"
| "unfaulted_reply add b fs (Req_read ino off n) =
     Ok (Reply_data (take (unat n) (drop (unat off) (file_bytes fs ino))))"
| "unfaulted_reply add b fs (Req_write ino off data) =
     map_sum id (\<lambda>n. Reply_written (ucast n)) (write_at (fs_content fs) ino off data)"
| "unfaulted_reply add b fs (Req_flush ino) = Ok Reply_ok"
| "unfaulted_reply add b fs (Req_release ino) = Ok Reply_ok"
| "unfaulted_reply add b fs (Req_fsync ino) = Ok Reply_ok"
| "unfaulted_reply add b fs (Req_readdir ino off) =
     (let (r, entries) = readdir (fs_namespace fs) collect_all ino off [] in
      map_sum id (\<lambda>_. Reply_directory (add_entries add entries b)) r)"
| "unfaulted_reply add b fs (Req_statfs ino) =
     Ok (Reply_statfs \<lparr>st_blocks = 1000000, st_bfree = 1000000, st_bavail = 1000000,
       st_files = 1000000, st_ffree = 1000000, st_bsize = 4096, st_namelen = 255, st_frsize = 4096\<rparr>)"
| "unfaulted_reply add b fs (Req_access ino) =
     (case attr (fs_namespace fs) ino of None \<Rightarrow> Err (Errno ENOENT) | Some _ \<Rightarrow> Ok Reply_ok)"

section \<open>One request\<close>

text \<open>The errno a reply carries.\<close>

definition reply_errno :: "'b reply \<Rightarrow> i32 option" where
  "reply_errno rep = (case rep of Reply_error (Errno_from_i32 n) \<Rightarrow> Some n | _ \<Rightarrow> None)"

lemma reply_errno_simps [simp]:
  "reply_errno (Reply_error (errno_to_fuser n)) = Some n" "reply_errno (Reply_entry d a g) = None"
  "reply_errno (Reply_attr d a) = None" "reply_errno (Reply_opened h f) = None"
  "reply_errno (Reply_data bs) = None" "reply_errno (Reply_written k) = None"
  "reply_errno Reply_ok = None" "reply_errno (Reply_directory b) = None" "reply_errno (Reply_statfs st) = None"
  by (simp_all add: reply_errno_def errno_to_fuser_def)

text \<open>
  What a request that is replied to has done: the reply is the one decided for it, only the
  engine has changed, and the log has one more event, with the errno of the reply.
\<close>

definition replied ::
    "('r, 's, 'h) engine_env \<Rightarrow> Config \<Rightarrow> ('s, 'h) FaultFs \<Rightarrow> OpContext \<Rightarrow> 'b reply fs_result
     \<Rightarrow> 'b reply \<Rightarrow> ('s, 'h) FaultFs \<Rightarrow> bool" where
  "replied env config fs ctx unfaulted rep fs' \<longleftrightarrow>
     rep = reply_for env config fs ctx unfaulted id
     \<and> engine_ok config fs' \<and> fs' = fs\<lparr>fs_engine := fs_engine fs'\<rparr>
     \<and> occupancy (fs_engine fs') = occupancy (fs_engine fs)
     \<and> eng_seq (fs_engine fs') = eng_seq (fs_engine fs) + 1
     \<and> (\<exists>ev. eng_sink (fs_engine fs') = env_emit env (eng_sink (fs_engine fs)) ev
           \<and> ev_seq ev = eng_seq (fs_engine fs) \<and> ev_op ev = ctx_op ctx \<and> ev_ino ev = ctx_ino ctx
           \<and> ev_errno ev = reply_errno rep)"

lemma handle_replied:
  assumes "engine_ok config fs" "handle env fs ctx closure reply_ok t = (Replies rep, fs')"
    and "\<And>v. reply_errno (reply_ok v) = None" "unfaulted = map_sum id reply_ok closure"
  shows "replied env config fs ctx unfaulted rep fs'"
proof -
  obtain out eng u where run: "run_op env (fs_engine fs) ctx (\<lambda>_. (Returns closure, ())) () t = (out, eng, u)"
    by (metis prod.exhaust)
  obtain r where r: "out = Finished r" "fs' = fs\<lparr>fs_engine := eng\<rparr>"
    "rep = (case r of Inr v \<Rightarrow> reply_ok v | Inl e \<Rightarrow> Reply_error (errno_to_fuser (as_errno e)))"
    using assms(2) run by (auto simp: handle_def Let_def split: op_outcome.splits sum.splits)
  have fin: "run_op env (fs_engine fs) ctx (\<lambda>_. (Returns closure, ())) () t = (Finished r, eng, u)"
    using run r(1) by simp
  have ok: "engine_of config (fs_engine fs)" using assms(1) by (simp add: engine_ok_def)
  have e: "(case r of Inl e \<Rightarrow> Some (as_errno e) | Inr _ \<Rightarrow> None) = reply_errno rep"
    using assms(3) by (simp add: r(3) split: sum.split)
  have "\<exists>ev. eng_sink (fs_engine fs') = env_emit env (eng_sink (fs_engine fs)) ev
      \<and> ev_seq ev = eng_seq (fs_engine fs) \<and> ev_op ev = ctx_op ctx \<and> ev_ino ev = ctx_ino ctx
      \<and> ev_errno ev = reply_errno rep"
    using run_op_finished [OF ok fin] unfolding logged_once_def e by (auto simp: r(2))
  moreover have "rep = reply_for env config fs ctx unfaulted id"
    using handle_replies(1) [OF assms(1,2)] by (cases closure) (simp_all add: assms(4) reply_for_def split: option.split)
  ultimately show ?thesis
    using handle_replies(2-4) [OF assms(1,2)] run_op_finished [OF ok fin] r(2) by (simp add: replied_def)
qed

text \<open>Every request is one operation of the engine.\<close>

lemma serve_one_replied:
  assumes "engine_ok config fs" "serve_one env add b fs req t = (Replies rep, fs')"
  shows "replied env config fs (request_ctx fs req) (unfaulted_reply add b fs req) rep fs'"
proof (cases req)
  case (Req_lookup parent nm)
  show ?thesis
    using assms(2) unfolding Req_lookup request_ctx.simps serve_one.simps fs_lookup_def
    by (rule handle_replied [OF assms(1)]) (auto simp: ok_or_def split: option.split)
next
  case (Req_getattr ino)
  show ?thesis
    using assms(2) unfolding Req_getattr request_ctx.simps serve_one.simps fs_getattr_def
    by (rule handle_replied [OF assms(1)]) (auto simp: ok_or_def split: option.split)
next
  case (Req_open ino)
  show ?thesis
    using assms(2) unfolding Req_open request_ctx.simps serve_one.simps fs_open_def
    by (rule handle_replied [OF assms(1)]) simp_all
next
  case (Req_read ino off n)
  show ?thesis
    using assms(2) unfolding Req_read request_ctx.simps serve_one.simps fs_read_def Let_def read_closure
    by (rule handle_replied [OF assms(1)]) simp_all
next
  case (Req_write ino off data)
  show ?thesis
    using assms(2) unfolding Req_write request_ctx.simps serve_one.simps fs_write_def
    by (rule handle_replied [OF assms(1)]) (simp_all add: sum.map_comp comp_def write_at_def)
next
  case (Req_flush ino)
  show ?thesis
    using assms(2) unfolding Req_flush request_ctx.simps serve_one.simps fs_flush_def
    by (rule handle_replied [OF assms(1)]) simp_all
next
  case (Req_release ino)
  show ?thesis
    using assms(2) unfolding Req_release request_ctx.simps serve_one.simps fs_release_def
    by (rule handle_replied [OF assms(1)]) simp_all
next
  case (Req_fsync ino)
  show ?thesis
    using assms(2) unfolding Req_fsync request_ctx.simps serve_one.simps fs_fsync_def
    by (rule handle_replied [OF assms(1)]) simp_all
next
  case (Req_readdir ino off)
  show ?thesis
    using assms(2) unfolding Req_readdir request_ctx.simps serve_one.simps fs_readdir_def
    by (rule handle_replied [OF assms(1)])
      (cases "fst (readdir (fs_namespace fs) collect_all ino off [])"; simp add: case_prod_unfold Let_def)+
next
  case (Req_statfs ino)
  show ?thesis
    using assms(2) unfolding Req_statfs request_ctx.simps serve_one.simps fs_statfs_def
    by (rule handle_replied [OF assms(1)]) simp_all
next
  case (Req_access ino)
  show ?thesis
    using assms(2) unfolding Req_access request_ctx.simps serve_one.simps fs_access_def
    by (rule handle_replied [OF assms(1)]) (auto simp: ok_or_def split: option.split)
qed

section \<open>Idle engines\<close>

text \<open>No thread is inside or in front of any limiter.\<close>

definition idle :: "('s, 'h) FaultFs \<Rightarrow> bool" where
  "idle fs \<longleftrightarrow> (\<forall>f. occupancy (fs_engine fs) f = Some (0, 0))"

lemma idle_new: "idle (FaultFs_new (SimEngine_new config sink now) ns c)"
  by (simp add: idle_def FaultFs_new_def occupancy_def slots_def SimEngine_new_resources OpResources_new_def
      BlockingLimiter_new_def Let_def)

lemma engine_ok_new: "engine_ok config (FaultFs_new (SimEngine_new config sink now) ns c)"
  by (simp add: engine_ok_def FaultFs_new_def engine_of_new)

lemma valid_cap: "valid_config config \<Longrightarrow> 0 < concurrency_cap (policy_for config f)"
  by (auto simp: valid_config_def valid_policy_def policy_for_def OpPolicy_default_def default_concurrency_cap_def
      word_gt_0 dest!: map_of_SomeD split: option.split)

lemma idle_admits: "valid_config config \<Longrightarrow> engine_ok config fs \<Longrightarrow> idle fs \<Longrightarrow> admitted (fs_engine fs) ctx"
  using admitted_iff [of config "fs_engine fs" ctx] valid_cap [of config "ctx_op ctx"]
  by (simp add: engine_ok_def idle_def)

lemma replied_idle: "replied env config fs ctx unfaulted rep fs' \<Longrightarrow> idle fs' \<longleftrightarrow> idle fs"
  by (simp add: replied_def idle_def)

text \<open>An idle engine makes no request wait, and stays idle whatever becomes of the request.\<close>

lemma handle_idle:
  assumes "valid_config config" "engine_ok config fs" "idle fs" "histogram_constructs (env_hdr env)"
    and "handle env fs ctx closure reply_ok t = (out, fs')"
  shows "out \<noteq> Handler_waits \<and> engine_ok config fs' \<and> idle fs'
    \<and> (out = Handler_panics \<longrightarrow> throttled (policy_for config (ctx_op ctx)) ctx)"
proof -
  obtain o1 eng u where run: "run_op env (fs_engine fs) ctx (\<lambda>_. (Returns closure, ())) () t = (o1, eng, u)"
    by (metis prod.exhaust)
  have ok: "engine_of config (fs_engine fs)" using assms(2) by (simp add: engine_ok_def)
  have nw: "o1 \<noteq> Waits"
    using run_op_waits_iff [OF ok idle_admits [OF assms(1-3)], where body = "\<lambda>_. (Returns closure, ())"] run
    by (metis fst_conv)
  have fs': "fs' = fs\<lparr>fs_engine := eng\<rparr>"
    using assms(5) run by (auto simp: handle_def Let_def split: op_outcome.splits sum.splits)
  have "engine_ok config fs'"
    using engine_of_run_op [OF ok, of env ctx "\<lambda>_. (Returns closure, ())" "()" t] run by (simp add: fs' engine_ok_def)
  moreover have occ: "occupancy eng = occupancy (fs_engine fs)
      \<and> (o1 = Op_panics \<longrightarrow> throttled (policy_for config (ctx_op ctx)) ctx)"
  proof (cases o1)
    case (Finished r)
    show ?thesis using run_op_finished [OF ok run [unfolded Finished]] Finished by simp
  next
    case Op_panics
    show ?thesis using run_op_panicked [OF ok assms(4) run [unfolded Op_panics]] by auto
  qed (use nw in simp)
  ultimately show ?thesis
    using assms(3,5) run nw
    by (auto simp: handle_def Let_def fs' idle_def split: op_outcome.splits sum.splits)
qed

lemma serve_one_idle:
  assumes "valid_config config" "engine_ok config fs" "idle fs" "histogram_constructs (env_hdr env)"
    and "serve_one env add b fs req t = (out, fs')"
  shows "out \<noteq> Handler_waits \<and> engine_ok config fs' \<and> idle fs'
    \<and> (out = Handler_panics \<longrightarrow> throttled (policy_for config (ctx_op (request_ctx fs req))) (request_ctx fs req))"
proof (cases req)
  case (Req_read ino off n)
  show ?thesis
    using assms(5) unfolding Req_read request_ctx.simps serve_one.simps fs_read_def Let_def
    by (rule handle_idle [OF assms(1-4)])
qed (use handle_idle [OF assms(1-4)] assms(5) in \<open>simp_all add: fs_lookup_def fs_getattr_def fs_open_def fs_write_def
    fs_flush_def fs_release_def fs_fsync_def fs_readdir_def fs_statfs_def fs_access_def\<close>)

section \<open>Whole sessions\<close>

lemma serve_all_idle:
  assumes "valid_config config" "engine_ok config fs" "idle fs" "histogram_constructs (env_hdr env)"
    and "serve_all env add b fs reqs = (outs, fs')"
  shows "engine_ok config fs' \<and> idle fs' \<and> length outs = length reqs \<and> Handler_waits \<notin> set outs"
  using assms(2,3,5)
proof (induction reqs arbitrary: fs outs)
  case (Cons x reqs)
  obtain req t where x: "x = (req, t)" by fastforce
  obtain out fs1 where one: "serve_one env add b fs req t = (out, fs1)" by fastforce
  obtain outs2 where rest: "serve_all env add b fs1 reqs = (outs2, fs')" "outs = out # outs2"
    using Cons.prems(3) by (auto simp: x one split: prod.splits)
  show ?case
    using serve_one_idle [OF assms(1) Cons.prems(1,2) assms(4) one] Cons.IH [OF _ _ rest(1)] rest(2) by auto
qed simp

text \<open>A configuration without bandwidth limits for reads and writes.\<close>

definition unlimited_bandwidth :: "OpPolicy \<Rightarrow> bool" where
  "unlimited_bandwidth p \<longleftrightarrow> bandwidth p = None
     \<and> pred_option (\<lambda>t. large_bandwidth (tier_large t) = None) (size_tier p)"

lemma unlimited_not_throttled: "unlimited_bandwidth p \<Longrightarrow> \<not> throttled p ctx"
  by (auto simp: unlimited_bandwidth_def throttled_def routed_large_def)

definition unlimited_config :: "Config \<Rightarrow> bool" where
  "unlimited_config config \<longleftrightarrow> list_all (\<lambda>(f, p). unlimited_bandwidth p) (cfg_ops config)"

lemma unlimited_config_policy: "unlimited_config config \<Longrightarrow> unlimited_bandwidth (policy_for config f)"
  by (auto simp: unlimited_config_def policy_for_def list_all_iff unlimited_bandwidth_def OpPolicy_default_def
      dest!: map_of_SomeD split: option.split)

lemma serve_all_unlimited:
  assumes "valid_config config" "engine_ok config fs" "idle fs" "histogram_constructs (env_hdr env)"
    and "unlimited_config config" "serve_all env add b fs reqs = (outs, fs')"
  shows "\<exists>reps. outs = map Replies reps"
  using assms(2,3,6)
proof (induction reqs arbitrary: fs outs)
  case (Cons x reqs)
  obtain req t where x: "x = (req, t)" by fastforce
  obtain out fs1 where one: "serve_one env add b fs req t = (out, fs1)" by fastforce
  obtain outs2 where rest: "serve_all env add b fs1 reqs = (outs2, fs')" "outs = out # outs2"
    using Cons.prems(3) by (auto simp: x one split: prod.splits)
  note step = serve_one_idle [OF assms(1) Cons.prems(1,2) assms(4) one]
  obtain rep where "out = Replies rep"
    using step unlimited_not_throttled [OF unlimited_config_policy [OF assms(5)]] by (cases out) auto
  moreover obtain reps where "outs2 = map Replies reps" using Cons.IH [OF _ _ rest(1)] step by blast
  ultimately have "outs = map Replies (rep # reps)" using rest(2) by simp
  then show ?case by blast
qed simp

text \<open>The log of a session, as a relation between the filesystems before and after it.\<close>

lemma serve_all_logs:
  assumes "engine_ok config fs" "serve_all env add b fs reqs = (map Replies reps, fs')"
  shows "length reps = length reqs
    \<and> fs' = fs\<lparr>fs_engine := fs_engine fs'\<rparr> \<and> engine_ok config fs'
    \<and> (\<exists>evs. eng_sink (fs_engine fs') = foldl (env_emit env) (eng_sink (fs_engine fs)) evs
      \<and> map ev_op evs = map (\<lambda>(req, t). request_op req) reqs
      \<and> map ev_seq evs = map (\<lambda>i. eng_seq (fs_engine fs) + of_nat i) [0..<length reqs]
      \<and> map ev_errno evs = map reply_errno reps)"
  using assms
proof (induction reqs arbitrary: fs reps)
  case Nil
  then show ?case by (auto intro!: exI [of _ "[]"])
next
  case (Cons x reqs)
  obtain req t where x: "x = (req, t)" by fastforce
  obtain out fs1 where one: "serve_one env add b fs req t = (out, fs1)" by fastforce
  obtain outs2 where "serve_all env add b fs1 reqs = (outs2, fs')" "map Replies reps = out # outs2"
    using Cons.prems(2) by (auto simp: x one split: prod.splits)
  then obtain rep reps2 where r: "reps = rep # reps2" "out = Replies rep"
    "serve_all env add b fs1 reqs = (map Replies reps2, fs')"
    by (cases reps) auto
  have step: "replied env config fs (request_ctx fs req) (unfaulted_reply add b fs req) rep fs1"
    using serve_one_replied [OF Cons.prems(1)] one r(2) by simp
  then obtain ev where ev: "eng_sink (fs_engine fs1) = env_emit env (eng_sink (fs_engine fs)) ev"
    "ev_seq ev = eng_seq (fs_engine fs)" "ev_op ev = request_op req" "ev_errno ev = reply_errno rep"
    by (auto simp: replied_def)
  have fs1: "engine_ok config fs1" "fs1 = fs\<lparr>fs_engine := fs_engine fs1\<rparr>"
    "eng_seq (fs_engine fs1) = eng_seq (fs_engine fs) + 1"
    using step by (auto simp: replied_def)
  from Cons.IH [OF fs1(1) r(3)] obtain evs where
    ih: "length reps2 = length reqs" "fs' = fs1\<lparr>fs_engine := fs_engine fs'\<rparr>" "engine_ok config fs'"
    "eng_sink (fs_engine fs') = foldl (env_emit env) (eng_sink (fs_engine fs1)) evs"
    "map ev_op evs = map (\<lambda>(req, t). request_op req) reqs"
    "map ev_seq evs = map (\<lambda>i. eng_seq (fs_engine fs1) + of_nat i) [0..<length reqs]"
    "map ev_errno evs = map reply_errno reps2"
    by blast
  have "map (\<lambda>i. eng_seq (fs_engine fs) + of_nat i) [0..<length (x # reqs)]
      = eng_seq (fs_engine fs) # map (\<lambda>i. eng_seq (fs_engine fs1) + of_nat i) [0..<length reqs]"
    by (simp add: upt_conv_Cons map_Suc_upt [symmetric] fs1(3) add.assoc del: upt_Suc)
  then have seqs: "map ev_seq (ev # evs) = map (\<lambda>i. eng_seq (fs_engine fs) + of_nat i) [0..<length (x # reqs)]"
    using ih(6) ev(2) by simp
  have "fs' = fs\<lparr>fs_engine := fs_engine fs'\<rparr>" by (subst ih(2), subst fs1(2)) simp
  moreover have "eng_sink (fs_engine fs') = foldl (env_emit env) (eng_sink (fs_engine fs)) (ev # evs)
      \<and> map ev_op (ev # evs) = map (\<lambda>(req, t). request_op req) (x # reqs)
      \<and> map ev_seq (ev # evs) = map (\<lambda>i. eng_seq (fs_engine fs) + of_nat i) [0..<length (x # reqs)]
      \<and> map ev_errno (ev # evs) = map reply_errno reps"
    using ih(4,5,7) ev(1,3,4) seqs by (simp add: x r(1))
  moreover have "length reps = length (x # reqs)" using ih(1) by (simp add: r(1))
  ultimately show ?case using ih(3) by blast
qed

section \<open>Reproducibility\<close>

text \<open>The same files: everything but the engine. The log and the histograms may be of other types.\<close>

definition same_files :: "('s, 'h) FaultFs \<Rightarrow> ('s2, 'h2) FaultFs \<Rightarrow> bool" where
  "same_files fs1 fs2 \<longleftrightarrow> fs_namespace fs1 = fs_namespace fs2 \<and> fs_content fs1 = fs_content fs2
     \<and> attr_ttl fs1 = attr_ttl fs2 \<and> entry_ttl fs1 = entry_ttl fs2"

lemma same_files_ctx: "same_files fs1 fs2 \<Longrightarrow> request_ctx fs1 req = request_ctx fs2 req"
  by (cases req) (simp_all add: same_files_def readable_len_def)

lemma same_files_unfaulted: "same_files fs1 fs2 \<Longrightarrow> unfaulted_reply add b fs1 req = unfaulted_reply add b fs2 req"
  by (cases req) (auto simp: same_files_def file_bytes_def split: option.split)

lemma only_engine_changed:
  "fs' = fs\<lparr>fs_engine := eng\<rparr> \<Longrightarrow> fs_namespace fs' = fs_namespace fs \<and> fs_content fs' = fs_content fs
     \<and> attr_ttl fs' = attr_ttl fs \<and> entry_ttl fs' = entry_ttl fs"
  by simp

lemma replied_same_files:
  assumes "replied env1 config fs1 ctx1 u1 rep1 fs1'" "replied env2 config fs2 ctx2 u2 rep2 fs2'" "same_files fs1 fs2"
  shows "same_files fs1' fs2'"
proof -
  have "fs1' = fs1\<lparr>fs_engine := fs_engine fs1'\<rparr>" "fs2' = fs2\<lparr>fs_engine := fs_engine fs2'\<rparr>"
    using assms(1,2) unfolding replied_def by blast+
  from only_engine_changed [OF this(1)] only_engine_changed [OF this(2)] show ?thesis
    using assms(3) by (simp add: same_files_def)
qed

lemma serve_all_reproducible:
  assumes "valid_config config" "env_rng env1 = env_rng env2"
    and "engine_ok config fs1" "engine_ok config fs2" "idle fs1" "idle fs2" "same_files fs1 fs2"
    and "eng_seq (fs_engine fs1) = eng_seq (fs_engine fs2)" "map fst reqs1 = map fst reqs2"
    and "serve_all env1 add b fs1 reqs1 = (map Replies reps1, fs1')"
    and "serve_all env2 add b fs2 reqs2 = (map Replies reps2, fs2')"
  shows "reps1 = reps2"
  using assms(3-)
proof (induction reqs1 arbitrary: fs1 fs2 reps1 reps2 reqs2)
  case (Cons x reqs1)
  obtain req t1 where x: "x = (req, t1)" by fastforce
  obtain t2 rs2 where y: "reqs2 = (req, t2) # rs2" "map fst reqs1 = map fst rs2"
    using Cons.prems(7) by (cases reqs2) (auto simp: x)
  obtain rep1 reps1' f1 where one: "serve_one env1 add b fs1 req t1 = (Replies rep1, f1)"
    "serve_all env1 add b f1 reqs1 = (map Replies reps1', fs1')" "reps1 = rep1 # reps1'"
    using Cons.prems(8) by (cases reps1) (auto simp: x split: prod.splits)
  obtain rep2 reps2' f2 where two: "serve_one env2 add b fs2 req t2 = (Replies rep2, f2)"
    "serve_all env2 add b f2 rs2 = (map Replies reps2', fs2')" "reps2 = rep2 # reps2'"
    using Cons.prems(9) by (cases reps2) (auto simp: y split: prod.splits)
  note s1 = serve_one_replied [OF Cons.prems(1) one(1)] and s2 = serve_one_replied [OF Cons.prems(2) two(1)]
  have adm: "admitted (fs_engine fs1) c" "admitted (fs_engine fs2) c" for c
    using idle_admits [OF assms(1)] Cons.prems(1-4) by auto
  have "rep1 = rep2"
    using s1 s2 adm Cons.prems(6) same_files_ctx [OF Cons.prems(5), of req]
      same_files_unfaulted [OF Cons.prems(5), of add b req]
    by (simp add: replied_def reply_for_def assms(2))
  moreover have "reps1' = reps2'"
  proof (rule Cons.IH [OF _ _ _ _ _ _ y(2) one(2) two(2)])
    show "engine_ok config f1" "engine_ok config f2" "eng_seq (fs_engine f1) = eng_seq (fs_engine f2)"
      using s1 s2 Cons.prems(6) by (simp_all add: replied_def)
    show "idle f1" "idle f2" using replied_idle [OF s1] replied_idle [OF s2] Cons.prems(3,4) by simp_all
    show "same_files f1 f2" by (rule replied_same_files [OF s1 s2 Cons.prems(5)])
  qed
  ultimately show ?case by (simp add: one(3) two(3))
next
  case Nil
  then show ?case by simp
qed

section \<open>Properties\<close>


text \<open>C22. A session makes progress: with a valid configuration, requests served one after the other
  never wait in a limiter, each gets its outcome, and the simulator is idle again after each;
  when no policy limits the bandwidth, every single request is replied to.\<close>

theorem sessions_never_block:
  assumes "valid_config config" "histogram_constructs (env_hdr env)"
    and "serve_all env add b (FaultFs_new (SimEngine_new config sink now) ns c) reqs = (outs, fs')"
  shows "length outs = length reqs \<and> Handler_waits \<notin> set outs \<and> idle fs'
    \<and> (unlimited_config config \<longrightarrow> (\<exists>reps. outs = map Replies reps))"
  using serve_all_idle [OF assms(1) engine_ok_new idle_new assms(2,3)]
    serve_all_unlimited [OF assms(1) engine_ok_new idle_new assms(2) _ assms(3)]
  by blast

lemma demo_config_valid: "valid_config Config_default \<and> unlimited_config Config_default"
  by (simp add: valid_config_def Config_default_def FilesConfig_default_def default_inode_count_def
      default_file_size_bytes_def unlimited_config_def)

definition demo_requests :: "(request \<times> readings) list" where
  "demo_requests = [(Req_lookup 1 ''objects'', demo_times), (Req_open 100, demo_times),
     (Req_read 100 8 4096, demo_times), (Req_write 100 0 [1, 2, 3], demo_times), (Req_release 100, demo_times)]"

theorem sessions_never_block_witness:
  "\<exists>reps. fst (serve_all demo_env (bounded_reply 1) [] demo_fs demo_requests) = map Replies reps"
proof -
  obtain outs fs' where run: "serve_all demo_env (bounded_reply 1) [] demo_fs demo_requests = (outs, fs')"
    by fastforce
  show ?thesis
    using run sessions_never_block [OF _ demo_constructs run [unfolded demo_fs_def demo_engine_def]]
      demo_config_valid
    by simp
qed

lemma demo_session:
  obtains reps fs' where "serve_all demo_env (bounded_reply 1) [] demo_fs demo_requests = (map Replies reps, fs')"
proof -
  obtain outs fs' where run: "serve_all demo_env (bounded_reply 1) [] demo_fs demo_requests = (outs, fs')"
    by fastforce
  have "valid_config Config_default" "unlimited_config Config_default" using demo_config_valid by auto
  then obtain reps where "outs = map Replies reps"
    using serve_all_unlimited [OF _ engine_ok_new idle_new demo_constructs _ run [unfolded demo_fs_def demo_engine_def]]
    by blast
  then show thesis using that run by blast
qed


text \<open>The log of a session is its transcript: when every request is replied to, the sink has
  received exactly one event per request, in order, numbered consecutively from zero, with the
  operation of the request and the errno of its reply, and the files are unchanged.\<close>

theorem session_log_is_transcript:
  assumes "serve_all env add b (FaultFs_new (SimEngine_new config sink now) ns c) reqs = (map Replies reps, fs')"
  shows "\<exists>evs. eng_sink (fs_engine fs') = foldl (env_emit env) sink evs
    \<and> map ev_op evs = map (\<lambda>(req, t). request_op req) reqs
    \<and> map ev_seq evs = map of_nat [0..<length reqs]
    \<and> map ev_errno evs = map reply_errno reps
    \<and> fs_namespace fs' = ns \<and> fs_content fs' = c"
proof -
  note log = serve_all_logs [OF engine_ok_new assms]
  have "fs_namespace fs' = ns \<and> fs_content fs' = c"
    using only_engine_changed [OF log [THEN conjunct2, THEN conjunct1]] by (simp add: FaultFs_new_def)
  then show ?thesis
    using log [THEN conjunct2, THEN conjunct2, THEN conjunct2] by (simp add: FaultFs_new_def SimEngine_new_def)
qed

theorem session_log_is_transcript_witness:
  "\<exists>reps fs'. serve_all demo_env (bounded_reply 1) [] demo_fs demo_requests = (map Replies reps, fs')
    \<and> map ev_op (eng_sink (fs_engine fs')) = [Lookup, Open, Read, FsOp.Write, Release]
    \<and> map ev_seq (eng_sink (fs_engine fs')) = [0, 1, 2, 3, 4]"
proof (rule demo_session)
  fix reps fs'
  assume run: "serve_all demo_env (bounded_reply 1) [] demo_fs demo_requests = (map Replies reps, fs')"
  have "foldl (\<lambda>s e. s @ [e]) xs evs = xs @ evs" for xs evs :: "Event list"
    by (induction evs arbitrary: xs) simp_all
  then show ?thesis
    using run session_log_is_transcript [OF run [unfolded demo_fs_def demo_engine_def]]
    by (auto simp: demo_env_def demo_requests_def upt_rec)
qed

end
