(* ===== verification/Config_Toml.thy ===== *)
theory Config_Toml
  imports Configuration "HOL-Library.Monad_Syntax"
begin

text \<open>
  The TOML form of the configuration (\<open>fusecraft-core/src/config.rs\<close>): what the \<open>serde\<close>
  attributes of the structures say of reading them from a TOML document and of writing them.
  The text of a document is the \<open>toml\<close> crate's; the model starts from the tree of tables and
  values. A missing key takes the default its attribute names, or is an error when there is
  none; a key no field has is ignored; an absent \<open>Option\<close> is not written.

  The conversions of the primitive types belong to \<open>serde\<close> and \<open>toml\<close> and are parameters. The
  texts of the errors are theirs too: reading gives \<open>None\<close> for any error. The sequence form of
  a structure, which derived implementations also accept, is not modelled.
\<close>

section \<open>Documents\<close>

datatype toml =
    TString string
  | TInteger int
  | TFloat f64
  | TBoolean bool
  | TDatetime string
  | TArray "toml list"
  | TTable "(string \<times> toml) list"

type_synonym toml_table = "(string \<times> toml) list"

text \<open>Reading and writing of the primitive types; writing an integer may be out of range.\<close>

record primitives =
  de_u64 :: "toml \<Rightarrow> u64 option"
  de_f64 :: "toml \<Rightarrow> f64 option"
  de_bool :: "toml \<Rightarrow> bool option"
  de_string :: "toml \<Rightarrow> string option"
  ser_u64 :: "u64 \<Rightarrow> toml option"
  ser_f64 :: "f64 \<Rightarrow> toml option"
  ser_i32 :: "i32 \<Rightarrow> toml option"
  ser_bool :: "bool \<Rightarrow> toml option"
  ser_string :: "string \<Rightarrow> toml option"

text \<open>What is written is read back, and a number is not a string.\<close>

definition primitives_roundtrip :: "primitives \<Rightarrow> bool" where
  "primitives_roundtrip P \<longleftrightarrow>
     (\<forall>n v. ser_u64 P n = Some v \<longrightarrow> de_u64 P v = Some n)
     \<and> (\<forall>x v. ser_f64 P x = Some v \<longrightarrow> de_f64 P v = Some x)
     \<and> (\<forall>b v. ser_bool P b = Some v \<longrightarrow> de_bool P v = Some b)
     \<and> (\<forall>s v. ser_string P s = Some v \<longrightarrow> de_string P v = Some s)
     \<and> (\<forall>n v. ser_i32 P n = Some v \<longrightarrow> de_string P v = None)"

text \<open>A field: read its value if the key is there, else take the default.\<close>

definition field :: "toml_table \<Rightarrow> string \<Rightarrow> (toml \<Rightarrow> 'a option) \<Rightarrow> 'a option \<Rightarrow> 'a option" where
  "field t k de dflt = (case map_of t k of Some v \<Rightarrow> de v | None \<Rightarrow> dflt)"

definition as_table :: "toml \<Rightarrow> toml_table option" where
  "as_table v = (case v of TTable t \<Rightarrow> Some t | _ \<Rightarrow> None)"

definition as_array :: "toml \<Rightarrow> toml list option" where
  "as_array v = (case v of TArray vs \<Rightarrow> Some vs | _ \<Rightarrow> None)"

fun sequence :: "'a option list \<Rightarrow> 'a list option" where
  "sequence [] = Some []"
| "sequence (x # xs) = do { v \<leftarrow> x; vs \<leftarrow> sequence xs; Some (v # vs) }"

definition de_vec :: "(toml \<Rightarrow> 'a option) \<Rightarrow> toml \<Rightarrow> 'a list option" where
  "de_vec de v = do { vs \<leftarrow> as_array v; sequence (map de vs) }"

text \<open>The unit variants of an enumeration are their lower-case names.\<close>

definition de_op :: "primitives \<Rightarrow> toml \<Rightarrow> FsOp option" where
  "de_op P v = do { s \<leftarrow> de_string P v; FsOp_of_serde s }"

definition de_root_layout :: "primitives \<Rightarrow> toml \<Rightarrow> RootLayout option" where
  "de_root_layout P v = do { s \<leftarrow> de_string P v; if s = ''flat'' then Some Flat else None }"

definition de_write_mode :: "primitives \<Rightarrow> toml \<Rightarrow> WriteMode option" where
  "de_write_mode P v = do { s \<leftarrow> de_string P v; if s = ''discard'' then Some Discard else None }"

section \<open>Reading\<close>

definition de_mount :: "primitives \<Rightarrow> toml \<Rightarrow> MountConfig option" where
  "de_mount P v = do {
     t \<leftarrow> as_table v;
     a \<leftarrow> field t ''fs_name'' (de_string P) (Some default_fs_name);
     b \<leftarrow> field t ''subtype'' (de_string P) (Some default_subtype);
     c \<leftarrow> field t ''auto_unmount'' (de_bool P) (Some True);
     d \<leftarrow> field t ''default_permissions'' (de_bool P) (Some True);
     e \<leftarrow> field t ''read_only'' (de_bool P) (Some False);
     f \<leftarrow> field t ''direct_io'' (de_bool P) (Some False);
     Some \<lparr>fs_name = a, subtype = b, auto_unmount = c, default_permissions = d, read_only = e, direct_io = f\<rparr> }"

definition de_files :: "primitives \<Rightarrow> toml \<Rightarrow> FilesConfig option" where
  "de_files P v = do {
     t \<leftarrow> as_table v;
     a \<leftarrow> field t ''inode_count'' (de_u64 P) (Some default_inode_count);
     b \<leftarrow> field t ''file_size_bytes'' (de_u64 P) (Some default_file_size_bytes);
     c \<leftarrow> field t ''root_layout'' (de_root_layout P) (Some Flat);
     d \<leftarrow> field t ''write_mode'' (de_write_mode P) (Some Discard);
     Some \<lparr>inode_count = a, file_size_bytes = b, root_layout = c, write_mode = d\<rparr> }"

definition de_latency :: "primitives \<Rightarrow> toml \<Rightarrow> LatencyProfile option" where
  "de_latency P v = do {
     t \<leftarrow> as_table v;
     a \<leftarrow> field t ''base_us'' (de_u64 P) (Some 0);
     b \<leftarrow> field t ''lognormal_median_us'' (de_f64 P) (Some default_lognormal_median);
     c \<leftarrow> field t ''lognormal_sigma'' (de_f64 P) (Some default_lognormal_sigma);
     d \<leftarrow> field t ''pareto_weight'' (de_f64 P) (Some (Finite 0));
     e \<leftarrow> field t ''pareto_xm_us'' (de_f64 P) (Some default_pareto_xm);
     f \<leftarrow> field t ''pareto_alpha'' (de_f64 P) (Some default_pareto_alpha);
     g \<leftarrow> field t ''max_us'' (de_u64 P) (Some default_max_us);
     Some \<lparr>base_us = a, lognormal_median_us = b, lognormal_sigma = c, pareto_weight = d,
       pareto_xm_us = e, pareto_alpha = f, max_us = g\<rparr> }"

text \<open>The two hand-written readers go through their raw structures, whose keys are required.\<close>

definition de_bandwidth :: "primitives \<Rightarrow> toml \<Rightarrow> BandwidthProfile option" where
  "de_bandwidth P v = do {
     t \<leftarrow> as_table v;
     a \<leftarrow> field t ''mib_per_sec'' (de_f64 P) None;
     b \<leftarrow> field t ''burst_bytes'' (de_u64 P) None;
     Some (BandwidthProfile_of_raw \<lparr>mib_per_sec = a, raw_burst_bytes = b\<rparr>) }"

definition de_fault :: "primitives \<Rightarrow> toml \<Rightarrow> FaultRule option" where
  "de_fault P v = do {
     t \<leftarrow> as_table v;
     a \<leftarrow> field t ''op'' (de_op P) None;
     b \<leftarrow> field t ''errno'' (de_string P) None;
     c \<leftarrow> field t ''rate'' (de_f64 P) None;
     (case FaultRule_of_raw \<lparr>raw_op = a, raw_errno = b, raw_rate = c\<rparr> of Inr r \<Rightarrow> Some r | Inl _ \<Rightarrow> None) }"

definition de_large :: "primitives \<Rightarrow> toml \<Rightarrow> LargeTierPolicy option" where
  "de_large P v = do {
     t \<leftarrow> as_table v;
     a \<leftarrow> field t ''latency'' (de_latency P) (Some LatencyProfile_default);
     b \<leftarrow> field t ''bandwidth'' (\<lambda>v. map_option Some (de_bandwidth P v)) (Some None);
     c \<leftarrow> field t ''faults'' (de_vec (de_fault P)) (Some []);
     Some \<lparr>large_latency = a, large_bandwidth = b, large_faults = c\<rparr> }"

definition de_tier :: "primitives \<Rightarrow> toml \<Rightarrow> SizeTier option" where
  "de_tier P v = do {
     t \<leftarrow> as_table v;
     a \<leftarrow> field t ''threshold_bytes'' (de_u64 P) None;
     b \<leftarrow> field t ''large'' (de_large P) None;
     Some \<lparr>threshold_bytes = a, tier_large = b\<rparr> }"

definition de_policy :: "primitives \<Rightarrow> toml \<Rightarrow> OpPolicy option" where
  "de_policy P v = do {
     t \<leftarrow> as_table v;
     a \<leftarrow> field t ''concurrency_cap'' (de_u64 P) (Some default_concurrency_cap);
     b \<leftarrow> field t ''queue_cap'' (de_u64 P) (Some 0);
     c \<leftarrow> field t ''latency'' (de_latency P) (Some LatencyProfile_default);
     d \<leftarrow> field t ''bandwidth'' (\<lambda>v. map_option Some (de_bandwidth P v)) (Some None);
     e \<leftarrow> field t ''faults'' (de_vec (de_fault P)) (Some []);
     f \<leftarrow> field t ''size_tier'' (\<lambda>v. map_option Some (de_tier P v)) (Some None);
     Some \<lparr>concurrency_cap = a, queue_cap = b, latency = c, bandwidth = d, faults = e, size_tier = f\<rparr> }"

text \<open>The map of policies: every key is the name of an operation.\<close>

definition de_ops :: "primitives \<Rightarrow> toml \<Rightarrow> (FsOp \<times> OpPolicy) list option" where
  "de_ops P v = do {
     t \<leftarrow> as_table v;
     sequence (map (\<lambda>(k, v). do { f \<leftarrow> FsOp_of_serde k; p \<leftarrow> de_policy P v; Some (f, p) }) t) }"

definition de_metrics :: "primitives \<Rightarrow> toml \<Rightarrow> MetricsConfig option" where
  "de_metrics P v = do {
     t \<leftarrow> as_table v;
     a \<leftarrow> field t ''jsonl_path'' (\<lambda>v. map_option Some (de_string P v)) (Some None);
     Some \<lparr>jsonl_path = a\<rparr> }"

definition de_config :: "primitives \<Rightarrow> toml \<Rightarrow> Config option" where
  "de_config P v = do {
     t \<leftarrow> as_table v;
     a \<leftarrow> field t ''seed'' (de_u64 P) (Some default_seed);
     b \<leftarrow> field t ''mount'' (de_mount P) (Some MountConfig_default);
     c \<leftarrow> field t ''files'' (de_files P) (Some FilesConfig_default);
     d \<leftarrow> field t ''ops'' (de_ops P) (Some []);
     e \<leftarrow> field t ''metrics'' (de_metrics P) (Some \<lparr>jsonl_path = None\<rparr>);
     Some \<lparr>cfg_seed = a, cfg_mount = b, cfg_files = c, cfg_ops = d, cfg_metrics = e\<rparr> }"

section \<open>Writing\<close>

text \<open>The fields in their order; an absent option leaves its key out.\<close>

definition ser_option :: "('a \<Rightarrow> toml option) \<Rightarrow> 'a option \<Rightarrow> toml option option" where
  "ser_option ser x = (case x of None \<Rightarrow> Some None | Some y \<Rightarrow> map_option Some (ser y))"

fun ser_fields :: "(string \<times> toml option option) list \<Rightarrow> toml_table option" where
  "ser_fields [] = Some []"
| "ser_fields ((k, x) # fs) = do {
     v \<leftarrow> x; t \<leftarrow> ser_fields fs;
     Some (case v of None \<Rightarrow> t | Some v \<Rightarrow> (k, v) # t) }"

definition ser_struct :: "(string \<times> toml option option) list \<Rightarrow> toml option" where
  "ser_struct fs = map_option TTable (ser_fields fs)"

definition req :: "toml option \<Rightarrow> toml option option" where "req x = map_option Some x"

definition ser_vec :: "('a \<Rightarrow> toml option) \<Rightarrow> 'a list \<Rightarrow> toml option" where
  "ser_vec ser xs = map_option TArray (sequence (map ser xs))"

definition ser_mount :: "primitives \<Rightarrow> MountConfig \<Rightarrow> toml option" where
  "ser_mount P m = ser_struct
     [(''fs_name'', req (ser_string P (fs_name m))), (''subtype'', req (ser_string P (subtype m))),
      (''auto_unmount'', req (ser_bool P (auto_unmount m))),
      (''default_permissions'', req (ser_bool P (default_permissions m))),
      (''read_only'', req (ser_bool P (read_only m))), (''direct_io'', req (ser_bool P (direct_io m)))]"

definition ser_files :: "primitives \<Rightarrow> FilesConfig \<Rightarrow> toml option" where
  "ser_files P f = ser_struct
     [(''inode_count'', req (ser_u64 P (inode_count f))),
      (''file_size_bytes'', req (ser_u64 P (file_size_bytes f))),
      (''root_layout'', req (case root_layout f of Flat \<Rightarrow> ser_string P ''flat'')),
      (''write_mode'', req (case write_mode f of Discard \<Rightarrow> ser_string P ''discard''))]"

definition ser_latency :: "primitives \<Rightarrow> LatencyProfile \<Rightarrow> toml option" where
  "ser_latency P l = ser_struct
     [(''base_us'', req (ser_u64 P (base_us l))),
      (''lognormal_median_us'', req (ser_f64 P (lognormal_median_us l))),
      (''lognormal_sigma'', req (ser_f64 P (lognormal_sigma l))),
      (''pareto_weight'', req (ser_f64 P (pareto_weight l))),
      (''pareto_xm_us'', req (ser_f64 P (pareto_xm_us l))),
      (''pareto_alpha'', req (ser_f64 P (pareto_alpha l))),
      (''max_us'', req (ser_u64 P (max_us l)))]"

text \<open>The derived writers of the two structures with hand-written readers.\<close>

definition ser_bandwidth :: "primitives \<Rightarrow> BandwidthProfile \<Rightarrow> toml option" where
  "ser_bandwidth P b = ser_struct
     [(''bytes_per_sec'', req (ser_f64 P (bytes_per_sec b))),
      (''burst_bytes'', req (ser_u64 P (burst_bytes b)))]"

definition ser_fault :: "primitives \<Rightarrow> FaultRule \<Rightarrow> toml option" where
  "ser_fault P r = ser_struct
     [(''op'', req (ser_string P (serde_name (rule_op r)))), (''errno'', req (ser_i32 P (rule_errno r))),
      (''rate'', req (ser_f64 P (rule_rate r)))]"

definition ser_large :: "primitives \<Rightarrow> LargeTierPolicy \<Rightarrow> toml option" where
  "ser_large P l = ser_struct
     [(''latency'', req (ser_latency P (large_latency l))),
      (''bandwidth'', ser_option (ser_bandwidth P) (large_bandwidth l)),
      (''faults'', req (ser_vec (ser_fault P) (large_faults l)))]"

definition ser_tier :: "primitives \<Rightarrow> SizeTier \<Rightarrow> toml option" where
  "ser_tier P s = ser_struct
     [(''threshold_bytes'', req (ser_u64 P (threshold_bytes s))),
      (''large'', req (ser_large P (tier_large s)))]"

definition ser_policy :: "primitives \<Rightarrow> OpPolicy \<Rightarrow> toml option" where
  "ser_policy P p = ser_struct
     [(''concurrency_cap'', req (ser_u64 P (concurrency_cap p))),
      (''queue_cap'', req (ser_u64 P (queue_cap p))),
      (''latency'', req (ser_latency P (latency p))),
      (''bandwidth'', ser_option (ser_bandwidth P) (bandwidth p)),
      (''faults'', req (ser_vec (ser_fault P) (faults p))),
      (''size_tier'', ser_option (ser_tier P) (size_tier p))]"

definition ser_ops :: "primitives \<Rightarrow> (FsOp \<times> OpPolicy) list \<Rightarrow> toml option" where
  "ser_ops P ops = ser_struct (map (\<lambda>(f, p). (serde_name f, req (ser_policy P p))) ops)"

definition ser_metrics :: "primitives \<Rightarrow> MetricsConfig \<Rightarrow> toml option" where
  "ser_metrics P m = ser_struct [(''jsonl_path'', ser_option (ser_string P) (jsonl_path m))]"

definition ser_config :: "primitives \<Rightarrow> Config \<Rightarrow> toml option" where
  "ser_config P c = ser_struct
     [(''seed'', req (ser_u64 P (cfg_seed c))), (''mount'', req (ser_mount P (cfg_mount c))),
      (''files'', req (ser_files P (cfg_files c))), (''ops'', req (ser_ops P (cfg_ops c))),
      (''metrics'', req (ser_metrics P (cfg_metrics c)))]"

section \<open>Reading back\<close>

lemma option_bind_eq_Some [simp]:
  "Option.bind x f = Some y \<longleftrightarrow> (\<exists>v. x = Some v \<and> f v = Some y)"
  by (cases x) auto

lemma ser_structE:
  assumes "ser_struct fs = Some v"
  obtains t where "v = TTable t" "ser_fields fs = Some t"
  using assms by (auto simp: ser_struct_def)

lemma req_Some [simp]: "req x = Some y \<longleftrightarrow> (\<exists>v. x = Some v \<and> y = Some v)"
  by (cases x) (auto simp: req_def)

lemma ser_option_Some [simp]:
  "ser_option ser x = Some y \<longleftrightarrow> (x = None \<and> y = None \<or> (\<exists>a v. x = Some a \<and> ser a = Some v \<and> y = Some v))"
  by (cases x) (auto simp: ser_option_def)

lemma as_table_TTable [simp]: "as_table (TTable t) = Some t" by (simp add: as_table_def)
lemma as_array_TArray [simp]: "as_array (TArray vs) = Some vs" by (simp add: as_array_def)

lemma primitives_roundtripD:
  assumes "primitives_roundtrip P"
  shows "ser_u64 P n = Some v \<Longrightarrow> de_u64 P v = Some n" "ser_f64 P x = Some v \<Longrightarrow> de_f64 P v = Some x"
    "ser_bool P b = Some v \<Longrightarrow> de_bool P v = Some b" "ser_string P s = Some v \<Longrightarrow> de_string P v = Some s"
    "ser_i32 P i = Some v \<Longrightarrow> de_string P v = None"
  using assms by (auto simp: primitives_roundtrip_def)

lemma mount_roundtrip: "primitives_roundtrip P \<Longrightarrow> ser_mount P m = Some v \<Longrightarrow> de_mount P v = Some m"
  by (auto simp: ser_mount_def de_mount_def ser_struct_def field_def primitives_roundtripD)

lemma files_roundtrip: "primitives_roundtrip P \<Longrightarrow> ser_files P f = Some v \<Longrightarrow> de_files P v = Some f"
  by (cases "root_layout f"; cases "write_mode f")
    (auto simp: ser_files_def de_files_def ser_struct_def field_def primitives_roundtripD de_root_layout_def
      de_write_mode_def)

lemma latency_roundtrip: "primitives_roundtrip P \<Longrightarrow> ser_latency P l = Some v \<Longrightarrow> de_latency P v = Some l"
  by (auto simp: ser_latency_def de_latency_def ser_struct_def field_def primitives_roundtripD)

lemma metrics_roundtrip: "primitives_roundtrip P \<Longrightarrow> ser_metrics P m = Some v \<Longrightarrow> de_metrics P v = Some m"
  by (auto simp: ser_metrics_def de_metrics_def ser_struct_def field_def primitives_roundtripD)

lemma bandwidth_not_read_back: "ser_bandwidth P b = Some v \<Longrightarrow> de_bandwidth P v = None"
  by (auto simp: ser_bandwidth_def de_bandwidth_def ser_struct_def field_def)

lemma fault_not_read_back: "primitives_roundtrip P \<Longrightarrow> ser_fault P r = Some v \<Longrightarrow> de_fault P v = None"
  by (auto simp: ser_fault_def de_fault_def ser_struct_def field_def primitives_roundtripD bind_eq_None_conv)

text \<open>
  What is read back: everything but a bandwidth profile, whose writer leaves out the key
  \<open>mib_per_sec\<close> its reader requires, and a fault rule, whose errno is written as a number and
  read as a name.
\<close>

definition plain_large :: "LargeTierPolicy \<Rightarrow> bool" where
  "plain_large l \<longleftrightarrow> large_bandwidth l = None \<and> large_faults l = []"

definition plain_policy :: "OpPolicy \<Rightarrow> bool" where
  "plain_policy p \<longleftrightarrow> bandwidth p = None \<and> faults p = [] \<and> pred_option (\<lambda>s. plain_large (tier_large s)) (size_tier p)"

definition reads_back :: "Config \<Rightarrow> bool" where
  "reads_back c \<longleftrightarrow> list_all (\<lambda>(f, p). plain_policy p) (cfg_ops c)"

lemma bind_None_I: "x = None \<Longrightarrow> Option.bind x f = None" by simp

lemma faults_read_back:
  assumes "primitives_roundtrip P" "ser_vec (ser_fault P) rs = Some v"
  shows "de_vec (de_fault P) v = (if rs = [] then Some [] else None)"
proof (cases rs)
  case (Cons r rs')
  then show ?thesis
    using assms(2) fault_not_read_back [OF assms(1), of r] by (auto simp: ser_vec_def de_vec_def)
qed (use assms(2) in \<open>auto simp: ser_vec_def de_vec_def\<close>)

text \<open>Reading the fields that were written.\<close>

lemma large_read_back:
  assumes "primitives_roundtrip P" "ser_large P l = Some v"
  shows "de_large P v = (if plain_large l then Some l else None)"
proof -
  obtain a b c where f: "ser_latency P (large_latency l) = Some a"
    "ser_option (ser_bandwidth P) (large_bandwidth l) = Some b" "ser_vec (ser_fault P) (large_faults l) = Some c"
    "v = TTable ((''latency'', a) # (case b of None \<Rightarrow> [(''faults'', c)] | Some b \<Rightarrow> [(''bandwidth'', b), (''faults'', c)]))"
    using assms(2) by (auto simp: ser_large_def ser_struct_def split: option.splits)
  note rb = latency_roundtrip [OF assms(1) f(1)] faults_read_back [OF assms(1) f(3)]
  show ?thesis
  proof (cases "large_bandwidth l")
    case None
    then show ?thesis using f(2,4) by (simp add: de_large_def field_def rb plain_large_def ser_option_def)
  next
    case (Some bw)
    then show ?thesis
      using f(2,4) bandwidth_not_read_back [of P bw]
      by (auto simp: de_large_def field_def rb plain_large_def ser_option_def)
  qed
qed

lemma tier_read_back:
  assumes "primitives_roundtrip P" "ser_tier P t = Some v"
  shows "de_tier P v = (if plain_large (tier_large t) then Some t else None)"
proof -
  obtain a b where f: "ser_u64 P (threshold_bytes t) = Some a" "ser_large P (tier_large t) = Some b"
    "v = TTable [(''threshold_bytes'', a), (''large'', b)]"
    using assms(2) by (auto simp: ser_tier_def ser_struct_def)
  show ?thesis
    using large_read_back [OF assms(1) f(2)] primitives_roundtripD(1) [OF assms(1) f(1)] f(3)
    by (simp add: de_tier_def field_def)
qed

lemma policy_read_back:
  assumes "primitives_roundtrip P" "ser_policy P p = Some v"
  shows "de_policy P v = (if plain_policy p then Some p else None)"
proof -
  obtain a b c d e f where s: "ser_u64 P (concurrency_cap p) = Some a" "ser_u64 P (OpPolicy.queue_cap p) = Some b"
    "ser_latency P (latency p) = Some c" "ser_option (ser_bandwidth P) (bandwidth p) = Some d"
    "ser_vec (ser_fault P) (faults p) = Some e" "ser_option (ser_tier P) (size_tier p) = Some f"
    "v = TTable ([(''concurrency_cap'', a), (''queue_cap'', b), (''latency'', c)]
      @ (case d of None \<Rightarrow> [] | Some d \<Rightarrow> [(''bandwidth'', d)]) @ [(''faults'', e)]
      @ (case f of None \<Rightarrow> [] | Some f \<Rightarrow> [(''size_tier'', f)]))"
    using assms(2) by (auto simp: ser_policy_def ser_struct_def split: option.splits)
  note rb = primitives_roundtripD(1) [OF assms(1) s(1)] primitives_roundtripD(1) [OF assms(1) s(2)]
    latency_roundtrip [OF assms(1) s(3)] faults_read_back [OF assms(1) s(5)]
  have bw: "bandwidth p = None \<and> d = None \<or> (\<exists>d'. bandwidth p \<noteq> None \<and> d = Some d' \<and> de_bandwidth P d' = None)"
    using s(4) bandwidth_not_read_back by auto
  have tier: "size_tier p = None \<and> f = None
      \<or> (\<exists>f' t. size_tier p = Some t \<and> f = Some f' \<and> de_tier P f' = (if plain_large (tier_large t) then Some t else None))"
  proof (cases "size_tier p")
    case (Some t)
    then obtain f' where "f = Some f'" "ser_tier P t = Some f'" using s(6) by auto
    then show ?thesis using tier_read_back [OF assms(1)] Some by blast
  qed (use s(6) in simp)
  show ?thesis
    unfolding s(7) using bw tier
    by (elim disjE exE conjE) (simp_all add: de_policy_def field_def rb plain_policy_def)
qed

lemma ops_read_back:
  assumes "primitives_roundtrip P" "ser_ops P ops = Some v"
  shows "de_ops P v = (if list_all (\<lambda>(f, p). plain_policy p) ops then Some ops else None)"
  using assms(2)
proof (induction ops arbitrary: v)
  case (Cons x ops)
  obtain f p where x: "x = (f, p)" by fastforce
  obtain a t where a: "ser_policy P p = Some a" "ser_ops P ops = Some (TTable t)"
    "v = TTable ((serde_name f, a) # t)"
    using Cons.prems by (auto simp: x ser_ops_def ser_struct_def)
  show ?case
    using Cons.IH [OF a(2)] policy_read_back [OF assms(1) a(1)]
    by (auto simp: x a(3) de_ops_def)
qed (auto simp: ser_ops_def ser_struct_def de_ops_def)

lemma config_read_back:
  assumes "primitives_roundtrip P" "ser_config P c = Some v"
  shows "de_config P v = (if reads_back c then Some c else None)"
proof -
  obtain a b d e f where s: "ser_u64 P (cfg_seed c) = Some a" "ser_mount P (cfg_mount c) = Some b"
    "ser_files P (cfg_files c) = Some d" "ser_ops P (cfg_ops c) = Some e" "ser_metrics P (cfg_metrics c) = Some f"
    "v = TTable [(''seed'', a), (''mount'', b), (''files'', d), (''ops'', e), (''metrics'', f)]"
    using assms(2) by (auto simp: ser_config_def ser_struct_def)
  note rb = primitives_roundtripD(1) [OF assms(1) s(1)] mount_roundtrip [OF assms(1) s(2)]
    files_roundtrip [OF assms(1) s(3)] ops_read_back [OF assms(1) s(4)] metrics_roundtrip [OF assms(1) s(5)]
  show ?thesis by (simp add: s(6) de_config_def field_def rb reads_back_def)
qed

section \<open>Concrete conversions\<close>

text \<open>The conversions of \<open>serde\<close> and \<open>toml\<close> on the values they share: integers are 64-bit signed.\<close>

definition toml_prims :: primitives where
  "toml_prims = \<lparr>
     de_u64 = (\<lambda>v. case v of TInteger n \<Rightarrow> if 0 \<le> n \<and> n < 2 ^ 64 then Some (of_int n) else None | _ \<Rightarrow> None),
     de_f64 = (\<lambda>v. case v of TFloat x \<Rightarrow> Some x | TInteger n \<Rightarrow> Some (f64_of_rat False (of_int n)) | _ \<Rightarrow> None),
     de_bool = (\<lambda>v. case v of TBoolean b \<Rightarrow> Some b | _ \<Rightarrow> None),
     de_string = (\<lambda>v. case v of TString s \<Rightarrow> Some s | _ \<Rightarrow> None),
     ser_u64 = (\<lambda>n. if uint n < 2 ^ 63 then Some (TInteger (uint n)) else None),
     ser_f64 = (\<lambda>x. Some (TFloat x)), ser_i32 = (\<lambda>n. Some (TInteger n)),
     ser_bool = (\<lambda>b. Some (TBoolean b)), ser_string = (\<lambda>s. Some (TString s))\<rparr>"

lemma toml_prims_roundtrip: "primitives_roundtrip toml_prims"
  by (auto simp: primitives_roundtrip_def toml_prims_def)

section \<open>Properties\<close>

text \<open>The defaults of the file format are the defaults of the program: at every level, an empty
  table is read as the \<open>Default\<close> of its structure, so a missing section and an empty one mean
  the same, and an empty document is the default configuration.\<close>

theorem empty_tables_are_defaults:
  "de_config P (TTable []) = Some Config_default
   \<and> de_config P (TTable [(''mount'', TTable []), (''files'', TTable []), (''ops'', TTable []), (''metrics'', TTable [])])
      = Some Config_default
   \<and> de_mount P (TTable []) = Some MountConfig_default \<and> de_files P (TTable []) = Some FilesConfig_default
   \<and> de_policy P (TTable []) = Some OpPolicy_default \<and> de_latency P (TTable []) = Some LatencyProfile_default
   \<and> de_large P (TTable []) = Some LargeTierPolicy_default"
  by (simp add: de_config_def de_mount_def de_files_def de_policy_def de_latency_def de_large_def de_ops_def
      de_metrics_def field_def Config_default_def MountConfig_default_def FilesConfig_default_def
      OpPolicy_default_def LatencyProfile_default_def LargeTierPolicy_default_def)

text \<open>C25. Which configurations round-trip through TOML: a configuration that can be written is read
  back as itself when no policy has a bandwidth profile or a fault rule, in particular the
  default one, and otherwise the document the program wrote is rejected by its own reader.\<close>

theorem toml_roundtrip:
  assumes "primitives_roundtrip P" "ser_config P c = Some v"
  shows "de_config P v = (if reads_back c then Some c else None) \<and> reads_back Config_default"
  using config_read_back [OF assms] by (simp add: reads_back_def Config_default_def)

text \<open>The document the program prints for its default configuration.\<close>

definition default_document :: toml where
  "default_document = TTable
     [(''seed'', TInteger 42),
      (''mount'', TTable [(''fs_name'', TString ''fusecraft''), (''subtype'', TString ''sim''),
        (''auto_unmount'', TBoolean True), (''default_permissions'', TBoolean True),
        (''read_only'', TBoolean False), (''direct_io'', TBoolean False)]),
      (''files'', TTable [(''inode_count'', TInteger 1000), (''file_size_bytes'', TInteger 65536),
        (''root_layout'', TString ''flat''), (''write_mode'', TString ''discard'')]),
      (''ops'', TTable []), (''metrics'', TTable [])]"

lemma default_written: "ser_config toml_prims Config_default = Some default_document"
  by (simp add: ser_config_def ser_mount_def ser_files_def ser_ops_def ser_metrics_def ser_struct_def req_def
      ser_option_def toml_prims_def Config_default_def MountConfig_default_def FilesConfig_default_def
      default_value_defs default_document_def)

theorem toml_roundtrip_witness: "de_config toml_prims default_document = Some Config_default"
  using toml_roundtrip [OF toml_prims_roundtrip default_written] by simp

text \<open>The default configuration with a throttled read.\<close>

definition throttled_config :: Config where
  "throttled_config = Config_default\<lparr>cfg_ops := [(Read, OpPolicy_default\<lparr>bandwidth :=
     Some \<lparr>bytes_per_sec = Finite 1048576, burst_bytes = 65536\<rparr>\<rparr>)]\<rparr>"


text \<open>A misspelt key is silently ignored: a key of a table that is no field of its structure does
  not change what is read, at the top level, in a policy and in a latency profile, so a typo in
  an optional key gives its default; but a misspelt operation name is an error.\<close>

theorem unknown_keys_are_ignored:
  "(k \<notin> {''seed'', ''mount'', ''files'', ''ops'', ''metrics''}
      \<longrightarrow> de_config P (TTable ((k, v) # t)) = de_config P (TTable t))
   \<and> (k \<notin> {''concurrency_cap'', ''queue_cap'', ''latency'', ''bandwidth'', ''faults'', ''size_tier''}
      \<longrightarrow> de_policy P (TTable ((k, v) # t)) = de_policy P (TTable t))
   \<and> (k \<notin> {''base_us'', ''lognormal_median_us'', ''lognormal_sigma'', ''pareto_weight'', ''pareto_xm_us'',
        ''pareto_alpha'', ''max_us''}
      \<longrightarrow> de_latency P (TTable ((k, v) # t)) = de_latency P (TTable t))
   \<and> (FsOp_of_serde k = None \<longrightarrow> de_ops P (TTable ((k, v) # t)) = None)"
  by (simp add: de_config_def de_policy_def de_latency_def de_ops_def field_def)

theorem unknown_keys_are_ignored_witness:
  "de_config toml_prims (TTable [(''sead'', TInteger 7)]) = Some Config_default"
  using unknown_keys_are_ignored [of "''sead''" toml_prims "TInteger 7" "[]"]
  by (simp add: de_config_def field_def Config_default_def)

end
