(* ===== verification/Cli.thy ===== *)
theory Cli
  imports Session Config_Toml
begin

text \<open>
  The command line (\<open>fusecraft-cli/src\<close>) and the mount entry points (\<open>fusecraft-fuser/src/mount.rs\<close>):
  loading a configuration, the three subcommands, and how \<open>mount\<close> assembles the simulator from
  its components and takes it down again.

  A command gives its result and the list of its visible effects, in order. The operating
  system, the \<open>toml\<close>, \<open>fuser\<close> and \<open>ctrlc\<close> crates and \<open>clap\<close>'s parsing of the arguments are
  parameters; what the kernel asks of the mounted filesystem is the parameter \<open>serve\<close>, which takes
  the filesystem to the engine as the session leaves it.
\<close>

section \<open>Interfaces\<close>

type_synonym path = string

text \<open>The dynamic event sink of the mount command.\<close>

datatype cli_sink = Jsonl JsonlEventSink | Null_sink

text \<open>How much of a line the buffered writer takes, as for \<open>jsonl_emit\<close>, may depend on its state.\<close>

definition cli_emit ::
    "((string \<times> json) list \<Rightarrow> string option) \<Rightarrow> (JsonlEventSink \<Rightarrow> Event \<Rightarrow> nat option) \<Rightarrow> cli_sink event_sink" where
  "cli_emit to_json accepts s e =
     (case s of Jsonl j \<Rightarrow> Jsonl (jsonl_emit to_json (accepts j e) j e) | Null_sink \<Rightarrow> Null_sink)"

datatype cli_error =
    Not_a_directory path
  | Read_failed path "i32 option"
  | Invalid_toml path
  | Invalid_config path FsError
  | Log_failed path "i32 option"
  | Mount_failed FsError
  | Handler_failed
  | Serialize_failed

datatype cli_effect =
    Init_tracing
  | Info_starting u64 u64 u64
  | Log_created path
  | Eprint_clamped u64
  | Warn_auto_unmount
  | Mounted path FuserConfig
  | Info_mounted path
  | Waited_for_shutdown
  | Unmounted
  | Summary_printed "string list"
  | Log_flushed path
  | Flush_warned path "i32 option"
  | Printed string
  | Eprinted string

record ('s, 'h) world_env =
  is_dir :: "path \<Rightarrow> bool"
  read_to_string :: "path \<Rightarrow> (i32 option, string) rresult"
  parse_toml :: "string \<Rightarrow> toml option"
  print_toml :: "toml \<Rightarrow> string option"
  toml_prim :: primitives
  create_file :: "path \<Rightarrow> (i32 option, string) rresult"
  spawn_session :: "('s, 'h) FaultFs \<Rightarrow> path \<Rightarrow> FuserConfig \<Rightarrow> (i32 option, unit) rresult"
  mount_session :: "('s, 'h) FaultFs \<Rightarrow> path \<Rightarrow> FuserConfig \<Rightarrow> (i32 option, unit) rresult"
  set_handler :: bool
  flush_result :: "(i32 option, unit) rresult"
  env_uid :: u32
  env_gid :: u32
  env_now :: system_time
  env_instant :: "FsOp \<Rightarrow> tier_ref \<Rightarrow> instant"
  env_hist :: "'h hdr"

type_synonym 'a command = "(cli_error, 'a) rresult \<times> cli_effect list"

section \<open>Loading\<close>

text \<open>\<open>map_err\<close> and \<open>with_context\<close>: replace the error.\<close>

definition or_error :: "('e, 'a) rresult \<Rightarrow> ('e \<Rightarrow> cli_error) \<Rightarrow> (cli_error, 'a) rresult" where
  "or_error r f = (case r of Inl e \<Rightarrow> Err (f e) | Inr v \<Rightarrow> Ok v)"

definition toml_from_str :: "('s, 'h) world_env \<Rightarrow> string \<Rightarrow> Config option" where
  "toml_from_str env text = Option.bind (parse_toml env text) (de_config (toml_prim env))"

definition load_config :: "('s, 'h) world_env \<Rightarrow> path \<Rightarrow> (cli_error, Config) rresult" where
  "load_config env p =
     try_ok (or_error (read_to_string env p) (Read_failed p)) (\<lambda>text.
     try_ok (ok_or (toml_from_str env text) (Invalid_toml p)) (\<lambda>config.
     try_ok (or_error (validate config) (Invalid_config p)) (\<lambda>_. Ok config)))"

definition default_config_toml :: "('s, 'h) world_env \<Rightarrow> (cli_error, string) rresult" where
  "default_config_toml env =
     ok_or (Option.bind (ser_config (toml_prim env) Config_default) (print_toml env)) Serialize_failed"

section \<open>Mounting\<close>

definition spawn_mount ::
    "('s, 'h) world_env \<Rightarrow> ('s, 'h) FaultFs \<Rightarrow> path \<Rightarrow> FuserMountOptions \<Rightarrow> unit fs_result" where
  "spawn_mount env fs mountpoint opts =
     (case spawn_session env fs mountpoint (to_fuser_config opts) of Inl e \<Rightarrow> Err (Io e) | Inr u \<Rightarrow> Ok u)"

definition mount_foreground ::
    "('s, 'h) world_env \<Rightarrow> ('s, 'h) FaultFs \<Rightarrow> path \<Rightarrow> FuserMountOptions \<Rightarrow> unit fs_result" where
  "mount_foreground env fs mountpoint opts =
     (case mount_session env fs mountpoint (to_fuser_config opts) of Inl e \<Rightarrow> Err (Io e) | Inr u \<Rightarrow> Ok u)"

text \<open>The event sink the configuration asks for.\<close>

definition open_sink :: "('s, 'h) world_env \<Rightarrow> Config \<Rightarrow> cli_sink command" where
  "open_sink env config =
     (case jsonl_path (cfg_metrics config) of
        None \<Rightarrow> (Ok Null_sink, [])
      | Some p \<Rightarrow>
          (case create_file env p of
             Inl e \<Rightarrow> (Err (Log_failed p e), [])
           | Inr previous \<Rightarrow> (Ok (Jsonl (JsonlEventSink_create previous)), [Log_created p])))"

text \<open>The simulator of a configuration, and whether the namespace reported that it clamps.\<close>

definition assemble ::
    "(cli_sink, 'h) world_env \<Rightarrow> Config \<Rightarrow> cli_sink \<Rightarrow> (cli_sink, 'h) FaultFs \<times> cli_effect list" where
  "assemble env config sink =
     (let engine = SimEngine_new config sink (env_instant env);
          (ns, clamped) = FlatObjectNamespace_new (cfg_files config) (env_uid env) (env_gid env) (env_now env);
          content = DeterministicContent_new (cfg_seed config) (file_size_bytes (cfg_files config))
      in (FaultFs_new engine ns content,
          if clamped then [Eprint_clamped (inode_count (cfg_files config))] else []))"

text \<open>One line of \<open>print_summary\<close>.\<close>

definition summary_line :: "OpSummary \<Rightarrow> string" where
  "summary_line s =
     ''op='' @ as_str (sum_op s) @ '' count='' @ decimal (unat (sum_count s))
     @ '' p50_us='' @ decimal (unat (p50_us s)) @ '' p95_us='' @ decimal (unat (p95_us s))
     @ '' p99_us='' @ decimal (unat (p99_us s)) @ '' p999_us='' @ decimal (unat (p999_us s))
     @ '' errors='' @ decimal (unat (sum_errors s))"

definition print_summary :: "'h hdr \<Rightarrow> 'h recorder \<Rightarrow> string list" where
  "print_summary h m = map summary_line (summary h m)"

definition flush_sink :: "('s, 'h) world_env \<Rightarrow> Config \<Rightarrow> cli_sink \<Rightarrow> cli_sink \<times> cli_effect list" where
  "flush_sink env config sink =
     (case (jsonl_path (cfg_metrics config), sink) of
        (Some p, Jsonl j) \<Rightarrow>
          (case flush_result env of
             Inr _ \<Rightarrow> (Jsonl (jsonl_flush j), [Log_flushed p])
           | Inl e \<Rightarrow> (Jsonl j, [Flush_warned p e]))
      | _ \<Rightarrow> (sink, []))"

text \<open>
  From the mount to the end: a failed handler registration drops the handle, which unmounts,
  on its way out; otherwise the command waits, unmounts, prints the summary and flushes. The
  second component is the sink as the command leaves it.
\<close>

definition run_session ::
    "(cli_sink, 'h) world_env \<Rightarrow> ((cli_sink, 'h) FaultFs \<Rightarrow> (cli_sink, 'h) SimEngine) \<Rightarrow> Config
     \<Rightarrow> (cli_sink, 'h) FaultFs \<Rightarrow> path \<Rightarrow> unit command \<times> cli_sink" where
  "run_session env serve config fs mountpoint =
     (let opts = from_mount_config (cfg_mount config);
          warning = (if auto_unmount (cfg_mount config) then [Warn_auto_unmount] else [])
      in case spawn_mount env fs mountpoint opts of
           Inl e \<Rightarrow> ((Err (Mount_failed e), warning), eng_sink (fs_engine fs))
         | Inr _ \<Rightarrow>
             let eng = serve fs;
                 up = warning @ [Mounted mountpoint (to_fuser_config opts), Info_mounted mountpoint]
             in if \<not> set_handler env then ((Err Handler_failed, up @ [Unmounted]), eng_sink eng)
                else
                  let (sink, flushed) = flush_sink env config (eng_sink eng) in
                  ((Ok (), up @ [Waited_for_shutdown, Unmounted,
                      Summary_printed (print_summary (env_hist env) (eng_metrics eng))] @ flushed), sink))"

definition mount_run ::
    "(cli_sink, 'h) world_env \<Rightarrow> ((cli_sink, 'h) FaultFs \<Rightarrow> (cli_sink, 'h) SimEngine) \<Rightarrow> path \<Rightarrow> path
     \<Rightarrow> unit command \<times> cli_sink option" where
  "mount_run env serve config_path mountpoint =
     (if \<not> is_dir env mountpoint then ((Err (Not_a_directory mountpoint), []), None)
      else
        (case load_config env config_path of
           Inl e \<Rightarrow> ((Err e, []), None)
         | Inr config \<Rightarrow>
             (let start = [Init_tracing, Info_starting (cfg_seed config) (inode_count (cfg_files config))
                            (file_size_bytes (cfg_files config))]
              in (case open_sink env config of
                    (Inl e, opened) \<Rightarrow> ((Err e, start @ opened), None)
                  | (Inr sink, opened) \<Rightarrow>
                      (let (fs, said) = assemble env config sink;
                           ((r, done_effects), final) = run_session env serve config fs mountpoint
                       in ((r, start @ opened @ said @ done_effects), Some final))))))"

section \<open>The other subcommands\<close>

definition validate_run :: "('s, 'h) world_env \<Rightarrow> path \<Rightarrow> unit command" where
  "validate_run env p =
     (case load_config env p of Inl e \<Rightarrow> (Err e, [])
      | Inr _ \<Rightarrow> (Ok (), [Eprinted (''config OK: '' @ p)]))"

definition print_default_run :: "('s, 'h) world_env \<Rightarrow> unit command" where
  "print_default_run env =
     (case default_config_toml env of Inl e \<Rightarrow> (Err e, []) | Inr text \<Rightarrow> (Ok (), [Printed text]))"

datatype Command = Mount path path | ValidateConfig path | PrintDefaultConfig

definition main_run ::
    "(cli_sink, 'h) world_env \<Rightarrow> ((cli_sink, 'h) FaultFs \<Rightarrow> (cli_sink, 'h) SimEngine) \<Rightarrow> Command \<Rightarrow> unit command" where
  "main_run env serve c =
     (case c of
        Mount config mountpoint \<Rightarrow> fst (mount_run env serve config mountpoint)
      | ValidateConfig config \<Rightarrow> validate_run env config
      | PrintDefaultConfig \<Rightarrow> print_default_run env)"

section \<open>Lemmas\<close>

lemma try_ok_eq_Ok: "try_ok r f = Ok v \<longleftrightarrow> (\<exists>x. r = Ok x \<and> f x = Ok v)"
  by (cases r) auto

lemma or_error_eq_Ok [simp]: "or_error r f = Ok v \<longleftrightarrow> r = Ok v"
  by (cases r) (auto simp: or_error_def)

lemma ok_or_eq_Ok [simp]: "ok_or x e = Ok v \<longleftrightarrow> x = Some v"
  by (cases x) (auto simp: ok_or_def)

lemma load_config_iff:
  "load_config env p = Ok c \<longleftrightarrow>
     (\<exists>text. read_to_string env p = Ok text \<and> toml_from_str env text = Some c \<and> valid_config c)"
  by (auto simp: load_config_def try_ok_eq_Ok validate_iff)

text \<open>The effects of a session, and of a whole run.\<close>

lemma run_session_cases:
  obtains
    (failed) e where "spawn_mount env fs mp (from_mount_config (cfg_mount config)) = Err e"
      "run_session env serve config fs mp
        = ((Err (Mount_failed e), if auto_unmount (cfg_mount config) then [Warn_auto_unmount] else []),
           eng_sink (fs_engine fs))"
  | (unhandled) "\<not> set_handler env"
      "run_session env serve config fs mp
        = ((Err Handler_failed, (if auto_unmount (cfg_mount config) then [Warn_auto_unmount] else [])
             @ [Mounted mp (to_fuser_config (from_mount_config (cfg_mount config))), Info_mounted mp, Unmounted]),
           eng_sink (serve fs))"
  | (finished) sink flushed where "flush_sink env config (eng_sink (serve fs)) = (sink, flushed)"
      "run_session env serve config fs mp
        = ((Ok (), (if auto_unmount (cfg_mount config) then [Warn_auto_unmount] else [])
             @ [Mounted mp (to_fuser_config (from_mount_config (cfg_mount config))), Info_mounted mp,
                Waited_for_shutdown, Unmounted,
                Summary_printed (print_summary (env_hist env) (eng_metrics (serve fs)))] @ flushed), sink)"
  by (cases "spawn_mount env fs mp (from_mount_config (cfg_mount config))"; cases "set_handler env";
      cases "flush_sink env config (eng_sink (serve fs))")
    (auto simp: run_session_def Let_def)


text \<open>The stages of a mount that gets as far as the assembled filesystem.\<close>

definition session_start :: "Config \<Rightarrow> cli_effect list" where
  "session_start config = [Init_tracing, Info_starting (cfg_seed config) (inode_count (cfg_files config))
     (file_size_bytes (cfg_files config))]"

lemma mount_run_cases:
  obtains
    (no_dir) "\<not> is_dir env mp" "mount_run env serve cp mp = ((Err (Not_a_directory mp), []), None)"
  | (no_config) e where "is_dir env mp" "load_config env cp = Err e" "mount_run env serve cp mp = ((Err e, []), None)"
  | (no_log) config p e where "is_dir env mp" "load_config env cp = Ok config"
      "jsonl_path (cfg_metrics config) = Some p" "create_file env p = Err e"
      "mount_run env serve cp mp = ((Err (Log_failed p e), session_start config), None)"
  | (session) config sink opened fs said r effs final where "is_dir env mp" "load_config env cp = Ok config"
      "open_sink env config = (Ok sink, opened)" "assemble env config sink = (fs, said)"
      "run_session env serve config fs mp = ((r, effs), final)"
      "mount_run env serve cp mp = ((r, session_start config @ opened @ said @ effs), Some final)"
proof (cases "is_dir env mp")
  case False
  then show thesis using no_dir by (simp add: mount_run_def)
next
  case True
  show thesis
  proof (cases "load_config env cp")
    case (Inl e)
    then show thesis using no_config True by (simp add: mount_run_def)
  next
    case (Inr config)
    obtain sr opened where o: "open_sink env config = (sr, opened)" by fastforce
    show thesis
    proof (cases sr)
      case (Inl e)
      then obtain p e1 where "jsonl_path (cfg_metrics config) = Some p" "create_file env p = Err e1"
        "e = Log_failed p e1" "opened = []"
        using o by (auto simp: open_sink_def split: option.splits sum.splits)
      then show thesis
        using no_log [OF True Inr] True o Inl by (simp add: mount_run_def \<open>load_config env cp = _\<close> Let_def session_start_def)
    next
      case (Inr sink)
      obtain fs said where a: "assemble env config sink = (fs, said)" by fastforce
      obtain r effs final where s: "run_session env serve config fs mp = ((r, effs), final)" by (metis prod.exhaust)
      show thesis
        using session [OF True \<open>load_config env cp = _\<close> _ a s] True o Inr
        by (simp add: mount_run_def \<open>load_config env cp = _\<close> Let_def a s session_start_def)
    qed
  qed
qed

text \<open>Effects of the mount itself.\<close>

definition mount_effect :: "cli_effect \<Rightarrow> bool" where
  "mount_effect e \<longleftrightarrow> (case e of Mounted _ _ \<Rightarrow> True | Unmounted \<Rightarrow> True | _ \<Rightarrow> False)"

lemma mount_effect_simps [simp]:
  "mount_effect (Mounted p c)" "mount_effect Unmounted" "\<not> mount_effect Init_tracing"
  "\<not> mount_effect (Info_starting a b c')" "\<not> mount_effect (Log_created q)" "\<not> mount_effect (Eprint_clamped a)"
  "\<not> mount_effect Warn_auto_unmount" "\<not> mount_effect (Info_mounted q)" "\<not> mount_effect Waited_for_shutdown"
  "\<not> mount_effect (Summary_printed l)" "\<not> mount_effect (Log_flushed q)" "\<not> mount_effect (Flush_warned q e)"
  by (simp_all add: mount_effect_def)

lemma open_sink_no_mount: "open_sink env config = (sr, opened) \<Longrightarrow> filter mount_effect opened = []"
  by (auto simp: open_sink_def split: option.splits sum.splits)

lemma assemble_no_mount: "assemble env config sink = (fs, said) \<Longrightarrow> filter mount_effect said = []"
  by (auto simp: assemble_def Let_def split: prod.splits if_splits)

lemma flush_sink_no_mount: "flush_sink env config sink = (sink', flushed) \<Longrightarrow> filter mount_effect flushed = []"
  by (auto simp: flush_sink_def split: option.splits cli_sink.splits sum.splits)

lemma session_start_no_mount: "filter mount_effect (session_start config) = []"
  by (simp add: session_start_def)

lemmas no_mount = open_sink_no_mount assemble_no_mount flush_sink_no_mount session_start_no_mount

lemma run_session_mounts:
  assumes "run_session env serve config fs mp = ((r, effs), final)"
  shows "filter mount_effect effs = [] \<and> (\<exists>e. r = Err (Mount_failed e))
    \<or> filter mount_effect effs = [Mounted mp (to_fuser_config (from_mount_config (cfg_mount config))), Unmounted]
      \<and> (r = Ok () \<or> r = Err Handler_failed)"
  by (cases rule: run_session_cases [of env fs mp config serve])
    (use assms in \<open>auto dest: flush_sink_no_mount\<close>)


section \<open>A concrete world\<close>

text \<open>Files hold one default document; the log can be created, the mount succeeds.\<close>

definition demo_toml_config :: Config where
  "demo_toml_config = Config_default\<lparr>cfg_metrics := \<lparr>jsonl_path = Some ''log.jsonl''\<rparr>\<rparr>"

definition logged_document :: toml where
  "logged_document = TTable [(''metrics'', TTable [(''jsonl_path'', TString ''log.jsonl'')])]"

definition demo_world :: "(cli_sink, u64 list) world_env" where
  "demo_world =
     \<lparr>is_dir = (\<lambda>p. p = ''mnt''), read_to_string = (\<lambda>p. Ok p),
      parse_toml = (\<lambda>t. if t = ''default'' then Some default_document
                       else if t = ''logged'' then Some logged_document else None),
      print_toml = (\<lambda>v. if v = default_document then Some ''default'' else None),
      toml_prim = toml_prims, create_file = (\<lambda>_. Ok ''old''),
      spawn_session = (\<lambda>_ _ _. Ok ()), mount_session = (\<lambda>_ _ _. Ok ()), set_handler = True,
      flush_result = Ok (), env_uid = 1000, env_gid = 1000, env_now = 5, env_instant = (\<lambda>_ _. 0),
      env_hist = list_hdr\<rparr>"

lemma logged_loads: "load_config demo_world ''logged'' = Ok demo_toml_config"
  by (simp add: load_config_iff demo_world_def toml_from_str_def logged_document_def default_document_def
      de_config_def de_metrics_def field_def toml_prims_def demo_toml_config_def Config_default_def
      valid_config_def FilesConfig_default_def default_value_defs)

section \<open>Properties\<close>

text \<open>C26. A mount is always undone: however the command ends, either nothing was mounted and the
  command failed, or exactly one filesystem was mounted, at the requested directory, with the
  options of a configuration that was read, parsed and validated before, open to its owner only,
  and it was unmounted afterwards.\<close>

theorem mounts_are_checked_and_undone:
  assumes "mount_run env serve cp mp = ((r, effs), final)"
  shows "filter mount_effect effs = [] \<and> r \<noteq> Ok ()
    \<or> (\<exists>config fc. is_dir env mp \<and> load_config env cp = Ok config \<and> valid_config config
        \<and> fc = to_fuser_config (from_mount_config (cfg_mount config)) \<and> acl fc = ACL_Owner
        \<and> AutoUnmount \<notin> set (mount_options fc)
        \<and> filter mount_effect effs = [Mounted mp fc, Unmounted])"
proof (cases rule: mount_run_cases [of env mp serve cp])
  case (session config sink opened fs said r' effs' final')
  have "valid_config config" using session(2) by (auto simp: load_config_iff)
  then show ?thesis
    using assms run_session_mounts [OF session(5)] session
      open_sink_no_mount [OF session(3)] assemble_no_mount [OF session(4)] session_start_no_mount [of config]
    by (auto simp: to_fuser_config_def from_mount_config_def)
qed (use assms session_start_no_mount in auto)

theorem mounts_are_checked_and_undone_witness:
  "\<exists>r effs final. mount_run demo_world fs_engine ''missing'' ''mnt'' = ((r, effs), final)
     \<and> filter mount_effect effs = []"
proof -
  have l: "load_config demo_world ''missing'' \<noteq> Ok c" for c
    by (simp add: load_config_iff demo_world_def toml_from_str_def)
  obtain r effs final where run: "mount_run demo_world fs_engine ''missing'' ''mnt'' = ((r, effs), final)"
    by (metis prod.exhaust)
  show ?thesis using run mounts_are_checked_and_undone [OF run] l by blast
qed

text \<open>\<open>validate-config\<close> predicts \<open>mount\<close>: on an existing directory the mount command fails before
  it has any effect exactly when validation of the same file fails, and with the same error.\<close>

theorem validate_predicts_mount:
  assumes "is_dir env mp"
  shows "fst (mount_run env serve cp mp) = (Err e, []) \<longleftrightarrow> fst (validate_run env cp) = Err e"
  by (cases rule: mount_run_cases [of env mp serve cp])
    (use assms in \<open>auto simp: validate_run_def session_start_def\<close>)

theorem validate_predicts_mount_witness:
  "fst (mount_run demo_world fs_engine ''missing'' ''mnt'') = (Err (Invalid_toml ''missing''), [])"
  using validate_predicts_mount [of demo_world "''mnt''" fs_engine "''missing''" "Invalid_toml ''missing''"]
  by (simp add: validate_run_def load_config_def demo_world_def toml_from_str_def or_error_def ok_or_def)

text \<open>What \<open>print-default-config\<close> prints is a configuration file: when the TOML printer and parser
  agree, a file with that output loads as the default configuration and \<open>validate-config\<close>
  accepts it.\<close>

theorem printed_default_validates:
  assumes "primitives_roundtrip (toml_prim env)" "\<And>v t. print_toml env v = Some t \<Longrightarrow> parse_toml env t = Some v"
    and "main_run env serve PrintDefaultConfig = (Ok (), [Printed text])" "read_to_string env p = Ok text"
  shows "load_config env p = Ok Config_default
    \<and> main_run env serve (ValidateConfig p) = (Ok (), [Eprinted (''config OK: '' @ p)])"
proof -
  obtain v where v: "ser_config (toml_prim env) Config_default = Some v" "print_toml env v = Some text"
    using assms(3)
    by (auto simp: main_run_def print_default_run_def default_config_toml_def ok_or_def
        split: sum.splits option.splits Option.bind_splits)
  have "de_config (toml_prim env) v = Some Config_default"
    using config_read_back [OF assms(1) v(1)] by (simp add: reads_back_def Config_default_def)
  moreover have "valid_config Config_default" using demo_config_valid by simp
  ultimately have "load_config env p = Ok Config_default"
    using assms(2) [OF v(2)] assms(4) by (simp add: load_config_iff toml_from_str_def)
  then show ?thesis by (simp add: main_run_def validate_run_def)
qed

theorem printed_default_validates_witness: "load_config demo_world ''default'' = Ok Config_default"
proof (rule printed_default_validates [of _ fs_engine, THEN conjunct1])
  show "primitives_roundtrip (toml_prim demo_world)" using toml_prims_roundtrip by (simp add: demo_world_def)
  show "main_run demo_world fs_engine PrintDefaultConfig = (Ok (), [Printed ''default''])"
    by (simp add: main_run_def print_default_run_def default_config_toml_def ok_or_def demo_world_def default_written)
qed (auto simp: demo_world_def split: if_splits)

text \<open>C27. The parts that \<open>mount\<close> assembles fit together: the engine has the policies of the
  configuration and is idle, engine and content share the seed, the namespace is well formed
  and reports clamping exactly when it clamps, and the size in the attributes of every file is
  the number of bytes its content has.\<close>

theorem assembled_parts_fit:
  assumes "assemble env config sink = (fs, said)"
  shows "engine_ok config fs \<and> idle fs \<and> eng_seq (fs_engine fs) = 0 \<and> eng_sink (fs_engine fs) = sink
    \<and> content_seed (fs_content fs) = eng_seed (fs_engine fs)
    \<and> wf_ns (fs_namespace fs) \<and> (said = [] \<longleftrightarrow> inode_count (cfg_files config) < MAX_FILES)
    \<and> (attr (fs_namespace fs) ino = Some spec \<longrightarrow> attr_kind spec = File
        \<longrightarrow> unat (attr_size spec) = length (file_bytes fs ino))"
proof -
  obtain ns clamped where ns: "FlatObjectNamespace_new (cfg_files config) (env_uid env) (env_gid env) (env_now env)
      = (ns, clamped)" by fastforce
  have fs: "fs = FaultFs_new (SimEngine_new config sink (env_instant env)) ns
      (DeterministicContent_new (cfg_seed config) (file_size_bytes (cfg_files config)))"
    and said: "said = (if clamped then [Eprint_clamped (inode_count (cfg_files config))] else [])"
    using assms by (auto simp: assemble_def Let_def ns)
  have n: "wf_ns ns" "ns_file_size_bytes ns = file_size_bytes (cfg_files config)"
    "clamped \<longleftrightarrow> \<not> inode_count (cfg_files config) < MAX_FILES"
    using wf_ns_new [of "cfg_files config" "env_uid env" "env_gid env" "env_now env"] ns
    by (auto simp: FlatObjectNamespace_new_def Let_def)
  have "unat (attr_size spec) = length (file_bytes fs ino)"
    if "attr ns ino = Some spec" "attr_kind spec = File"
    using that n(2)
    by (auto simp: attr_def file_attr_def dir_attr_def file_bytes_def fs FaultFs_new_def file_len_def
        DeterministicContent_new_def split: if_splits)
  then show ?thesis
    using n engine_ok_new idle_new
    by (auto simp: fs said) (simp_all add: FaultFs_new_def SimEngine_new_def DeterministicContent_new_def)
qed

theorem assembled_parts_fit_witness:
  "wf_ns (fs_namespace (fst (assemble demo_world demo_toml_config Null_sink)))"
  using assembled_parts_fit [OF surjective_pairing [of "assemble demo_world demo_toml_config Null_sink"]] by blast

end
