(* ===== verification/Messages.thy ===== *)
theory Messages
  imports Configuration Namespace "HOL-Library.Sublist"
begin

text \<open>
  The texts of the errors (\<open>fusecraft-core/src/error.rs\<close> and the \<open>format!\<close> strings of
  \<open>config.rs\<close>). The \<open>Display\<close> form of an \<open>f64\<close> and of an \<open>io::Error\<close> is the library's and a
  parameter. The main lemma says that a rejected configuration is blamed where it is wrong.
\<close>

section \<open>Texts\<close>

text \<open>The dash in the message about a zero threshold, in UTF-8.\<close>

definition em_dash :: string where "em_dash = [CHR 0xE2, CHR 0x80, CHR 0x94]"

text \<open>The head of a message about a list element, \<open>{prefix}[{i}]\<close>.\<close>

definition element :: "string \<Rightarrow> nat \<Rightarrow> string" where
  "element pre i = pre @ ''['' @ decimal i @ '']''"

fun config_message :: "(f64 \<Rightarrow> string) \<Rightarrow> ConfigMsg \<Rightarrow> string" where
  "config_message fmt (UnknownErrno nm) = ''unknown errno: '' @ nm"
| "config_message fmt InodeCountZero = ''files.inode_count must be > 0''"
| "config_message fmt FileSizeZero = ''files.file_size_bytes must be > 0''"
| "config_message fmt (ConcurrencyCapZero pre) = pre @ ''.concurrency_cap must be > 0''"
| "config_message fmt (SizeTierOnMetadataOp pre op) =
     pre @ ''.size_tier is only valid on Read or Write ops, not '' @ as_str op"
| "config_message fmt (ThresholdZero pre) =
     pre @ ''.size_tier.threshold_bytes must be > 0 (a zero threshold is equivalent to not setting size_tier at all ''
       @ em_dash @ '' configure the base policy directly instead)''"
| "config_message fmt (FaultOpMismatch pre i op expected) =
     element pre i @ ''.op = \"'' @ as_str op @ ''\" does not match the enclosing op \"'' @ as_str expected
       @ ''\" (at runtime the sampler filters rules by op, so a mismatch would silently never fire)''"
| "config_message fmt (FaultRateRange pre i rate) =
     element pre i @ ''.rate must be a finite value in [0.0, 1.0], got '' @ fmt rate"
| "config_message fmt (BandwidthNotFinite pre v) = pre @ ''.mib_per_sec must be finite, got '' @ fmt v"
| "config_message fmt (LatencyNotFinite pre nm v) = pre @ ''.'' @ nm @ '' must be finite, got '' @ fmt v"
| "config_message fmt (MaxBelowBase pre mx base) =
     pre @ ''.max_us ('' @ decimal (unat mx) @ '') must be >= base_us ('' @ decimal (unat base) @ '')''"
| "config_message fmt (ParetoWeightRange pre w) = pre @ ''.pareto_weight must be in [0.0, 1.0], got '' @ fmt w"
| "config_message fmt (ParetoAlphaNotPositive pre) = pre @ ''.pareto_alpha must be > 0.0 when pareto_weight > 0''"
| "config_message fmt (LognormalMedianNegative pre) = pre @ ''.lognormal_median_us must be >= 0.0''"
| "config_message fmt (LognormalSigmaNegative pre) = pre @ ''.lognormal_sigma must be >= 0.0''"

text \<open>The \<open>Display\<close> form of an error; an \<open>i32\<close> is printed with its sign.\<close>

definition show_i32 :: "i32 \<Rightarrow> string" where
  "show_i32 n = (if n < 0 then ''-'' @ decimal (nat (- n)) else decimal (nat n))"

fun error_message :: "(f64 \<Rightarrow> string) \<Rightarrow> (i32 option \<Rightarrow> string) \<Rightarrow> FsError \<Rightarrow> string" where
  "error_message fmt fmt_io (Errno e) = ''errno('' @ show_i32 e @ '')''"
| "error_message fmt fmt_io (Config_err m) = ''config: '' @ config_message fmt m"
| "error_message fmt fmt_io (Io raw) = ''io: '' @ fmt_io raw"

section \<open>What a message names\<close>

text \<open>A check whose failures are messages that begin with a text.\<close>

definition blames :: "(f64 \<Rightarrow> string) \<Rightarrow> string \<Rightarrow> unit fs_result \<Rightarrow> bool" where
  "blames fmt pre r \<longleftrightarrow> (case r of Inr _ \<Rightarrow> True | Inl (Config_err m) \<Rightarrow> prefix pre (config_message fmt m) | _ \<Rightarrow> False)"

lemma blames_simps [simp]:
  "blames fmt pre (Ok ())" "blames fmt pre (config_error m) \<longleftrightarrow> prefix pre (config_message fmt m)"
  by (simp_all add: blames_def config_error_def)

lemma blames_if: "(c \<Longrightarrow> blames fmt pre a) \<Longrightarrow> (\<not> c \<Longrightarrow> blames fmt pre b) \<Longrightarrow> blames fmt pre (if c then a else b)"
  by simp

lemma blames_try: "blames fmt pre a \<Longrightarrow> blames fmt pre b \<Longrightarrow> blames fmt pre (try_ok a (\<lambda>_. b))"
  by (cases a) (auto simp: blames_def)

lemma blames_some: "(\<And>v. blames fmt pre (check v)) \<Longrightarrow> blames fmt pre (check_some x check)"
  by (cases x) (simp_all add: check_some_def)

lemma blames_longer: "blames fmt longer r \<Longrightarrow> prefix pre longer \<Longrightarrow> blames fmt pre r"
  by (auto simp: blames_def split: sum.splits FsError.splits intro: prefix_order.trans)

lemmas blames_rules = blames_if blames_try blames_some

lemma check_finite_blames: "blames fmt pre (check_finite pre vs)"
  by (induction pre vs rule: check_finite.induct) simp_all

lemma validate_latency_blames: "blames fmt pre (validate_latency l pre)"
  unfolding validate_latency_def by (intro blames_rules check_finite_blames) simp_all

lemma validate_bandwidth_blames: "blames fmt pre (validate_bandwidth b pre)"
  by (simp add: validate_bandwidth_def)

lemma validate_faults_blames: "blames fmt pre (validate_faults fs op pre)"
proof -
  have "blames fmt pre (validate_faults_from i fs op pre)" for i
    by (induction i fs op pre rule: validate_faults_from.induct) (simp_all add: element_def)
  then show ?thesis by (simp add: validate_faults_def)
qed

lemmas parts_blame = validate_latency_blames validate_bandwidth_blames validate_faults_blames

text \<open>After the name of an operation comes a dot, so that \<open>read\<close> is not taken for \<open>readdir\<close>.\<close>

lemma validate_size_tier_blames: "blames fmt (pre @ ''.'') (validate_size_tier op t pre)"
  unfolding validate_size_tier_def
  by (intro blames_rules blames_longer [OF validate_latency_blames] blames_longer [OF validate_bandwidth_blames]
      blames_longer [OF validate_faults_blames]) simp_all

lemma validate_op_policy_blames: "blames fmt (pre @ ''.'') (validate_op_policy op p pre)"
  unfolding validate_op_policy_def
  by (intro blames_rules blames_longer [OF validate_latency_blames] blames_longer [OF validate_bandwidth_blames]
      blames_longer [OF validate_faults_blames] validate_size_tier_blames) simp_all

lemma validate_ops_error:
  "validate_ops ps = Err e \<Longrightarrow> \<exists>(op, p)\<in>set ps. \<not> valid_policy op p \<and> validate_op_policy op p (''ops.'' @ as_str op) = Err e"
proof (induction ps rule: validate_ops.induct)
  case (2 op p rest)
  show ?case
  proof (cases "validate_op_policy op p (''ops.'' @ as_str op)")
    case (Inl e')
    then have "\<not> valid_policy op p" by (simp flip: validate_op_policy_iff [of op p "''ops.'' @ as_str op"])
    then show ?thesis using 2(2) Inl by simp
  next
    case (Inr u)
    then show ?thesis using 2 by auto
  qed
qed simp

section \<open>Properties\<close>

text \<open>C38. The message of a rejected configuration names what is wrong: it says that one of the two
  numbers of the \<open>files\<close> table is zero, and it is, or it begins with the path \<open>ops.<op>.\<close> of an
  operation whose policy breaks the rules.\<close>

theorem rejection_names_the_culprit:
  assumes "validate c = Err e"
  shows "\<exists>m. e = Config_err m \<and>
    (config_message fmt m = ''files.inode_count must be > 0'' \<and> inode_count (cfg_files c) = 0
     \<or> config_message fmt m = ''files.file_size_bytes must be > 0'' \<and> file_size_bytes (cfg_files c) = 0
     \<or> (\<exists>(op, p)\<in>set (cfg_ops c). \<not> valid_policy op p \<and> prefix (''ops.'' @ as_str op @ ''.'') (config_message fmt m)))"
proof (cases "inode_count (cfg_files c) = 0 \<or> file_size_bytes (cfg_files c) = 0")
  case True
  then show ?thesis using assms by (auto simp: validate_def config_error_def split: if_splits)
next
  case False
  then have "validate_ops (cfg_ops c) = Err e" using assms by (simp add: validate_def)
  then obtain op p where p: "(op, p) \<in> set (cfg_ops c)" "\<not> valid_policy op p"
    "validate_op_policy op p (''ops.'' @ as_str op) = Err e"
    using validate_ops_error by blast
  have "blames fmt (''ops.'' @ as_str op @ ''.'') (Err e :: unit fs_result)"
    using validate_op_policy_blames [of fmt "''ops.'' @ as_str op" op p] p(3) by simp
  then show ?thesis using p(1,2) by (auto simp: blames_def split: FsError.splits)
qed

theorem rejection_names_the_culprit_witness:
  "\<exists>m. validate (Config_default\<lparr>cfg_ops := [(Read, OpPolicy_default\<lparr>concurrency_cap := 0\<rparr>)]\<rparr>) = Err (Config_err m)
    \<and> prefix ''ops.read.'' (config_message (\<lambda>_. ''nan'') m)"
proof -
  let ?c = "Config_default\<lparr>cfg_ops := [(Read, OpPolicy_default\<lparr>concurrency_cap := 0\<rparr>)]\<rparr>"
  have files: "inode_count (cfg_files ?c) \<noteq> 0" "file_size_bytes (cfg_files ?c) \<noteq> 0"
    by (simp_all add: Config_default_def FilesConfig_default_def default_value_defs)
  then have "validate ?c = Err (Config_err (ConcurrencyCapZero ''ops.read''))"
    by (simp add: validate_def validate_op_policy_def config_error_def)
  moreover from rejection_names_the_culprit [OF this, of "\<lambda>_. ''nan''"] have "prefix ''ops.read.'' (config_message (\<lambda>_. ''nan'') (ConcurrencyCapZero ''ops.read''))"
    using files by auto
  ultimately show ?thesis by blast
qed

end
