(* ===== verification/Float64_Eval.thy ===== *)
theory Float64_Eval
  imports Float64_Order
begin

text \<open>
  Results of the arithmetic at concrete arguments: a rational is rounded by naming the position
  of its leading bit and the integer its scaled value is nearest to.
\<close>

lemma ilog2_eval:
  assumes "2 powi e \<le> q" "q < 2 powi (e + 1)"
  shows "ilog2 q = e"
proof -
  have "0 < q" using assms(1) zero_less_power_int [of "2 :: rat" e] by linarith
  then have "2 powi ilog2 q < (2::rat) powi (e + 1)" "2 powi e < (2::rat) powi (ilog2 q + 1)"
    using ilog2_bounds [of q] assms by linarith+
  then show ?thesis by (simp add: powi_two_less_iff)
qed

lemma round_even_eval: "\<bar>q - of_int k\<bar> < 1/2 \<Longrightarrow> round_even q = k"
proof -
  assume "\<bar>q - of_int k\<bar> < 1/2"
  then have "\<bar>of_int (round_even q) - (of_int k :: rat)\<bar> < 1"
    using round_even_near [of q] by linarith
  then have "\<bar>(of_int (round_even q - k) :: rat)\<bar> < 1" by simp
  then show ?thesis by linarith
qed

lemma f64_of_rat_eval:
  assumes "2 powi e \<le> q" "q < 2 powi (e + 1)" "- 1022 \<le> e" "e \<le> 900"
    and "\<bar>q / 2 powi (e - 52) - of_int k\<bar> < 1/2" "0 < k"
  shows "f64_of_rat b q = Finite (of_int k * 2 powi (e - 52))"
proof -
  let ?u = "(2::rat) powi (e - 52)"
  have u: "0 < ?u" by simp
  have q: "0 < q" using assms(1) zero_less_power_int [of "2 :: rat" e] by linarith
  have "ulp_exp q = e - 52" using ilog2_eval [OF assms(1,2)] assms(3) by (simp add: ulp_exp_def)
  then have r: "round_pos q = of_int k * ?u"
    by (simp add: round_pos_def round_even_eval [OF assms(5)])
  have "?u * 2 ^ 53 = 2 powi (e + 1)" using power_int_add [of "2 :: rat" "e - 52" 53] by (simp add: add.commute)
  then have "q < ?u * 2 ^ 53" using assms(2) by simp
  then have "q / ?u < 2 ^ 53" using u by (simp add: divide_less_eq mult.commute)
  then have "of_int k < (2 :: rat) ^ 53 + 1" using assms(5) by linarith
  then have "of_int k \<le> (2 :: rat) ^ 53 + 1" by simp
  then have "of_int k * ?u \<le> (2 ^ 53 + 1) * ?u" using u by (intro mult_right_mono) simp_all
  also have "\<dots> < 2 ^ 54 * ?u" using u by (intro mult_strict_right_mono) simp_all
  also have "\<dots> = 2 powi (e + 2)" using power_int_add [of "2 :: rat" "e - 52" 54] by (simp add: add.commute)
  also have "\<dots> \<le> 2 powi 1024" using assms(4) by (intro powi_two_mono) simp
  finally have "\<not> f64_overflow \<le> of_int k * ?u" by (simp add: f64_overflow_def)
  then show ?thesis
    using q assms(6) u by (simp add: f64_of_rat_def Let_def r)
qed

lemma f64_of_rat_numeral:
  assumes "numeral n \<le> (2 :: nat) ^ 53"
  shows "f64_of_rat b (numeral n) = Finite (numeral n)"
    and "f64_of_rat b (- numeral n) = Finite (- numeral n)"
proof -
  have "(of_nat (numeral n) :: rat) \<le> of_nat (2 ^ 53)" using assms by (simp only: of_nat_le_iff)
  also have "\<dots> < f64_overflow" by (simp add: f64_overflow_def)
  finally have "\<not> f64_overflow \<le> numeral n" by simp
  moreover have "round_pos (numeral n) = numeral n"
    using round_pos_int [of "numeral n"] assms by simp
  ultimately show "f64_of_rat b (numeral n) = Finite (numeral n)"
    "f64_of_rat b (- numeral n) = Finite (- numeral n)"
    by (simp_all add: f64_of_rat_def Let_def)
qed

lemma f64_of_u64_numeral:
  assumes "unat (numeral n :: u64) = numeral n" "numeral n \<le> (2 :: nat) ^ 53"
  shows "f64_of_u64 (numeral n) = Finite (numeral n)"
  using f64_of_u64_exact [of "numeral n"] assms by simp

lemma f64_of_rat_half: "f64_of_rat b (1/2) = Finite (1/2)"
proof -
  have "f64_of_rat b (1/2) = Finite (of_int (2 ^ 52) * 2 powi (- 1 - 52))"
    by (rule f64_of_rat_eval) (simp_all add: power_int_minus)
  then show ?thesis by (simp add: power_int_minus)
qed

text \<open>One tenth.\<close>

lemma f64_of_rat_tenth: "f64_of_rat b (1/10) = Finite (3602879701896397 / 2 ^ 55)"
proof -
  have "f64_of_rat b (1/10) = Finite (of_int 7205759403792794 * 2 powi (- 4 - 52))"
    by (rule f64_of_rat_eval) (simp_all add: power_int_minus)
  then show ?thesis by (simp add: power_int_minus)
qed

end
