(* ===== verification/Conformance_Config.thy ===== *)
theory Conformance_Config
  imports Messages Config_Toml Float64_Eval "HOL-Library.AList"
begin

text \<open>
  The unit tests of \<open>fusecraft-core/src/config.rs\<close>, translated: every test is a definition that
  holds when its assertions hold, and a lemma says that the model passes it. A test that unwraps
  an error and looks for words in its message is a condition on the text \<open>config_message\<close>; the
  \<open>Display\<close> form of \<open>f64\<close> is a parameter, and the tests pass for all of them.
\<close>

section \<open>Assertions\<close>

text \<open>\<open>str::contains\<close>.\<close>

fun str_contains :: "string \<Rightarrow> string \<Rightarrow> bool" where
  "str_contains needle [] = (needle = [])"
| "str_contains needle (c # s) = (prefix needle (c # s) \<or> str_contains needle s)"

lemma str_contains_iff: "str_contains needle s \<longleftrightarrow> sublist needle s"
  by (induction s) (auto simp: sublist_Cons_right)

text \<open>\<open>unwrap_err\<close>, the match on \<open>FsError::Config\<close>, and the words its message must contain.\<close>

definition rejects_with :: "(f64 \<Rightarrow> string) \<Rightarrow> Config \<Rightarrow> string list \<Rightarrow> bool" where
  "rejects_with fmt c wanted = (case validate c of
     Inl (Config_err m) \<Rightarrow> list_all (\<lambda>w. str_contains w (config_message fmt m)) wanted | _ \<Rightarrow> False)"

definition validates :: "Config \<Rightarrow> bool" where "validates c \<longleftrightarrow> validate c = Ok ()"

section \<open>Configurations\<close>

definition make_large_tier :: LargeTierPolicy where
  "make_large_tier = \<lparr>large_latency = LatencyProfile_default, large_bandwidth = None, large_faults = []\<rparr>"

definition with_op :: "FsOp \<Rightarrow> OpPolicy \<Rightarrow> Config" where
  "with_op f p = Config_default\<lparr>cfg_ops := AList.update f p (cfg_ops Config_default)\<rparr>"

definition with_tier :: "FsOp \<Rightarrow> u64 \<Rightarrow> LargeTierPolicy \<Rightarrow> Config" where
  "with_tier f bytes large =
     with_op f (OpPolicy_default\<lparr>size_tier := Some \<lparr>threshold_bytes = bytes, tier_large = large\<rparr>\<rparr>)"

section \<open>Tests\<close>

definition test_validate_rejects_zero_threshold :: "(f64 \<Rightarrow> string) \<Rightarrow> bool" where
  "test_validate_rejects_zero_threshold fmt \<longleftrightarrow> rejects_with fmt
      (with_tier Read 0 make_large_tier)
      [''threshold_bytes'']"

definition test_validate_rejects_size_tier_on_metadata_op :: "(f64 \<Rightarrow> string) \<Rightarrow> bool" where
  "test_validate_rejects_size_tier_on_metadata_op fmt \<longleftrightarrow> rejects_with fmt
      (with_tier Open 1024 make_large_tier)
      [''size_tier'', ''Read or Write'']"

definition test_validate_accepts_size_tier_on_read :: bool where
  "test_validate_accepts_size_tier_on_read \<longleftrightarrow> validates (with_tier Read (128 * 1024) make_large_tier)"

definition test_validate_accepts_size_tier_on_write :: bool where
  "test_validate_accepts_size_tier_on_write \<longleftrightarrow> validates (with_tier FsOp.Write (128 * 1024) make_large_tier)"

definition test_validate_rejects_invalid_large_tier_latency :: "(f64 \<Rightarrow> string) \<Rightarrow> bool" where
  "test_validate_rejects_invalid_large_tier_latency fmt \<longleftrightarrow> rejects_with fmt
      (with_tier Read 1024 \<lparr>large_latency = LatencyProfile_default\<lparr>base_us := 1000, max_us := 10\<rparr>,
         large_bandwidth = None, large_faults = []\<rparr>)
      [''size_tier.large.latency.max_us'']"

definition test_validate_rejects_invalid_large_tier_fault_rate :: "(f64 \<Rightarrow> string) \<Rightarrow> bool" where
  "test_validate_rejects_invalid_large_tier_fault_rate fmt \<longleftrightarrow> rejects_with fmt
      (with_tier Read 1024 \<lparr>large_latency = LatencyProfile_default, large_bandwidth = None,
         large_faults = [\<lparr>rule_op = Read, rule_errno = EIO, rule_rate = Finite (3/2)\<rparr>]\<rparr>)
      [''size_tier.large.faults'', ''rate'']"

definition test_validate_rejects_mismatched_op_in_base_faults :: "(f64 \<Rightarrow> string) \<Rightarrow> bool" where
  "test_validate_rejects_mismatched_op_in_base_faults fmt \<longleftrightarrow> rejects_with fmt
      (with_op Read (OpPolicy_default\<lparr>faults :=
         [\<lparr>rule_op = FsOp.Write, rule_errno = EIO, rule_rate = f64_of_rat False (1/10)\<rparr>]\<rparr>))
      [''ops.read.faults'', ''does not match'', ''\"write\"'', ''\"read\"'']"

definition test_validate_rejects_mismatched_op_in_large_tier_faults :: "(f64 \<Rightarrow> string) \<Rightarrow> bool" where
  "test_validate_rejects_mismatched_op_in_large_tier_faults fmt \<longleftrightarrow> rejects_with fmt
      (with_tier Read 1024 \<lparr>large_latency = LatencyProfile_default, large_bandwidth = None,
         large_faults = [\<lparr>rule_op = FsOp.Write, rule_errno = EIO, rule_rate = f64_of_rat False (1/10)\<rparr>]\<rparr>)
      [''ops.read.size_tier.large.faults'', ''does not match'']"

definition test_validate_rejects_non_finite_base_bandwidth :: "(f64 \<Rightarrow> string) \<Rightarrow> bool" where
  "test_validate_rejects_non_finite_base_bandwidth fmt \<longleftrightarrow> rejects_with fmt
      (with_op Read (OpPolicy_default\<lparr>bandwidth := Some \<lparr>bytes_per_sec = NaN, burst_bytes = 0\<rparr>\<rparr>))
      [''ops.read.bandwidth'', ''finite'']"

definition test_validate_rejects_non_finite_large_tier_bandwidth :: "(f64 \<Rightarrow> string) \<Rightarrow> bool" where
  "test_validate_rejects_non_finite_large_tier_bandwidth fmt \<longleftrightarrow> rejects_with fmt
      (with_tier Read 1024 \<lparr>large_latency = LatencyProfile_default,
         large_bandwidth = Some \<lparr>bytes_per_sec = Infinity False, burst_bytes = 0\<rparr>, large_faults = []\<rparr>)
      [''size_tier.large.bandwidth'', ''finite'']"

text \<open>The document of the last test, as the tree the parser of TOML gives.\<close>

definition size_tier_document :: toml where
  "size_tier_document = TTable [
     (''seed'', TInteger 777),
     (''ops'', TTable [
       (''read'', TTable [
         (''concurrency_cap'', TInteger 8),
         (''latency'', TTable [(''base_us'', TInteger 10)]),
         (''size_tier'', TTable [
           (''threshold_bytes'', TInteger 131072),
           (''large'', TTable [
             (''latency'', TTable [(''base_us'', TInteger 5000), (''max_us'', TInteger 100000)]),
             (''bandwidth'', TTable [(''mib_per_sec'', TFloat (Finite 25)), (''burst_bytes'', TInteger 65536)]),
             (''faults'', TArray [TTable [(''op'', TString ''read''), (''errno'', TString ''EIO''),
               (''rate'', TFloat (f64_of_rat False (1/100)))]])])])])])]"

definition test_size_tier_toml_round_trip :: bool where
  "test_size_tier_toml_round_trip \<longleftrightarrow>
     (case de_config toml_prims size_tier_document of None \<Rightarrow> False
      | Some cfg \<Rightarrow> validates cfg \<and>
          (case map_of (cfg_ops cfg) Read of None \<Rightarrow> False
           | Some read_policy \<Rightarrow>
               (case size_tier read_policy of None \<Rightarrow> False
                | Some tier \<Rightarrow>
                    threshold_bytes tier = 131072
                    \<and> base_us (large_latency (tier_large tier)) = 5000
                    \<and> max_us (large_latency (tier_large tier)) = 100000
                    \<and> (case large_bandwidth (tier_large tier) of None \<Rightarrow> False
                       | Some bw \<Rightarrow>
                           bytes_per_sec bw = f64_mul (f64_mul (Finite 25) (Finite 1024)) (Finite 1024)
                           \<and> burst_bytes bw = 65536)
                    \<and> (case large_faults (tier_large tier) of
                         [f] \<Rightarrow> rule_errno f = EIO \<and> rule_rate f = f64_of_rat False (1/100)
                       | _ \<Rightarrow> False))))"

lemmas test_config_simps = with_op_def with_tier_def make_large_tier_def Config_default_def OpPolicy_default_def
  FilesConfig_default_def LatencyProfile_default_def default_value_defs

lemmas test_validate_simps = validate_def validate_op_policy_def validate_size_tier_def validate_latency_def
  validate_bandwidth_def validate_faults_def check_some_def config_error_def is_data_op_def f64_lt_def f64_le_def

lemma config_tests_pass:
  "test_validate_rejects_zero_threshold fmt"
  "test_validate_rejects_size_tier_on_metadata_op fmt"
  "test_validate_accepts_size_tier_on_read"
  "test_validate_accepts_size_tier_on_write"
  "test_validate_rejects_invalid_large_tier_latency fmt"
  "test_validate_rejects_invalid_large_tier_fault_rate fmt"
  "test_validate_rejects_mismatched_op_in_base_faults fmt"
  "test_validate_rejects_mismatched_op_in_large_tier_faults fmt"
  "test_validate_rejects_non_finite_base_bandwidth fmt"
  "test_validate_rejects_non_finite_large_tier_bandwidth fmt"
  unfolding test_validate_rejects_zero_threshold_def
    test_validate_rejects_size_tier_on_metadata_op_def
    test_validate_accepts_size_tier_on_read_def
    test_validate_accepts_size_tier_on_write_def
    test_validate_rejects_invalid_large_tier_latency_def
    test_validate_rejects_invalid_large_tier_fault_rate_def
    test_validate_rejects_mismatched_op_in_base_faults_def
    test_validate_rejects_mismatched_op_in_large_tier_faults_def
    test_validate_rejects_non_finite_base_bandwidth_def
    test_validate_rejects_non_finite_large_tier_bandwidth_def
    rejects_with_def validates_def
  by (simp_all add: test_config_simps test_validate_simps element_def decimal.simps)

lemma f64_of_rat_unit: "0 \<le> q \<Longrightarrow> q \<le> 1 \<Longrightarrow> unit_interval (f64_of_rat b q)"
  using f64_of_rat_mono [of 0 q False b] f64_of_rat_mono [of q 1 b False] f64_of_rat_nat [of 0] f64_of_rat_nat [of 1]
  by (cases "f64_of_rat b q") (auto simp: unit_interval_def f64_le_def)

definition size_tier_policy :: OpPolicy where
  "size_tier_policy = OpPolicy_default\<lparr>concurrency_cap := 8, latency := LatencyProfile_default\<lparr>base_us := 10\<rparr>,
     size_tier := Some \<lparr>threshold_bytes = 131072, tier_large =
       \<lparr>large_latency = LatencyProfile_default\<lparr>base_us := 5000, max_us := 100000\<rparr>,
        large_bandwidth = Some \<lparr>bytes_per_sec = Finite 26214400, burst_bytes = 65536\<rparr>,
        large_faults = [\<lparr>rule_op = Read, rule_errno = EIO, rule_rate = f64_of_rat False (1/100)\<rparr>]\<rparr>\<rparr>\<rparr>"

lemma FsOp_of_serde_read: "FsOp_of_serde ''read'' = Some Read"
  using FsOp_of_serde_name [of Read] by (simp flip: as_str_serde_name)

lemma size_tier_document_read:
  "de_config toml_prims size_tier_document = Some (Config_default\<lparr>cfg_seed := 777, cfg_ops := [(Read, size_tier_policy)]\<rparr>)"
  by (simp add: size_tier_document_def size_tier_policy_def de_config_def de_ops_def de_policy_def de_latency_def
      de_tier_def de_large_def de_bandwidth_def de_vec_def de_fault_def de_op_def field_def toml_prims_def
      FaultRule_of_raw_def parse_errno_def BandwidthProfile_of_raw_def f64_of_rat_numeral
      Config_default_def OpPolicy_default_def LatencyProfile_default_def FsOp_of_serde_read)

lemma size_tier_toml_round_trip_passes: "test_size_tier_toml_round_trip"
proof -
  have "valid_latency (LatencyProfile_default\<lparr>base_us := 10\<rparr>)"
    "valid_latency (LatencyProfile_default\<lparr>base_us := 5000, max_us := 100000\<rparr>)"
    by (simp_all add: valid_latency_def unit_interval_def nonneg_finite_def test_config_simps)
  then have "valid_policy Read size_tier_policy"
    by (simp add: valid_policy_def valid_tier_def valid_faults_def valid_bandwidth_def size_tier_policy_def
        is_data_op_def f64_of_rat_unit OpPolicy_default_def)
  then have "validates (Config_default\<lparr>cfg_seed := 777, cfg_ops := [(Read, size_tier_policy)]\<rparr>)"
    by (simp add: validates_def validate_iff valid_config_def Config_default_def FilesConfig_default_def
        default_value_defs)
  then show ?thesis
    by (simp add: test_size_tier_toml_round_trip_def size_tier_document_read size_tier_policy_def f64_of_rat_numeral)
qed

end
