(* ===== verification/Conformance_Cli.thy ===== *)
theory Conformance_Cli
  imports Cli Conformance_Config
begin

text \<open>
  The texts of the errors of the command line, and the unit tests of
  \<open>fusecraft-cli/src/config_io.rs\<close>, translated. An \<open>anyhow\<close> error is the list of its messages,
  the context first and the causes after it; the messages of the libraries, and how \<open>Debug\<close> puts
  a list together, are parameters. The tests write a file and load it: the file is its text, and
  the parser of TOML gives the tree of that text, or none.
\<close>

section \<open>Texts\<close>

record error_texts =
  text_f64 :: "f64 \<Rightarrow> string"
  text_io :: "i32 option \<Rightarrow> string"
  text_toml :: "path \<Rightarrow> string"
  text_ctrlc :: string
  text_toml_ser :: string

fun error_chain :: "error_texts \<Rightarrow> cli_error \<Rightarrow> string list" where
  "error_chain T (Not_a_directory p) = [''mountpoint does not exist or is not a directory: '' @ p]"
| "error_chain T (Read_failed p e) = [''failed to read config file: '' @ p, text_io T e]"
| "error_chain T (Invalid_toml p) = [''invalid TOML in '' @ p, text_toml T p]"
| "error_chain T (Invalid_config p e) =
     [''config validation failed for '' @ p, error_message (text_f64 T) (text_io T) e]"
| "error_chain T (Log_failed p e) = [''failed to create event log: '' @ p, text_io T e]"
| "error_chain T (Mount_failed e) = [''failed to mount: '' @ error_message (text_f64 T) (text_io T) e]"
| "error_chain T Handler_failed = [''failed to set Ctrl+C handler'', text_ctrlc T]"
| "error_chain T Serialize_failed = [''failed to serialize default config to TOML'', text_toml_ser T]"

text \<open>The \<open>Debug\<close> form of an error shows every message of its chain.\<close>

definition shows_chain :: "(string list \<Rightarrow> string) \<Rightarrow> bool" where
  "shows_chain debug \<longleftrightarrow> (\<forall>ms. list_all (\<lambda>m. str_contains m (debug ms)) ms)"

section \<open>Tests\<close>

definition files_document :: "int \<Rightarrow> int \<Rightarrow> toml" where
  "files_document n bytes =
     TTable [(''files'', TTable [(''inode_count'', TInteger n), (''file_size_bytes'', TInteger bytes)])]"

text \<open>A host on which the file at \<open>p\<close> parses to the given tree, if to any.\<close>

definition parses_to :: "('s, 'h) world_env \<Rightarrow> path \<Rightarrow> toml option \<Rightarrow> bool" where
  "parses_to env p doc \<longleftrightarrow> (case read_to_string env p of Inl _ \<Rightarrow> False | Inr text \<Rightarrow> parse_toml env text = doc)"

definition test_load_valid_minimal_config :: "('s, 'h) world_env \<Rightarrow> path \<Rightarrow> bool" where
  "test_load_valid_minimal_config env p =
     (case load_config env p of Inl _ \<Rightarrow> False
      | Inr cfg \<Rightarrow> inode_count (cfg_files cfg) = 10 \<and> file_size_bytes (cfg_files cfg) = 4096)"

definition fails_naming ::
    "error_texts \<Rightarrow> (string list \<Rightarrow> string) \<Rightarrow> ('s, 'h) world_env \<Rightarrow> path \<Rightarrow> string \<Rightarrow> bool" where
  "fails_naming T debug env p word =
     (case load_config env p of Inl e \<Rightarrow> str_contains word (debug (error_chain T e)) | Inr _ \<Rightarrow> False)"

definition test_load_config_rejects_invalid_inode_count ::
    "error_texts \<Rightarrow> (string list \<Rightarrow> string) \<Rightarrow> ('s, 'h) world_env \<Rightarrow> path \<Rightarrow> bool" where
  "test_load_config_rejects_invalid_inode_count T debug env p = fails_naming T debug env p ''inode_count''"

definition test_load_config_rejects_bad_toml ::
    "error_texts \<Rightarrow> (string list \<Rightarrow> string) \<Rightarrow> ('s, 'h) world_env \<Rightarrow> path \<Rightarrow> bool" where
  "test_load_config_rejects_bad_toml T debug env p = fails_naming T debug env p ''TOML''"

definition test_load_config_rejects_missing_file ::
    "error_texts \<Rightarrow> (string list \<Rightarrow> string) \<Rightarrow> ('s, 'h) world_env \<Rightarrow> path \<Rightarrow> bool" where
  "test_load_config_rejects_missing_file T debug env p = fails_naming T debug env p ''read config file''"

definition test_default_config_toml_roundtrips :: "('s, 'h) world_env \<Rightarrow> bool" where
  "test_default_config_toml_roundtrips env =
     (case default_config_toml env of Inl _ \<Rightarrow> False
      | Inr text \<Rightarrow>
          (case toml_from_str env text of None \<Rightarrow> False
           | Some parsed \<Rightarrow> validates parsed \<and> cfg_seed parsed = 42 \<and> inode_count (cfg_files parsed) = 1000))"

lemma fails_naming_iff:
  assumes "shows_chain debug" "load_config env p = Err e" "\<exists>m\<in>set (error_chain T e). sublist word m"
  shows "fails_naming T debug env p word"
proof -
  obtain m where m: "m \<in> set (error_chain T e)" "sublist word m" using assms(3) by blast
  have "sublist m (debug (error_chain T e))"
    using assms(1) m(1) by (auto simp: shows_chain_def list_all_iff str_contains_iff)
  with m(2) have "sublist word (debug (error_chain T e))" by (rule sublist_order.order.trans)
  then show ?thesis by (simp add: fails_naming_def assms(2) str_contains_iff)
qed

lemma files_document_read:
  "de_config toml_prims (files_document n bytes) = (if 0 \<le> n \<and> n < 2 ^ 64 \<and> 0 \<le> bytes \<and> bytes < 2 ^ 64
     then Some (Config_default\<lparr>cfg_files := FilesConfig_default\<lparr>inode_count := of_int n, file_size_bytes := of_int bytes\<rparr>\<rparr>)
     else None)"
  by (simp add: files_document_def de_config_def de_files_def field_def toml_prims_def Config_default_def
      FilesConfig_default_def)

lemma config_io_tests_pass:
  assumes "toml_prim env = toml_prims" "shows_chain debug"
  shows "parses_to env p (Some (files_document 10 4096)) \<Longrightarrow> test_load_valid_minimal_config env p"
    and "parses_to env p (Some (files_document 0 4096))
      \<Longrightarrow> test_load_config_rejects_invalid_inode_count T debug env p"
    and "parses_to env p None \<Longrightarrow> test_load_config_rejects_bad_toml T debug env p"
    and "read_to_string env p = Err e \<Longrightarrow> test_load_config_rejects_missing_file T debug env p"
    and "\<forall>v. \<exists>t. print_toml env v = Some t \<and> parse_toml env t = Some v \<Longrightarrow> test_default_config_toml_roundtrips env"
proof -
  note load = load_config_def parses_to_def toml_from_str_def or_error_def ok_or_def assms(1) files_document_read
    validate_def FilesConfig_default_def Config_default_def default_value_defs config_error_def
  show "test_load_valid_minimal_config env p" if "parses_to env p (Some (files_document 10 4096))"
    using that by (auto simp: test_load_valid_minimal_config_def load split: sum.splits)
  show "test_load_config_rejects_invalid_inode_count T debug env p" if "parses_to env p (Some (files_document 0 4096))"
    unfolding test_load_config_rejects_invalid_inode_count_def
    by (rule fails_naming_iff [OF assms(2), of _ _ "Invalid_config p (Config_err InodeCountZero)"])
      (use that in \<open>auto simp: load str_contains_iff [symmetric] split: sum.splits\<close>)
  show "test_load_config_rejects_bad_toml T debug env p" if "parses_to env p None"
    unfolding test_load_config_rejects_bad_toml_def
    by (rule fails_naming_iff [OF assms(2), of _ _ "Invalid_toml p"])
      (use that in \<open>auto simp: load str_contains_iff [symmetric] split: sum.splits\<close>)
  show "test_load_config_rejects_missing_file T debug env p" if "read_to_string env p = Err e"
    unfolding test_load_config_rejects_missing_file_def
    by (rule fails_naming_iff [OF assms(2), of _ _ "Read_failed p e"])
      (use that in \<open>auto simp: load str_contains_iff [symmetric] split: sum.splits\<close>)
  show "test_default_config_toml_roundtrips env"
    if printer: "\<forall>v. \<exists>t. print_toml env v = Some t \<and> parse_toml env t = Some v"
  proof -
    obtain t where t: "print_toml env default_document = Some t" "parse_toml env t = Some default_document"
      using printer by blast
    have read: "de_config toml_prims default_document = Some Config_default"
      using config_read_back [OF toml_prims_roundtrip default_written] by (simp add: reads_back_def Config_default_def)
    have "validate Config_default = Ok ()" by (simp add: validate_iff valid_config_def load)
    then show ?thesis
      using t by (simp add: test_default_config_toml_roundtrips_def default_config_toml_def assms(1) default_written
          toml_from_str_def read validates_def ok_or_def)
        (simp add: load)
  qed
qed

end
