(* ===== verification/Conformance_Files.thy ===== *)
theory Conformance_Files
  imports Namespace Content
begin

text \<open>
  The unit tests of \<open>fusecraft-core/src/namespace/flat.rs\<close> and \<open>content/deterministic.rs\<close>,
  translated: every test is a definition that holds when its assertions hold, and a lemma says
  that the model passes it. The credentials and the clock of the constructor are arguments, and
  the tests pass for all of them.
\<close>

section \<open>The flat namespace\<close>

definition test_config :: "u64 \<Rightarrow> FilesConfig" where
  "test_config count = FilesConfig_default\<lparr>inode_count := count, file_size_bytes := 4096\<rparr>"

type_synonym host = "u32 \<times> u32 \<times> system_time"

definition test_ns :: "host \<Rightarrow> u64 \<Rightarrow> FlatObjectNamespace" where
  "test_ns h count = (case h of (uid, gid, now) \<Rightarrow> fst (FlatObjectNamespace_new (test_config count) uid gid now))"

text \<open>The sink of the tests: the collected entries, and after how many it stops.\<close>

record CollectingSink =
  sink_entries :: "dir_entry list"
  sink_stop_after :: "nat option"

definition sink_unbounded :: CollectingSink where
  "sink_unbounded = \<lparr>sink_entries = [], sink_stop_after = None\<rparr>"

definition sink_stops_after :: "nat \<Rightarrow> CollectingSink" where
  "sink_stops_after n = \<lparr>sink_entries = [], sink_stop_after = Some n\<rparr>"

definition collecting_push :: "CollectingSink dir_sink" where
  "collecting_push s e =
     (let s1 = s\<lparr>sink_entries := sink_entries s @ [e]\<rparr> in
      (case sink_stop_after s1 of Some n \<Rightarrow> length (sink_entries s1) < n | None \<Rightarrow> True, s1))"

definition entry_name :: "dir_entry \<Rightarrow> os_str" where "entry_name e = snd (snd (snd e))"

text \<open>\<open>ns.readdir(ino, offset, &mut sink).unwrap()\<close>, then a condition on the entries.\<close>

definition listing :: "FlatObjectNamespace \<Rightarrow> u64 \<Rightarrow> u64 \<Rightarrow> CollectingSink \<Rightarrow> (dir_entry list \<Rightarrow> bool) \<Rightarrow> bool" where
  "listing ns ino offset s ok = (case readdir ns collecting_push ino offset s of
     (Inr _, s') \<Rightarrow> ok (sink_entries s') | (Inl _, _) \<Rightarrow> False)"

definition test_lookup_objects_under_root :: "host \<Rightarrow> bool" where
  "test_lookup_objects_under_root h \<longleftrightarrow> lookup (test_ns h 10) FUSE_ROOT_INO ''objects'' = Some OBJECTS_INO"

definition test_lookup_rejects_wrong_name_under_root :: "host \<Rightarrow> bool" where
  "test_lookup_rejects_wrong_name_under_root h \<longleftrightarrow> lookup (test_ns h 10) FUSE_ROOT_INO ''other'' = None"

definition test_lookup_file_under_objects :: "host \<Rightarrow> bool" where
  "test_lookup_file_under_objects h \<longleftrightarrow> lookup (test_ns h 100) OBJECTS_INO ''000042'' = Some (FIRST_FILE_INO + 42)"

definition test_lookup_rejects_invalid_names :: "host \<Rightarrow> bool" where
  "test_lookup_rejects_invalid_names h \<longleftrightarrow>
     lookup (test_ns h 100) OBJECTS_INO ''00042'' = None
     \<and> lookup (test_ns h 100) OBJECTS_INO ''0000042'' = None
     \<and> lookup (test_ns h 100) OBJECTS_INO ''abcdef'' = None
     \<and> lookup (test_ns h 100) OBJECTS_INO ''00004a'' = None"

definition test_lookup_rejects_out_of_range :: "host \<Rightarrow> bool" where
  "test_lookup_rejects_out_of_range h \<longleftrightarrow>
     lookup (test_ns h 10) OBJECTS_INO ''000010'' = None \<and> lookup (test_ns h 10) OBJECTS_INO ''000099'' = None"

definition test_lookup_under_unknown_parent :: "host \<Rightarrow> bool" where
  "test_lookup_under_unknown_parent h \<longleftrightarrow> lookup (test_ns h 10) 42 ''anything'' = None"

definition test_attr_root_is_dir :: "host \<Rightarrow> bool" where
  "test_attr_root_is_dir h \<longleftrightarrow> (case attr (test_ns h 10) FUSE_ROOT_INO of None \<Rightarrow> False
     | Some a \<Rightarrow> attr_ino a = FUSE_ROOT_INO \<and> attr_kind a = Dir \<and> attr_mode a = 0x1ED \<and> attr_nlink a = 2)"

definition test_attr_objects_is_dir :: "host \<Rightarrow> bool" where
  "test_attr_objects_is_dir h \<longleftrightarrow> (case attr (test_ns h 10) OBJECTS_INO of None \<Rightarrow> False | Some a \<Rightarrow> attr_kind a = Dir)"

definition test_attr_file_has_configured_size :: "host \<Rightarrow> bool" where
  "test_attr_file_has_configured_size h \<longleftrightarrow> (case attr (test_ns h 10) (FIRST_FILE_INO + 5) of None \<Rightarrow> False
     | Some a \<Rightarrow> attr_kind a = File \<and> attr_size a = 4096 \<and> attr_mode a = 0x1A4 \<and> attr_nlink a = 1)"

definition test_attr_unknown_inode :: "host \<Rightarrow> bool" where
  "test_attr_unknown_inode h \<longleftrightarrow> attr (test_ns h 10) (FIRST_FILE_INO + 10) = None \<and> attr (test_ns h 10) 50 = None"

definition test_readdir_root_yields_dot_dotdot_objects :: "host \<Rightarrow> bool" where
  "test_readdir_root_yields_dot_dotdot_objects h \<longleftrightarrow>
     listing (test_ns h 10) FUSE_ROOT_INO 0 sink_unbounded (\<lambda>es.
       length es = 3 \<and> entry_name (es ! 0) = ''.'' \<and> entry_name (es ! 1) = ''..''
       \<and> entry_name (es ! 2) = ''objects'' \<and> entry_off (es ! 2) = 3)"

definition test_readdir_root_respects_offset :: "host \<Rightarrow> bool" where
  "test_readdir_root_respects_offset h \<longleftrightarrow>
     listing (test_ns h 10) FUSE_ROOT_INO 2 sink_unbounded (\<lambda>es. length es = 1 \<and> entry_name (es ! 0) = ''objects'')"

definition test_readdir_objects_yields_all_entries :: "host \<Rightarrow> bool" where
  "test_readdir_objects_yields_all_entries h \<longleftrightarrow>
     listing (test_ns h 5) OBJECTS_INO 0 sink_unbounded (\<lambda>es.
       length es = 7 \<and> entry_name (es ! 0) = ''.'' \<and> entry_name (es ! 1) = ''..''
       \<and> list_all (\<lambda>(idx, ino, off, kind, nm). nm = format_06 (of_nat idx) \<and> ino = FIRST_FILE_INO + of_nat idx
             \<and> off = 3 + of_nat idx \<and> kind = File)
           (zip [0..<length (drop 2 es)] (drop 2 es)))"

definition test_readdir_objects_respects_offset :: "host \<Rightarrow> bool" where
  "test_readdir_objects_respects_offset h \<longleftrightarrow>
     listing (test_ns h 10) OBJECTS_INO 4 sink_unbounded (\<lambda>es.
       es \<noteq> [] \<and> entry_name (es ! 0) = ''000002'' \<and> entry_off (es ! 0) = 5)"

definition test_readdir_stops_when_sink_returns_false :: "host \<Rightarrow> bool" where
  "test_readdir_stops_when_sink_returns_false h \<longleftrightarrow>
     listing (test_ns h 100) OBJECTS_INO 0 (sink_stops_after 5) (\<lambda>es. length es = 5)"

definition test_readdir_on_file_returns_enotdir :: "host \<Rightarrow> bool" where
  "test_readdir_on_file_returns_enotdir h \<longleftrightarrow>
     fst (readdir (test_ns h 10) collecting_push FIRST_FILE_INO 0 sink_unbounded) = Err (Errno ENOTDIR)"

definition test_clamps_inode_count_at_limit :: "host \<Rightarrow> bool" where
  "test_clamps_inode_count_at_limit h \<longleftrightarrow> ns_inode_count (test_ns h 2000000) = MAX_FILES - 1"

text \<open>How the model passes.\<close>

lemma test_ns_count [simp]:
  "ns_inode_count (test_ns h count) = min count (MAX_FILES - 1)" "ns_file_size_bytes (test_ns h count) = 4096"
  by (simp_all add: test_ns_def FlatObjectNamespace_new_def test_config_def Let_def split: prod.split)

lemma wf_test_ns: "wf_ns (test_ns h count)"
  by (simp add: test_ns_def wf_ns_new split: prod.split)

lemma test_counts [simp]:
  "min 5 (MAX_FILES - 1) = 5" "min 10 (MAX_FILES - 1) = 10" "min 100 (MAX_FILES - 1) = 100"
  "min 2000000 (MAX_FILES - 1) = MAX_FILES - 1"
  by (simp_all add: MAX_FILES_def min_def)

lemmas ino_defs = FUSE_ROOT_INO_def OBJECTS_INO_def FIRST_FILE_INO_def

lemma parse_name_bad: "length nm \<noteq> 6 \<or> \<not> list_all is_ascii_digit nm \<Longrightarrow> parse_name ns nm = None"
  by (auto simp: parse_name_def to_str_def)

lemma parse_name_digits:
  "list_all is_ascii_digit nm \<Longrightarrow> length nm = 6 \<Longrightarrow>
     parse_name ns nm = then_some (of_nat (digits_val 0 nm) < ns_inode_count ns) (of_nat (digits_val 0 nm))"
  by (simp add: parse_name_def to_str_def utf8_valid_digits parse_u64_digits)

lemma lookup_tests_pass:
  "test_lookup_objects_under_root h" "test_lookup_rejects_wrong_name_under_root h"
  "test_lookup_file_under_objects h" "test_lookup_rejects_invalid_names h" "test_lookup_rejects_out_of_range h"
  "test_lookup_under_unknown_parent h"
  unfolding test_lookup_objects_under_root_def test_lookup_rejects_wrong_name_under_root_def
    test_lookup_file_under_objects_def test_lookup_rejects_invalid_names_def test_lookup_rejects_out_of_range_def
    test_lookup_under_unknown_parent_def
  by (simp_all add: lookup_def then_some_def ino_defs parse_name_digits parse_name_bad is_ascii_digit_def)

lemma attr_tests_pass:
  "test_attr_root_is_dir h" "test_attr_objects_is_dir h" "test_attr_file_has_configured_size h"
  "test_attr_unknown_inode h"
  unfolding test_attr_root_is_dir_def test_attr_objects_is_dir_def test_attr_file_has_configured_size_def
    test_attr_unknown_inode_def
  by (simp_all add: attr_def ino_defs dir_attr_def file_attr_def ino_to_index_def checked_sub_def then_some_def)

lemma collecting_push_all:
  "push_while collecting_push es \<lparr>sink_entries = acc, sink_stop_after = None\<rparr> = \<lparr>sink_entries = acc @ es, sink_stop_after = None\<rparr>"
  by (induction es arbitrary: acc) (simp_all add: collecting_push_def Let_def)

lemma collecting_push_some:
  "length acc < n \<Longrightarrow> push_while collecting_push es \<lparr>sink_entries = acc, sink_stop_after = Some n\<rparr>
     = \<lparr>sink_entries = acc @ take (n - length acc) es, sink_stop_after = Some n\<rparr>"
proof (induction es arbitrary: acc)
  case (Cons e es)
  then show ?case
    by (cases "Suc (length acc) < n") (auto simp: collecting_push_def Let_def Suc_diff_Suc take_Cons' le_Suc_eq not_less)
qed simp

lemma listing_unbounded:
  "dir_entries (test_ns h count) ino = Some es \<Longrightarrow>
     listing (test_ns h count) ino off sink_unbounded ok = ok (filter (\<lambda>e. off < entry_off e) es)"
  by (simp add: listing_def readdir_eq [OF wf_test_ns] sink_unbounded_def collecting_push_all)

lemma listing_stops:
  "dir_entries (test_ns h count) ino = Some es \<Longrightarrow> 0 < n \<Longrightarrow>
     listing (test_ns h count) ino off (sink_stops_after n) ok = ok (take n (filter (\<lambda>e. off < entry_off e) es))"
  by (simp add: listing_def readdir_eq [OF wf_test_ns] sink_stops_after_def collecting_push_some)

lemma dir_entries_at [simp]:
  "dir_entries ns FUSE_ROOT_INO = Some root_entries" "dir_entries ns OBJECTS_INO = Some (objects_entries ns)"
  "dir_entries ns FIRST_FILE_INO = None"
  by (simp_all add: dir_entries_def ino_defs)

lemma readdir_tests_pass:
  "test_readdir_root_yields_dot_dotdot_objects h" "test_readdir_root_respects_offset h"
  "test_readdir_objects_yields_all_entries h" "test_readdir_objects_respects_offset h"
  "test_readdir_stops_when_sink_returns_false h" "test_readdir_on_file_returns_enotdir h"
  "test_clamps_inode_count_at_limit h"
proof -
  have five: "[0..<5] = [0, 1, 2, 3, 4 :: nat]" and ten: "[0..<10] = [0, 1, 2, 3, 4, 5, 6, 7, 8, 9 :: nat]"
    by (simp_all add: upt_rec)
  have nm: "format_06 2 = ''000002''" by code_simp
  show "test_readdir_root_yields_dot_dotdot_objects h" "test_readdir_root_respects_offset h"
    by (simp_all add: test_readdir_root_yields_dot_dotdot_objects_def test_readdir_root_respects_offset_def
        listing_unbounded root_entries_def entry_off_def entry_name_def)
  show "test_readdir_objects_yields_all_entries h" "test_readdir_objects_respects_offset h"
    by (simp_all add: test_readdir_objects_yields_all_entries_def test_readdir_objects_respects_offset_def
        listing_unbounded objects_entries_def five ten file_entry_def entry_off_def entry_name_def index_to_name_def
        upt_rec nm)
  have "100 \<le> length (filter (\<lambda>e. 0 < entry_off e) (map file_entry [0..<100]))"
    using filter_files [OF wf_test_ns, of 0 h 100] by (simp add: saturating_sub_def)
  then show "test_readdir_stops_when_sink_returns_false h"
    by (simp add: test_readdir_stops_when_sink_returns_false_def listing_stops objects_entries_def entry_off_def)
  show "test_readdir_on_file_returns_enotdir h" "test_clamps_inode_count_at_limit h"
    by (simp_all add: test_readdir_on_file_returns_enotdir_def test_clamps_inode_count_at_limit_def
        readdir_eq [OF wf_test_ns])
qed

section \<open>The deterministic content\<close>

definition test_synth_byte_varies_by_seed :: bool where
  "test_synth_byte_varies_by_seed \<longleftrightarrow>
     4 < card (set (map (\<lambda>s. synth_byte 100 0 (of_nat s)) [0..<32]))"

definition test_synth_byte_varies_by_ino_and_offset :: bool where
  "test_synth_byte_varies_by_ino_and_offset \<longleftrightarrow>
     synth_byte 100 0 0 \<noteq> synth_byte 101 0 0 \<and> synth_byte 100 0 0 \<noteq> synth_byte 100 1 0"

definition test_read_at_fills_entire_buffer :: bool where
  "test_read_at_fills_entire_buffer \<longleftrightarrow>
     (let buf = read_at (DeterministicContent_new 42 1024) 7 10 (replicate 128 0)
      in list_all (\<lambda>(i, b). b = synth_byte 7 (10 + of_nat i) 42) (enumerate 0 buf))"

definition test_read_at_does_not_clamp_against_file_len :: bool where
  "test_read_at_does_not_clamp_against_file_len \<longleftrightarrow>
     0 < length (filter (\<lambda>b. b \<noteq> 0) (read_at (DeterministicContent_new 1 16) 1 0 (replicate 32 0)))"

definition test_write_at_returns_len_and_discards :: bool where
  "test_write_at_returns_len_and_discards \<longleftrightarrow>
     (let c = DeterministicContent_new 1 1024 in
      write_at c 1 0 (map of_char ''hello'') = Ok 5
      \<and> list_all (\<lambda>(i, b). b = synth_byte 1 (of_nat i) 1) (enumerate 0 (read_at c 1 0 (replicate 5 0))))"

definition test_file_len_reports_configured_size :: bool where
  "test_file_len_reports_configured_size \<longleftrightarrow> file_len (DeterministicContent_new 1 65536) 0 = 65536"

lemma read_at_bytes:
  "list_all (\<lambda>(i, b). b = synth_byte ino (off + of_nat i) (content_seed c)) (enumerate 0 (read_at c ino off dst))"
  by (auto simp: list_all_iff enumerate_eq_zip read_at_eq_map in_set_zip)

lemma content_seed_new [simp]: "content_seed (DeterministicContent_new seed len) = seed"
  by (simp add: DeterministicContent_new_def)

lemma content_tests_pass:
  "test_synth_byte_varies_by_seed" "test_synth_byte_varies_by_ino_and_offset" "test_read_at_fills_entire_buffer"
  "test_read_at_does_not_clamp_against_file_len" "test_write_at_returns_len_and_discards"
  "test_file_len_reports_configured_size"
proof -
  let ?five = "[synth_byte 100 0 0, synth_byte 100 0 1, synth_byte 100 0 2, synth_byte 100 0 3, synth_byte 100 0 4]"
  have "distinct ?five" by code_simp
  then have "card (set ?five) = 5" by (simp only: distinct_card) simp
  moreover have "set ?five = (\<lambda>s. synth_byte 100 0 (of_nat s)) ` {0, 1, 2, 3, 4}" by simp
  then have "card (set ?five) \<le> card (set (map (\<lambda>s. synth_byte 100 0 (of_nat s)) [0..<32]))"
    by (simp only: set_map) (intro card_mono image_mono, auto)
  ultimately show "test_synth_byte_varies_by_seed" by (simp only: test_synth_byte_varies_by_seed_def)
  show "test_synth_byte_varies_by_ino_and_offset"
    "test_read_at_does_not_clamp_against_file_len" "test_file_len_reports_configured_size"
    by code_simp+
  show "test_read_at_fills_entire_buffer"
    using read_at_bytes [of 7 10 "DeterministicContent_new 42 1024" "replicate 128 0"]
    by (simp only: test_read_at_fills_entire_buffer_def Let_def content_seed_new)
  show "test_write_at_returns_len_and_discards"
    using read_at_bytes [of 1 0 "DeterministicContent_new 1 1024" "replicate 5 0"]
    by (simp only: test_write_at_returns_len_and_discards_def Let_def content_seed_new add_0_left)
      (simp add: write_at_def)
qed

end
