(* ===== verification/Conformance_Limits.thy ===== *)
theory Conformance_Limits
  imports Limiter Bandwidth Float64_Eval
begin

text \<open>
  The unit tests of \<open>fusecraft-core/src/limiter\<close>, translated: every test is a definition that
  holds when its assertions hold, and a lemma says that the model passes it. A test that lets two
  threads meet by sleeping is the schedule its sleeps force. Left out is the one that measures
  how many of twenty threads are inside at once (the theorems on \<open>lim_inv\<close> say more).
\<close>

section \<open>The concurrency limiter\<close>

text \<open>\<open>limiter.acquire().unwrap()\<close> on a limiter with a free slot, then the rest of the test.\<close>

definition acquired :: "BlockingLimiter \<Rightarrow> LimiterState \<Rightarrow> (LimiterState \<Rightarrow> bool) \<Rightarrow> bool" where
  "acquired l st rest = (case acquire_enter l st of (Admitted, st1) \<Rightarrow> rest st1 | _ \<Rightarrow> False)"

text \<open>\<open>limiter.acquire()\<close> fails with \<open>EAGAIN\<close>.\<close>

definition refused :: "BlockingLimiter \<Rightarrow> LimiterState \<Rightarrow> (LimiterState \<Rightarrow> bool) \<Rightarrow> bool" where
  "refused l st rest = (case acquire_enter l st of (Rejected, st1) \<Rightarrow> rest st1 | _ \<Rightarrow> False)"

text \<open>The same \<open>n\<close> times, one guard after the other.\<close>

primrec acquired_and_dropped :: "nat \<Rightarrow> BlockingLimiter \<Rightarrow> LimiterState \<Rightarrow> (LimiterState \<Rightarrow> bool) \<Rightarrow> bool" where
  "acquired_and_dropped 0 l st rest = rest st"
| "acquired_and_dropped (Suc n) l st rest =
     acquired l st (\<lambda>st1. acquired_and_dropped n l (release st1) rest)"

primrec refused_times :: "nat \<Rightarrow> BlockingLimiter \<Rightarrow> LimiterState \<Rightarrow> (LimiterState \<Rightarrow> bool) \<Rightarrow> bool" where
  "refused_times 0 l st rest = rest st"
| "refused_times (Suc n) l st rest = refused l st (\<lambda>st1. refused_times n l st1 rest)"

definition test_acquire_under_cap_succeeds :: bool where
  "test_acquire_under_cap_succeeds \<longleftrightarrow>
     (let (l, st) = BlockingLimiter_new 2 0 in
      acquired l st (\<lambda>st1. acquired l st1 (\<lambda>st2.
        stats_inflight (limiter_stats st2) = 2 \<and> stats_queued (limiter_stats st2) = 0
        \<and> stats_inflight (limiter_stats (release (release st2))) = 0)))"

text \<open>The second thread arrives at \<open>start\<close>; the first drops its guard after 50 milliseconds.\<close>

definition test_acquire_over_cap_blocks_until_release :: "instant \<Rightarrow> bool" where
  "test_acquire_over_cap_blocks_until_release start \<longleftrightarrow>
     (let (l, st) = BlockingLimiter_new 1 2 in
      acquired l st (\<lambda>st1. case acquire_enter l st1 of
        (Enqueued, st2) \<Rightarrow> stats_queued (limiter_stats st2) = 1
          \<and> (case acquire_wake l (release st2) start (start + 50000000) of
               (Some queue_wait, st3) \<Rightarrow> 0 < queue_wait \<and> stats_inflight (limiter_stats (release st3)) = 0
             | (None, _) \<Rightarrow> False)
      | _ \<Rightarrow> False))"

definition test_queue_cap_zero_rejects_when_full :: bool where
  "test_queue_cap_zero_rejects_when_full \<longleftrightarrow>
     (let (l, st) = BlockingLimiter_new 1 0 in acquired l st (\<lambda>st1. refused l st1 (\<lambda>_. True)))"

definition test_guard_drop_releases_capacity :: bool where
  "test_guard_drop_releases_capacity \<longleftrightarrow>
     (let (l, st) = BlockingLimiter_new 2 0 in
      acquired_and_dropped 100 l st (\<lambda>st1. stats_inflight (limiter_stats st1) = 0))"

definition test_limiter_does_not_underflow :: bool where
  "test_limiter_does_not_underflow \<longleftrightarrow>
     (let (l, st) = BlockingLimiter_new 4 0 in
      acquired_and_dropped 50 l st (\<lambda>st1.
        stats_inflight (limiter_stats st1) = 0 \<and> stats_acquired (limiter_stats st1) = 50))"

definition test_queue_wait_is_recorded :: "instant \<Rightarrow> bool" where
  "test_queue_wait_is_recorded start \<longleftrightarrow>
     (let (l, st) = BlockingLimiter_new 1 4 in
      acquired l st (\<lambda>st1. case acquire_enter l st1 of
        (Enqueued, st2) \<Rightarrow>
          (case acquire_wake l (release st2) start (start + 50000000) of
             (Some queue_wait, st3) \<Rightarrow> 40000000 < queue_wait
               \<and> 40000000 \<le> stats_queue_wait (limiter_stats (release st3))
           | (None, _) \<Rightarrow> False)
      | _ \<Rightarrow> False))"

definition test_cap_zero_always_rejects :: bool where
  "test_cap_zero_always_rejects \<longleftrightarrow>
     (let (l, st) = BlockingLimiter_new 0 10 in
      refused_times 5 l st (\<lambda>st1.
        stats_rejected (limiter_stats st1) = 5 \<and> stats_acquired (limiter_stats st1) = 0))"

definition test_stats_tracks_rejections :: bool where
  "test_stats_tracks_rejections \<longleftrightarrow>
     (let (l, st) = BlockingLimiter_new 1 0 in
      acquired l st (\<lambda>st1. refused_times 5 l st1 (\<lambda>st2.
        stats_acquired (limiter_stats st2) = 1 \<and> stats_rejected (limiter_stats st2) = 5)))"

lemma acquired_and_dropped_iff:
  "inflight st < cap l \<Longrightarrow> acquired_and_dropped n l st rest = rest (st\<lparr>total_acquired := total_acquired st + of_nat n\<rparr>)"
proof (induction n arbitrary: st)
  case (Suc n)
  then have "cap l \<noteq> 0" by (auto simp: word_less_nat_alt)
  then show ?case using Suc by (simp add: acquired_def acquire_enter_def release_def add.assoc)
qed simp

lemma refused_times_iff:
  "cap l = 0 \<or> \<not> inflight st < cap l \<and> BlockingLimiter.queue_cap l \<le> queued st \<Longrightarrow>
     refused_times n l st rest = rest (st\<lparr>total_rejected := total_rejected st + of_nat n\<rparr>)"
  by (induction n arbitrary: st) (auto simp: refused_def acquire_enter_def add.assoc)

lemma limiter_tests_pass:
  "test_acquire_under_cap_succeeds" "test_acquire_over_cap_blocks_until_release start"
  "test_queue_cap_zero_rejects_when_full" "test_guard_drop_releases_capacity" "test_limiter_does_not_underflow"
  "test_queue_wait_is_recorded start" "test_cap_zero_always_rejects" "test_stats_tracks_rejections"
proof -
  show "test_guard_drop_releases_capacity" "test_limiter_does_not_underflow"
    by (simp_all add: test_guard_drop_releases_capacity_def test_limiter_does_not_underflow_def
        BlockingLimiter_new_def acquired_and_dropped_iff limiter_stats_def)
  show "test_acquire_under_cap_succeeds" "test_acquire_over_cap_blocks_until_release start"
    "test_queue_cap_zero_rejects_when_full" "test_queue_wait_is_recorded start"
    "test_cap_zero_always_rejects" "test_stats_tracks_rejections"
    by (simp_all add: test_acquire_under_cap_succeeds_def test_acquire_over_cap_blocks_until_release_def
        test_queue_cap_zero_rejects_when_full_def test_queue_wait_is_recorded_def test_cap_zero_always_rejects_def
        test_stats_tracks_rejections_def BlockingLimiter_new_def acquired_def refused_def acquire_enter_def
        acquire_wake_def release_def limiter_stats_def duration_since_def as_nanos_u64_def from_nanos_def
        refused_times_iff Let_def)
qed

section \<open>The bandwidth limiter\<close>

text \<open>
  The tests read the clock a few microseconds apart; here the clock stands still, but for the
  sleeps of the tests.
\<close>

definition test_profile :: "f64 \<Rightarrow> u64 \<Rightarrow> BandwidthProfile" where
  "test_profile bps burst = \<lparr>bytes_per_sec = bps, burst_bytes = burst\<rparr>"

text \<open>Reservations one after the other, each at its time, and the waits they return.\<close>

fun reservations :: "BandwidthLimiter \<Rightarrow> BucketState \<Rightarrow> (u64 \<times> instant) list \<Rightarrow> duration list \<times> BucketState" where
  "reservations l st [] = ([], st)"
| "reservations l st ((bytes, now) # calls) =
     (let (wait, st1) = reserve l st bytes now; (waits, st2) = reservations l st1 calls in (wait # waits, st2))"

definition waits_of :: "BandwidthProfile \<Rightarrow> instant \<Rightarrow> (u64 \<times> instant) list \<Rightarrow> duration list" where
  "waits_of profile now calls = (let (l, st) = BandwidthLimiter_new profile now in fst (reservations l st calls))"

definition near :: "duration \<Rightarrow> duration \<Rightarrow> duration \<Rightarrow> bool" where
  "near tolerance expected wait \<longleftrightarrow>
     (if expected < wait then wait - expected else expected - wait) < tolerance"

definition test_bandwidth_within_burst_no_delay :: bool where
  "test_bandwidth_within_burst_no_delay \<longleftrightarrow> waits_of (test_profile (Finite 1000000) 4096) 0 [(4096, 0)] = [0]"

definition test_bandwidth_over_burst_delays :: bool where
  "test_bandwidth_over_burst_delays \<longleftrightarrow>
     (case waits_of (test_profile (Finite 1000) 1000) 0 [(1000, 0), (500, 0)] of
        [first, second] \<Rightarrow> first = 0 \<and> 0 < second \<and> near 10000000 500000000 second
      | _ \<Rightarrow> False)"

definition test_bandwidth_refills_over_time :: bool where
  "test_bandwidth_refills_over_time \<longleftrightarrow>
     waits_of (test_profile (Finite 10000) 10000) 0 [(10000, 0), (500, 100000000)] = [0, 0]"

definition test_burst_cap_limits_token_accumulation :: bool where
  "test_burst_cap_limits_token_accumulation \<longleftrightarrow>
     (let (l, st) = BandwidthLimiter_new (test_profile (Finite 100000) 1000) 0
      in f64_le (tokens_available (fst (bandwidth_stats l st 100000000))) (Finite 1000))"

definition test_stats_tracking :: bool where
  "test_stats_tracking \<longleftrightarrow>
     (let (l, st) = BandwidthLimiter_new (test_profile (Finite 1000000) 4096) 0;
          stats = fst (bandwidth_stats l (snd (reservations l st [(1000, 0), (2000, 0)])) 0)
      in stats_bytes_reserved stats = 3000 \<and> stats_bytes_per_sec stats = Finite 1000000
        \<and> stats_burst_bytes stats = 4096)"

text \<open>Ten threads with a hundred reservations each, in the order and at the times they come.\<close>

definition test_concurrent_reservations_are_serialized :: "instant list \<Rightarrow> bool" where
  "test_concurrent_reservations_are_serialized clock \<longleftrightarrow>
     (let (l, st) = BandwidthLimiter_new (test_profile (Finite 1000000) 100000) 0
      in stats_bytes_reserved (fst (bandwidth_stats l (snd (reservations l st (map (\<lambda>now. (100, now)) clock))) 0)) = 100000)"

definition test_zero_reserve_returns_zero_duration :: bool where
  "test_zero_reserve_returns_zero_duration \<longleftrightarrow> waits_of (test_profile (Finite 1000) 1000) 0 [(0, 0)] = [0]"

definition test_large_reserve_returns_proportional_wait :: bool where
  "test_large_reserve_returns_proportional_wait \<longleftrightarrow>
     (case waits_of (test_profile (Finite 1000) 100) 0 [(100, 0), (2000, 0)] of
        [first, second] \<Rightarrow> first = 0 \<and> near 50000000 2000000000 second
      | _ \<Rightarrow> False)"

definition test_bandwidth_zero_rate_returns_zero_duration :: bool where
  "test_bandwidth_zero_rate_returns_zero_duration \<longleftrightarrow> waits_of (test_profile (Finite 0) 0) 0 [(1000, 0)] = [0]"

definition test_bandwidth_negative_rate_returns_zero_duration :: bool where
  "test_bandwidth_negative_rate_returns_zero_duration \<longleftrightarrow>
     waits_of (test_profile (Finite (- 100)) 1000) 0 [(5000, 0)] = [0]"

lemma f64_of_rat_zero: "f64_of_rat False 0 = Finite 0" by (simp add: f64_of_rat_def)

lemmas bucket_simps = waits_of_def BandwidthLimiter_new_def test_profile_def reserve_def refill_def
  duration_since_def f64_sub_def f64_of_u64_numeral f64_of_rat_numeral f64_of_rat_zero f64_of_rat_half f64_lt_def
  near_def Let_def

lemma half_second: "try_from_secs_f64 (Finite (1/2)) = Some 500000000"
  by (simp add: round_even_eval [of _ 500000000] DURATION_MAX_def Let_def)

lemma two_seconds: "try_from_secs_f64 (Finite 2) = Some 2000000000"
  by (simp add: round_even_eval [of _ 2000000000] DURATION_MAX_def Let_def)

text \<open>A tenth of a second, and what it refills.\<close>

lemma tenth_exact: "f64_of_rat b (3602879701896397 / 2 ^ 55) = Finite (3602879701896397 / 2 ^ 55)"
proof -
  have "f64_of_rat b (3602879701896397 / 2 ^ 55) = Finite (of_int 7205759403792794 * 2 powi (- 4 - 52))"
    by (rule f64_of_rat_eval) (simp_all add: power_int_minus)
  then show ?thesis by (simp add: power_int_minus)
qed

lemma tenth_of_second: "as_secs_f64 100000000 = Finite (3602879701896397 / 2 ^ 55)"
  using f64_of_rat_tenth [of False] tenth_exact [of False]
  by (simp add: as_secs_f64_def f64_of_rat_zero f64_of_rat_numeral)

lemma tenth_refills:
  "f64_mul (as_secs_f64 100000000) (Finite 10000) = Finite 1000"
  "f64_mul (as_secs_f64 100000000) (Finite 100000) = Finite 10000"
proof -
  have "f64_of_rat False (3602879701896397 / 2 ^ 55 * 10000) = Finite (of_int (1000 * 2 ^ 43) * 2 powi (9 - 52))"
    "f64_of_rat False (3602879701896397 / 2 ^ 55 * 100000) = Finite (of_int (10000 * 2 ^ 39) * 2 powi (13 - 52))"
    by (rule f64_of_rat_eval; simp add: power_int_minus)+
  then show "f64_mul (as_secs_f64 100000000) (Finite 10000) = Finite 1000"
    "f64_mul (as_secs_f64 100000000) (Finite 100000) = Finite 10000"
    unfolding tenth_of_second by (simp_all add: power_int_minus)
qed

lemma reserved_total: "bytes \<noteq> 0 \<Longrightarrow> total_bytes_reserved (snd (reserve l st bytes now)) = saturating_add (total_bytes_reserved st) bytes"
  by (simp add: reserve_def refill_def Let_def saturating_add_def)

lemma reservations_total:
  assumes "unat (total_bytes_reserved st) + 100 * length clock < 2 ^ 64"
  shows "unat (total_bytes_reserved (snd (reservations l st (map (\<lambda>now. (100, now)) clock))))
    = unat (total_bytes_reserved st) + 100 * length clock"
  using assms
proof (induction clock arbitrary: st)
  case (Cons now clock)
  have "unat (total_bytes_reserved (snd (reserve l st 100 now))) = unat (total_bytes_reserved st) + 100"
    using Cons.prems by (simp add: reserved_total unat_saturating_add)
  then show ?case using Cons by (simp add: case_prod_unfold Let_def)
qed simp

lemma bandwidth_tests_pass:
  "test_bandwidth_within_burst_no_delay"
  "test_bandwidth_over_burst_delays"
  "test_bandwidth_refills_over_time"
  "test_burst_cap_limits_token_accumulation"
  "test_stats_tracking"
  "length clock = 1000 \<Longrightarrow> test_concurrent_reservations_are_serialized clock"
  "test_zero_reserve_returns_zero_duration"
  "test_large_reserve_returns_proportional_wait"
  "test_bandwidth_zero_rate_returns_zero_duration"
  "test_bandwidth_negative_rate_returns_zero_duration"
proof -
  show "test_bandwidth_within_burst_no_delay"
    by (simp add: test_bandwidth_within_burst_no_delay_def bucket_simps)
  show "test_bandwidth_over_burst_delays"
    by (simp add: test_bandwidth_over_burst_delays_def bucket_simps half_second del: try_from_secs_f64.simps)
  show "test_bandwidth_refills_over_time"
    by (simp add: test_bandwidth_refills_over_time_def bucket_simps tenth_refills f64_min_def)
  show "test_burst_cap_limits_token_accumulation"
    by (simp add: test_burst_cap_limits_token_accumulation_def bucket_simps bandwidth_stats_def tenth_refills
        f64_min_def f64_max_def)
  show "test_stats_tracking"
    by (simp add: test_stats_tracking_def bucket_simps bandwidth_stats_def saturating_add_def)
  show "test_concurrent_reservations_are_serialized clock" if "length clock = 1000"
    using that reservations_total [of "snd (BandwidthLimiter_new (test_profile (Finite 1000000) 100000) 0)" clock
        "fst (BandwidthLimiter_new (test_profile (Finite 1000000) 100000) 0)"]
    by (simp add: test_concurrent_reservations_are_serialized_def BandwidthLimiter_new_def bandwidth_stats_def
        refill_def Let_def word_unat_eq_iff)
  show "test_zero_reserve_returns_zero_duration"
    by (simp add: test_zero_reserve_returns_zero_duration_def bucket_simps)
  show "test_large_reserve_returns_proportional_wait"
    by (simp add: test_large_reserve_returns_proportional_wait_def bucket_simps two_seconds del: try_from_secs_f64.simps)
  show "test_bandwidth_zero_rate_returns_zero_duration"
    by (simp add: test_bandwidth_zero_rate_returns_zero_duration_def bucket_simps)
  show "test_bandwidth_negative_rate_returns_zero_duration"
    by (simp add: test_bandwidth_negative_rate_returns_zero_duration_def bucket_simps)
qed

end
