(* ===== verification/Conformance_Services.thy ===== *)
theory Conformance_Services
  imports Sampler Events Metrics Float64_Eval
begin

text \<open>
  The unit tests of \<open>fusecraft-core/src/sampler\<close>, \<open>metrics\<close> and \<open>events\<close>, translated: every test
  is a definition that holds when its assertions hold, and a lemma says that the model passes it,
  for every generator that draws from the unit interval, every mathematical library, every
  histogram that can be constructed and keeps three figures, and every writer of JSON that puts an
  object on one line. Left out are the tests of the statistics of \<open>StdRng\<close> and those that repeat a
  pure call.
\<close>

section \<open>Keys\<close>

text \<open>
  The tests of \<open>key.rs\<close> draw a \<open>u64\<close> from the generators of two keys. That the first draws of four
  given seeds are different is a fact about \<open>StdRng\<close>; that the four keys have different seeds is a
  fact about \<open>mix\<close>.
\<close>

definition base_key :: SampleKey where
  "base_key = \<lparr>key_seed = 42, key_op = Read, key_ino = 1, key_offset = 0, key_len = 4096, key_seq = 0\<rparr>"

definition test_different_seq_different_rng :: "'r rng \<Rightarrow> ('r \<Rightarrow> u64 \<times> 'r) \<Rightarrow> bool" where
  "test_different_seq_different_rng g random \<longleftrightarrow>
     (let k1 = base_key\<lparr>key_seq := 0\<rparr>; k2 = base_key\<lparr>key_seq := 1\<rparr>;
          (v1, r1) = random (latency_rng g k1); (v2, r2) = random (latency_rng g k2)
      in v1 \<noteq> v2)"

definition test_latency_and_fault_streams_differ :: "'r rng \<Rightarrow> ('r \<Rightarrow> u64 \<times> 'r) \<Rightarrow> bool" where
  "test_latency_and_fault_streams_differ g random \<longleftrightarrow>
     (let (vl, lat) = random (latency_rng g base_key); (vf, flt) = random (fault_rng g base_key) in vl \<noteq> vf)"

definition test_different_ops_differ :: "'r rng \<Rightarrow> ('r \<Rightarrow> u64 \<times> 'r) \<Rightarrow> bool" where
  "test_different_ops_differ g random \<longleftrightarrow>
     (let k1 = base_key\<lparr>key_op := Read\<rparr>; k2 = base_key\<lparr>key_op := FsOp.Write\<rparr>;
          (v1, r1) = random (latency_rng g k1); (v2, r2) = random (latency_rng g k2)
      in v1 \<noteq> v2)"

definition test_seeds :: "u64 list" where
  "test_seeds = [mix base_key LATENCY_STREAM, mix base_key FAULT_STREAM,
     mix (base_key\<lparr>key_seq := 1\<rparr>) LATENCY_STREAM, mix (base_key\<lparr>key_op := FsOp.Write\<rparr>) LATENCY_STREAM]"

lemma test_seeds_distinct: "distinct test_seeds"
  by code_simp

lemma key_tests_pass:
  assumes "inj_on (\<lambda>seed. fst (random (seed_from_u64 g seed))) (set test_seeds)"
  shows "test_different_seq_different_rng g random" "test_latency_and_fault_streams_differ g random"
    "test_different_ops_differ g random"
proof -
  have same: "base_key\<lparr>key_seq := 0\<rparr> = base_key" "base_key\<lparr>key_op := Read\<rparr> = base_key"
    by (simp_all add: base_key_def)
  have draws: "fst (random (seed_from_u64 g a)) \<noteq> fst (random (seed_from_u64 g b))"
    if "a \<in> set test_seeds" "b \<in> set test_seeds" "a \<noteq> b" for a b
    using inj_onD [OF assms] that by blast
  show "test_different_seq_different_rng g random" "test_latency_and_fault_streams_differ g random"
    "test_different_ops_differ g random"
    using draws test_seeds_distinct
    by (simp_all add: test_different_seq_different_rng_def test_latency_and_fault_streams_differ_def
        test_different_ops_differ_def latency_rng_def fault_rng_def same case_prod_unfold Let_def test_seeds_def)
qed

section \<open>Faults\<close>

definition mk_key :: "FsOp \<Rightarrow> u64 \<Rightarrow> SampleKey" where
  "mk_key f s = \<lparr>key_seed = 42, key_op = f, key_ino = 1, key_offset = 0, key_len = 4096, key_seq = s\<rparr>"

text \<open>A loop over sequence numbers.\<close>

definition for_seqs :: "nat \<Rightarrow> (u64 \<Rightarrow> bool) \<Rightarrow> bool" where
  "for_seqs n ok = list_all (\<lambda>i. ok (of_nat i)) [0..<n]"

lemma for_seqsI: "(\<And>s. ok s) \<Longrightarrow> for_seqs n ok"
  by (simp add: for_seqs_def list_all_iff)

definition one_rule :: "FsOp \<Rightarrow> i32 \<Rightarrow> f64 \<Rightarrow> FaultRule" where
  "one_rule f errno r = \<lparr>rule_op = f, rule_errno = errno, rule_rate = r\<rparr>"

definition test_one_fault_rate_always_faults :: "'r rng \<Rightarrow> bool" where
  "test_one_fault_rate_always_faults g \<longleftrightarrow>
     for_seqs 1000 (\<lambda>s. sample_fault g [one_rule FsOp.Write ENOSPC (Finite 1)] (mk_key FsOp.Write s) = Some ENOSPC)"

definition test_zero_fault_rate_never_faults :: "'r rng \<Rightarrow> bool" where
  "test_zero_fault_rate_never_faults g \<longleftrightarrow>
     for_seqs 1000 (\<lambda>s. sample_fault g [one_rule Read EIO (Finite 0)] (mk_key Read s) = None)"

definition test_fault_respects_op_filter :: "'r rng \<Rightarrow> bool" where
  "test_fault_respects_op_filter g \<longleftrightarrow>
     for_seqs 100 (\<lambda>s. sample_fault g [one_rule Read EIO (Finite 1)] (mk_key FsOp.Write s) = None)"

definition test_no_rules_passes :: "'r rng \<Rightarrow> bool" where
  "test_no_rules_passes g \<longleftrightarrow> sample_fault g [] (mk_key Read 0) = None"

definition test_first_matching_rule_wins :: "'r rng \<Rightarrow> bool" where
  "test_first_matching_rule_wins g \<longleftrightarrow>
     for_seqs 100 (\<lambda>s. sample_fault g [one_rule Read EIO (Finite 1), one_rule Read EAGAIN (Finite 1)] (mk_key Read s)
       = Some EIO)"

lemma fault_tests_pass:
  assumes "rng_unit g"
  shows "test_one_fault_rate_always_faults g" "test_zero_fault_rate_never_faults g"
    "test_fault_respects_op_filter g" "test_no_rules_passes g" "test_first_matching_rule_wins g"
  unfolding test_one_fault_rate_always_faults_def test_zero_fault_rate_never_faults_def
    test_fault_respects_op_filter_def test_no_rules_passes_def test_first_matching_rule_wins_def
  by (auto intro!: for_seqsI simp: sample_fault_def one_rule_def mk_key_def case_prod_unfold Let_def
      rng_unitD [OF assms] draw_not_below_zero_rate [OF assms])

section \<open>Latencies\<close>

definition test_latency_sampling_respects_max :: "libm \<Rightarrow> 'r rng \<Rightarrow> bool" where
  "test_latency_sampling_respects_max m g \<longleftrightarrow>
     for_seqs 10000 (\<lambda>s. sample_latency_us m g (LatencyProfile_default\<lparr>max_us := 100, base_us := 0\<rparr>)
       \<lparr>key_seed = 1, key_op = Read, key_ino = 0, key_offset = 0, key_len = 0, key_seq = s\<rparr> \<le> 100)"

definition test_latency_sampling_respects_base :: "libm \<Rightarrow> 'r rng \<Rightarrow> bool" where
  "test_latency_sampling_respects_base m g \<longleftrightarrow>
     for_seqs 100 (\<lambda>s. sample_latency_us m g
       \<lparr>base_us = 250, lognormal_median_us = Finite 0, lognormal_sigma = Finite 0, pareto_weight = Finite 0,
        pareto_xm_us = Finite 1000, pareto_alpha = Finite (3/2), max_us = 1000000\<rparr> (mk_key Read s) = 250)"

lemma latency_tests_pass:
  "test_latency_sampling_respects_max m g" "test_latency_sampling_respects_base m g"
proof -
  show "test_latency_sampling_respects_max m g"
    unfolding test_latency_sampling_respects_max_def
    using clamp_latency_le_max [of "LatencyProfile_default\<lparr>max_us := 100, base_us := 0\<rparr>"]
    by (auto intro!: for_seqsI simp: sample_latency_us_def)
  show "test_latency_sampling_respects_base m g"
    unfolding test_latency_sampling_respects_base_def
    by (intro for_seqsI, subst sample_latency_fixed) (simp_all add: f64_lt_def)
qed

definition test_pareto_tail_fires :: "libm \<Rightarrow> 'r rng \<Rightarrow> bool" where
  "test_pareto_tail_fires m g \<longleftrightarrow>
     (let profile = \<lparr>base_us = 0, lognormal_median_us = Finite 1, lognormal_sigma = f64_of_rat False (1/100),
            pareto_weight = Finite 1, pareto_xm_us = Finite 1000, pareto_alpha = Finite (3/2), max_us = 10000000\<rparr>;
          samples = map (\<lambda>i. sample_latency_us m g profile (mk_key Read (of_nat i))) [0..<100];
          above_xm = length (filter (\<lambda>s. 1000 \<le> s) samples)
      in 90 < above_xm)"

text \<open>A power of a base of the unit interval with a positive exponent stays in the unit interval.\<close>

definition powf_unit :: "libm \<Rightarrow> bool" where
  "powf_unit m \<longleftrightarrow> (\<forall>x y. f64_lt f64_zero x \<longrightarrow> f64_le x (Finite 1) \<longrightarrow> f64_lt f64_zero y \<longrightarrow>
     (\<exists>q. f64_powf m x y = Finite q \<and> 0 \<le> q \<and> q \<le> 1))"

lemma sample_pareto_ge_scale:
  assumes "powf_unit m" "rng_unit g" "f64_lt f64_zero (f64_div (Finite 1) a)" "0 < n" "n \<le> 2 ^ 53"
  shows "f64_le (Finite (of_nat n)) (sample_pareto m g r (Finite (of_nat n)) a)"
proof -
  define u where "u = f64_max (fst (random_f64 g r)) F64_MIN_POSITIVE"
  have "f64_lt f64_zero u" "f64_le u (Finite 1)"
    using rng_unitD [OF assms(2), of r]
    by (auto simp: u_def f64_max_def F64_MIN_POSITIVE_def f64_lt_def f64_le_def split: if_splits)
  then obtain q where q: "f64_powf m u (f64_div (Finite 1) a) = Finite q" "0 \<le> q" "q \<le> 1"
    using assms(1,3) unfolding powf_unit_def by blast
  have "(of_nat n :: rat) \<le> of_nat n / q" if "0 < q" using that q(3) assms(4) by (simp add: pos_le_divide_eq)
  then have "f64_le (Finite (of_nat n)) (f64_div (Finite (of_nat n)) (Finite q))"
    using q(2) assms(4,5) f64_of_rat_mono [of "of_nat n" "of_nat n / q" False False] f64_of_rat_nat [of n]
    by (cases "q = 0") (simp_all add: f64_le_def)
  then show ?thesis by (simp add: sample_pareto_def u_def [symmetric] q(1) case_prod_unfold Let_def)
qed

lemma f64_zero_add_ge: "n \<le> 2 ^ 53 \<Longrightarrow> f64_le (Finite (of_nat n)) y \<Longrightarrow> f64_le (Finite (of_nat n)) (f64_add f64_zero y)"
  using f64_of_rat_ge_nat [of n "f64_val y"] by (cases y) (auto simp: f64_le_def f64_of_rat_def)

lemma pareto_tail_fires_passes:
  assumes "powf_unit m" "rng_unit g"
  shows "test_pareto_tail_fires m g"
proof -
  let ?p = "\<lparr>base_us = 0, lognormal_median_us = Finite 1, lognormal_sigma = f64_of_rat False (1/100),
    pareto_weight = Finite 1, pareto_xm_us = Finite 1000, pareto_alpha = Finite (3/2), max_us = 10000000\<rparr>"
  have "1000 \<le> sample_latency_us m g ?p k" for k
  proof -
    let ?r = "latency_rng g k"
    have "f64_lt f64_zero (f64_div (Finite 1) (Finite (3/2)))"
      using f64_of_rat_mono [of "1/2" "2/3" False False] f64_of_rat_half [of False]
      by (cases "f64_of_rat False (2/3)") (auto simp: f64_lt_def f64_le_def)
    then have "f64_le (Finite 1000) (sample_pareto m g (snd (random_f64 g ?r)) (Finite 1000) (Finite (3/2)))"
      using sample_pareto_ge_scale [OF assms, of "Finite (3/2)" 1000] by simp
    then have body: "f64_le (Finite 1000) (latency_body m g ?p ?r)"
      using rng_unitD [OF assms(2), of ?r] by (simp add: latency_body_def case_prod_unfold f64_lt_def)
    have "f64_le (Finite 1000) (f64_add (f64_of_u64 0) (latency_body m g ?p ?r))"
      using f64_zero_add_ge [of 1000] body f64_of_u64_exact [of 0] by simp
    then have "1000 \<le> unat (clamp_latency ?p (f64_add (f64_of_u64 0) (latency_body m g ?p ?r)))"
      using clamp_latency_ge [of 1000 ?p] by simp
    then show ?thesis by (simp add: sample_latency_us_def word_le_nat_alt)
  qed
  then show ?thesis by (simp add: test_pareto_tail_fires_def Let_def)
qed

section \<open>Metrics\<close>

text \<open>\<open>record\<close> calls on a new recorder, then a condition on the summary.\<close>

definition summarized :: "'h hdr \<Rightarrow> sample list \<Rightarrow> (OpSummary list \<Rightarrow> bool) \<Rightarrow> bool" where
  "summarized h samples ok = (case record_all h HistogramRecorder_new samples of
     Panics \<Rightarrow> False | Returns m \<Rightarrow> ok (summary h m))"

definition test_summary_empty_when_no_records :: "'h hdr \<Rightarrow> bool" where
  "test_summary_empty_when_no_records h \<longleftrightarrow> summarized h [] (\<lambda>summary. summary = [])"

definition test_records_ok_and_error_separately :: "'h hdr \<Rightarrow> bool" where
  "test_records_ok_and_error_separately h \<longleftrightarrow>
     summarized h [(Read, 100, False), (Read, 200, False), (Read, 300, True)] (\<lambda>summary.
       summary \<noteq> [] \<and> sum_op (summary ! 0) = Read \<and> sum_count (summary ! 0) = 3 \<and> sum_errors (summary ! 0) = 1)"

definition test_summary_skips_ops_without_records :: "'h hdr \<Rightarrow> bool" where
  "test_summary_skips_ops_without_records h \<longleftrightarrow>
     summarized h [(Read, 100, False)] (\<lambda>summary. length summary = 1 \<and> sum_op (summary ! 0) = Read)"

definition test_summary_ordered_by_fsop_all :: "'h hdr \<Rightarrow> bool" where
  "test_summary_ordered_by_fsop_all h \<longleftrightarrow>
     summarized h [(FsOp.Write, 500, False), (Read, 100, False), (Open, 10, False)] (\<lambda>summary.
       map sum_op summary = [Open, Read, FsOp.Write])"

lemma metrics_tests_pass:
  assumes "hdr_new h HIST_LOW HIST_HIGH HIST_SIGFIG \<noteq> None"
  shows "test_summary_empty_when_no_records h" "test_records_ok_and_error_separately h"
    "test_summary_skips_ops_without_records h" "test_summary_ordered_by_fsop_all h"
  using assms
  unfolding test_summary_empty_when_no_records_def test_records_ok_and_error_separately_def
    test_summary_skips_ops_without_records_def test_summary_ordered_by_fsop_all_def
  by (auto simp: summarized_def record_op_def op_entry_def HistogramRecorder_new_def summary_def summary_of_def
      FsOp_ALL_def Let_def)

text \<open>
  A histogram with three significant figures: the value it reports for a percentile is the sample
  of that rank up to one part in a thousand.
\<close>

definition three_figures :: "'h hdr \<Rightarrow> 'h \<Rightarrow> bool" where
  "three_figures h hist0 \<longleftrightarrow> (\<forall>vs percent. vs \<noteq> [] \<longrightarrow> (\<forall>v\<in>set vs. HIST_LOW \<le> v \<and> v \<le> HIST_HIGH) \<longrightarrow>
     0 < percent \<longrightarrow> percent \<le> 100 \<longrightarrow>
     (let exact = unat (sort vs ! (nat \<lceil>percent / 100 * of_nat (length vs)\<rceil> - 1));
          reported = unat (value_at_percentile h (foldl (hdr_record h) hist0 vs) (f64_of_rat False percent))
      in exact \<le> reported \<and> reported \<le> exact + exact div 1000))"

definition test_percentiles_are_reasonable :: "'h hdr \<Rightarrow> bool" where
  "test_percentiles_are_reasonable h \<longleftrightarrow>
     summarized h (map (\<lambda>i. (Read, of_nat i, False)) [1..<1001]) (\<lambda>summary. summary \<noteq> [] \<and>
       (let s = summary ! 0 in 450 \<le> p50_us s \<and> p50_us s \<le> 550 \<and> 900 \<le> p95_us s \<and> p95_us s \<le> 1000
         \<and> 950 \<le> p99_us s \<and> p99_us s \<le> 1010))"

definition test_clamps_values_outside_range :: "'h hdr \<Rightarrow> bool" where
  "test_clamps_values_outside_range h \<longleftrightarrow>
     summarized h [(Read, 0, False), (Read, HIST_HIGH * 10, False)] (\<lambda>summary. summary \<noteq> [] \<and>
       (let s = summary ! 0 in HIST_LOW \<le> p50_us s \<and> p999_us s \<le> HIST_HIGH + HIST_HIGH div 1000))"

definition test_records_multiple_ops_independently :: "'h hdr \<Rightarrow> bool" where
  "test_records_multiple_ops_independently h \<longleftrightarrow>
     summarized h [(Read, 100, False), (FsOp.Write, 500, False)] (\<lambda>summary. length summary = 2 \<and>
       (case (find (\<lambda>s. sum_op s = Read) summary, find (\<lambda>s. sum_op s = FsOp.Write) summary) of
          (Some read, Some write) \<Rightarrow> p50_us read < p50_us write | _ \<Rightarrow> False))"

lemma percentile_near:
  assumes "three_figures h hist0" "vs \<noteq> []" "\<forall>v\<in>set vs. HIST_LOW \<le> v \<and> v \<le> HIST_HIGH" "0 < percent" "percent \<le> 100"
    and "percent / 100 * of_nat (length vs) \<le> of_nat rank" "of_nat rank < percent / 100 * of_nat (length vs) + 1"
    and "exact = unat (sort vs ! (rank - 1))"
  shows "exact \<le> unat (value_at_percentile h (foldl (hdr_record h) hist0 vs) (f64_of_rat False percent))"
    "unat (value_at_percentile h (foldl (hdr_record h) hist0 vs) (f64_of_rat False percent)) \<le> exact + exact div 1000"
proof -
  have "\<lceil>percent / 100 * of_nat (length vs)\<rceil> = int rank"
    using assms(6,7) by (intro ceiling_unique) simp_all
  then have rank: "nat \<lceil>percent / 100 * of_nat (length vs)\<rceil> = rank" by simp
  show "exact \<le> unat (value_at_percentile h (foldl (hdr_record h) hist0 vs) (f64_of_rat False percent))"
    "unat (value_at_percentile h (foldl (hdr_record h) hist0 vs) (f64_of_rat False percent)) \<le> exact + exact div 1000"
    using assms(1) [unfolded three_figures_def Let_def, THEN spec, THEN spec, THEN mp, OF assms(2), THEN mp, OF assms(3),
        THEN mp, OF assms(4), THEN mp, OF assms(5)]
    unfolding rank assms(8) by blast+
qed

lemma clamp_duration_id: "HIST_LOW \<le> v \<Longrightarrow> v \<le> HIST_HIGH \<Longrightarrow> clamp_duration v = v"
  by (auto simp: clamp_duration_def not_less)

lemma summarized_iff:
  assumes "hdr_new h HIST_LOW HIST_HIGH HIST_SIGFIG = Some hist0"
  shows "summarized h samples ok \<longleftrightarrow> ok (List.map_filter (\<lambda>f. if samples_of f samples = [] then None else
     summary_of h (\<lambda>_. Some \<lparr>count_ok = of_nat (length (filter (\<lambda>(_, _, err). \<not> err) (samples_of f samples))),
      count_err = of_nat (length (filter (\<lambda>(_, _, err). err) (samples_of f samples))),
      histo = foldl (hdr_record h) hist0 (map (\<lambda>(_, us, _). clamp_duration us) (samples_of f samples))\<rparr>) f) FsOp_ALL)"
proof -
  obtain m where m: "record_all h HistogramRecorder_new samples = Returns m"
    using metrics_count_samples [OF assms, of samples] by blast
  have "summary_of h m = (\<lambda>f. if samples_of f samples = [] then None else
     summary_of h (\<lambda>_. Some \<lparr>count_ok = of_nat (length (filter (\<lambda>(_, _, err). \<not> err) (samples_of f samples))),
      count_err = of_nat (length (filter (\<lambda>(_, _, err). err) (samples_of f samples))),
      histo = foldl (hdr_record h) hist0 (map (\<lambda>(_, us, _). clamp_duration us) (samples_of f samples))\<rparr>) f)"
    using recorded_entry [OF assms m] by (auto simp: fun_eq_iff summary_of_def)
  then show ?thesis by (simp add: summarized_def m summary_def)
qed

lemma percentiles_are_reasonable_passes:
  assumes "hdr_new h HIST_LOW HIST_HIGH HIST_SIGFIG = Some hist0" "three_figures h hist0"
  shows "test_percentiles_are_reasonable h"
proof -
  define vs :: "u64 list" where "vs = map of_nat [1..<1001]"
  have unat: "unat (of_nat i :: u64) = i" if "i \<in> set [1..<1001]" for i
    using that by (simp add: unat_of_nat)
  have len: "length vs = 1000" by (simp add: vs_def)
  have "sorted vs"
    unfolding vs_def sorted_map
    by (rule sorted_wrt_mono_rel [OF _ sorted_upt]) (simp add: word_le_nat_alt unat)
  then have nth: "unat (sort vs ! k) = k + 1" if "k < 1000" for k
    using that unat [of "k + 1"] by (simp add: vs_def sorted_sort_id)
  have range: "\<forall>v\<in>set vs. HIST_LOW \<le> v \<and> v \<le> HIST_HIGH"
    using unat by (auto simp: vs_def HIST_LOW_def HIST_HIGH_def word_le_nat_alt)
  let ?v = "\<lambda>p. value_at_percentile h (foldl (hdr_record h) hist0 vs) (f64_of_rat False p)"
  have "vs \<noteq> []" using len by auto
  note near = percentile_near [OF assms(2) this range, unfolded len]
  have p: "unat (?v 50) \<in> {500..500}" "unat (?v 95) \<in> {950..950}" "unat (?v 99) \<in> {990..990}"
    using near [of 50 500 500] near [of 95 950 950] near [of 99 990 990] nth by simp_all
  define calls :: "sample list" where "calls = map (\<lambda>i. (Read, of_nat i, False)) [1..<1001]"
  have "map clamp_duration vs = vs" using range by (intro map_idI clamp_duration_id) auto
  then have "map (\<lambda>(_, us, _). clamp_duration us) calls = vs" by (simp add: calls_def vs_def comp_def)
  moreover have "samples_of f calls = (if f = Read then calls else [])" for f
    by (simp add: calls_def samples_of_def filter_map comp_def)
  moreover have "filter (\<lambda>(_, _, err). \<not> err) calls = calls" "filter (\<lambda>(_, _, err). err) calls = []" "length calls = 1000"
    by (simp_all add: calls_def filter_map comp_def)
  moreover from this(3) have "calls \<noteq> []" by auto
  ultimately show ?thesis
    unfolding test_percentiles_are_reasonable_def calls_def [symmetric] summarized_iff [OF assms(1)]
    using p by (simp add: FsOp_ALL_def summary_of_def f64_of_rat_numeral Let_def word_le_nat_alt)
qed

lemma clamps_values_outside_range_passes:
  assumes "hdr_new h HIST_LOW HIST_HIGH HIST_SIGFIG = Some hist0" "three_figures h hist0"
  shows "test_clamps_values_outside_range h"
proof -
  have vs: "clamp_duration 0 = HIST_LOW" "clamp_duration (HIST_HIGH * 10) = HIST_HIGH"
    by (simp_all add: clamp_duration_def HIST_LOW_def HIST_HIGH_def word_less_nat_alt word_le_nat_alt)
  let ?v = "\<lambda>p. value_at_percentile h (foldl (hdr_record h) hist0 [HIST_LOW, HIST_HIGH]) (f64_of_rat False p)"
  have sort: "sort [HIST_LOW, HIST_HIGH] = [HIST_LOW, HIST_HIGH]" "HIST_LOW \<le> HIST_HIGH"
    by (simp_all add: HIST_LOW_def HIST_HIGH_def)
  have "unat HIST_LOW \<le> unat (?v 50)"
    by (rule percentile_near(1) [OF assms(2), where rank = 1]) (simp_all add: sort)
  moreover have "unat (?v (999/10)) \<le> unat HIST_HIGH + unat HIST_HIGH div 1000"
    by (rule percentile_near(2) [OF assms(2), where rank = 2]) (simp_all add: sort)
  then have "unat (?v (999/10)) \<le> unat (HIST_HIGH + HIST_HIGH div 1000)" by (simp add: HIST_HIGH_def)
  ultimately show ?thesis
    by (simp add: test_clamps_values_outside_range_def summarized_iff [OF assms(1)] FsOp_ALL_def samples_of_def
        summary_of_def f64_of_rat_numeral vs word_le_nat_alt)
qed

lemma records_multiple_ops_independently_passes:
  assumes "hdr_new h HIST_LOW HIST_HIGH HIST_SIGFIG = Some hist0" "three_figures h hist0"
  shows "test_records_multiple_ops_independently h"
proof -
  let ?v = "\<lambda>x. value_at_percentile h (hdr_record h hist0 x) (f64_of_rat False 50)"
  have near: "unat v \<le> unat (?v v)" "unat (?v v) \<le> unat v + unat v div 1000" if "HIST_LOW \<le> v" "v \<le> HIST_HIGH" for v
    using percentile_near [OF assms(2), of "[v]" 50 1 "unat v"] that by simp_all
  have "?v 100 < ?v 500"
    using near [of 100] near [of 500] by (simp add: word_less_nat_alt HIST_LOW_def HIST_HIGH_def)
  moreover have "clamp_duration 100 = 100" "clamp_duration 500 = 500"
    by (simp_all add: clamp_duration_def HIST_LOW_def HIST_HIGH_def word_less_nat_alt word_le_nat_alt)
  ultimately show ?thesis
    by (simp add: test_records_multiple_ops_independently_def summarized_iff [OF assms(1)] FsOp_ALL_def samples_of_def
        summary_of_def f64_of_rat_numeral)
qed

section \<open>Events\<close>

definition test_event :: "u64 \<Rightarrow> Outcome \<Rightarrow> i32 option \<Rightarrow> Event" where
  "test_event s outcome errno =
     \<lparr>ts_unix_nanos = 1700000000000000000, ev_seq = s, ev_op = Read, ev_ino = 100, ev_offset = 0, ev_len = 4096,
      ev_outcome = outcome, ev_errno = errno, ev_queue_wait_us = 1, ev_injected_latency_us = 42,
      ev_bandwidth_delay_us = 3, ev_total_duration_us = 50\<rparr>"

text \<open>\<open>str::lines\<close> on text whose lines end in a newline.\<close>

fun text_lines :: "string \<Rightarrow> string \<Rightarrow> string list" where
  "text_lines acc [] = (if acc = [] then [] else [acc])"
| "text_lines acc (c # s) = (if c = CHR 0x0A then acc # text_lines [] s else text_lines (acc @ [c]) s)"

text \<open>A writer of JSON that succeeds and puts an object on one line, as \<open>serde_json::to_string\<close> does.\<close>

definition one_line :: "((string \<times> json) list \<Rightarrow> string option) \<Rightarrow> bool" where
  "one_line to_json \<longleftrightarrow> (\<forall>fs. \<exists>text. to_json fs = Some text \<and> CHR 0x0A \<notin> set text)"

text \<open>
  The events emitted and flushed to a file that held \<open>previous\<close>; each line must be the text of
  an object with the named fields.
\<close>

definition logged :: "((string \<times> json) list \<Rightarrow> string option) \<Rightarrow> string \<Rightarrow> Event list \<Rightarrow> string" where
  "logged to_json previous evs =
     jsonl_file (jsonl_flush (foldl (jsonl_emit to_json None) (JsonlEventSink_create previous) evs))"

definition line_is :: "((string \<times> json) list \<Rightarrow> string option) \<Rightarrow> string \<Rightarrow> (string \<times> json) list \<Rightarrow> bool" where
  "line_is to_json line fs \<longleftrightarrow> to_json fs = Some line"

definition test_null_sink_accepts_events :: "'s \<Rightarrow> bool" where
  "test_null_sink_accepts_events s \<longleftrightarrow> null_emit s (test_event 1 Outcome_Ok None) = s"

definition test_jsonl_sink_writes_one_line_per_event :: "((string \<times> json) list \<Rightarrow> string option) \<Rightarrow> bool" where
  "test_jsonl_sink_writes_one_line_per_event to_json \<longleftrightarrow>
     (let e1 = test_event 1 Outcome_Ok None; e2 = test_event 2 Outcome_Error (Some EIO);
          contents = logged to_json [] [e1, e2]; v1 = map_of (event_fields e1); v2 = map_of (event_fields e2)
      in (case text_lines [] contents of
            [line1, line2] \<Rightarrow> line_is to_json line1 (event_fields e1) \<and> line_is to_json line2 (event_fields e2)
          | _ \<Rightarrow> False)
        \<and> v1 ''seq'' = Some (JNum 1) \<and> v1 ''op'' = Some (JStr ''read'') \<and> v1 ''outcome'' = Some (JStr ''ok'')
        \<and> v1 ''errno'' = None
        \<and> v2 ''seq'' = Some (JNum 2) \<and> v2 ''outcome'' = Some (JStr ''error'') \<and> v2 ''errno'' = Some (JNum EIO))"

definition test_jsonl_sink_truncates_on_create :: "((string \<times> json) list \<Rightarrow> string option) \<Rightarrow> bool" where
  "test_jsonl_sink_truncates_on_create to_json \<longleftrightarrow>
     (let first = logged to_json [] [test_event 1 Outcome_Ok None];
          e = test_event 99 Outcome_Ok None;
          contents = logged to_json first [e]
      in (case text_lines [] contents of [line] \<Rightarrow> line_is to_json line (event_fields e) | _ \<Rightarrow> False)
        \<and> map_of (event_fields e) ''seq'' = Some (JNum 99))"

definition test_now_unix_nanos_is_positive :: "system_time \<Rightarrow> bool" where
  "test_now_unix_nanos_is_positive now \<longleftrightarrow> 0 < now_unix_nanos now"

lemma text_lines_line: "CHR 0x0A \<notin> set s \<Longrightarrow> text_lines acc (s @ CHR 0x0A # rest) = (acc @ s) # text_lines [] rest"
  by (induction s arbitrary: acc) auto

lemma logged_eq: "logged to_json previous evs = concat (map (jsonl_line to_json) evs)"
  by (simp add: logged_def jsonl_log_text jsonl_text_def)

lemma event_tests_pass:
  assumes "one_line to_json"
  shows "test_null_sink_accepts_events s" "test_jsonl_sink_writes_one_line_per_event to_json"
    "test_jsonl_sink_truncates_on_create to_json"
    "0 < now \<Longrightarrow> now < 2 ^ 128 \<Longrightarrow> test_now_unix_nanos_is_positive now"
proof -
  have line: "\<exists>text. to_json fs = Some text \<and> CHR 0x0A \<notin> set text" for fs
    using assms by (simp add: one_line_def)
  show "test_null_sink_accepts_events s" by (simp add: test_null_sink_accepts_events_def null_emit_def)
  let ?e1 = "test_event 1 Outcome_Ok None" and ?e2 = "test_event 2 Outcome_Error (Some EIO)"
  obtain t1 t2 where t: "to_json (event_fields ?e1) = Some t1" "to_json (event_fields ?e2) = Some t2"
    "CHR 0x0A \<notin> set t1" "CHR 0x0A \<notin> set t2" using line by metis
  have "text_lines [] (logged to_json [] [?e1, ?e2]) = [t1, t2]"
    using t by (simp add: logged_eq jsonl_line_def text_lines_line)
  then show "test_jsonl_sink_writes_one_line_per_event to_json"
    using t by (simp add: test_jsonl_sink_writes_one_line_per_event_def Let_def line_is_def)
      (simp add: event_fields_def test_event_def flip: as_str_serde_name)
  let ?e = "test_event 99 Outcome_Ok None"
  obtain u where u: "to_json (event_fields ?e) = Some u" "CHR 0x0A \<notin> set u" using line by metis
  have "text_lines [] (logged to_json previous [?e]) = [u]" for previous
    using u by (simp add: logged_eq jsonl_line_def text_lines_line)
  then show "test_jsonl_sink_truncates_on_create to_json"
    using u by (simp add: test_jsonl_sink_truncates_on_create_def Let_def line_is_def)
      (simp add: event_fields_def test_event_def)
  show "test_now_unix_nanos_is_positive now" if "0 < now" "now < 2 ^ 128"
    using that zdvd_not_zless [of now "2 ^ 128"]
    by (simp add: test_now_unix_nanos_is_positive_def now_unix_nanos_def word_gt_0 word_of_int_eq_0_iff)
qed

end
