(* ===== verification/Conformance_Engine.thy ===== *)
theory Conformance_Engine
  imports Engine Float64_Eval "HOL-Library.AList"
begin

text \<open>
  The unit tests of \<open>fusecraft-core/src/engine/mod.rs\<close>, translated: every test is a definition
  that holds when its assertions hold, and a lemma says that the model passes it, for every
  generator that draws from the unit interval, every mathematical library, every histogram that
  can be constructed, and all readings of the clocks. A test that measures the elapsed time is a
  condition on the time \<open>run_op\<close> sleeps, \<open>sleep_time\<close>; the one that lets two threads meet says
  that the second waits while the first holds the slot.
\<close>

section \<open>Set-up\<close>

definition fixed_latency_profile :: "u64 \<Rightarrow> LatencyProfile" where
  "fixed_latency_profile us =
     \<lparr>base_us = us, lognormal_median_us = Finite 0, lognormal_sigma = Finite 0, pareto_weight = Finite 0,
      pareto_xm_us = Finite 1, pareto_alpha = Finite (3/2), max_us = max us 1000000\<rparr>"

definition zero_latency_policy :: OpPolicy where
  "zero_latency_policy =
     \<lparr>concurrency_cap = 4, queue_cap = 16,
      latency = \<lparr>base_us = 0, lognormal_median_us = Finite 0, lognormal_sigma = Finite 0, pareto_weight = Finite 0,
        pareto_xm_us = Finite 1, pareto_alpha = Finite (3/2), max_us = 1000000\<rparr>,
      bandwidth = None, faults = [], size_tier = None\<rparr>"

definition config_with :: "FsOp \<Rightarrow> OpPolicy \<Rightarrow> Config" where
  "config_with f p = Config_default\<lparr>cfg_ops := AList.update f p (cfg_ops Config_default)\<rparr>"

definition always :: "FsOp \<Rightarrow> i32 \<Rightarrow> FaultRule list" where
  "always f errno = [\<lparr>rule_op = f, rule_errno = errno, rule_rate = Finite 1\<rparr>]"

definition large_tier :: "u64 \<Rightarrow> LatencyProfile \<Rightarrow> FaultRule list \<Rightarrow> SizeTier" where
  "large_tier bytes l fs = \<lparr>threshold_bytes = bytes,
     tier_large = \<lparr>large_latency = l, large_bandwidth = None, large_faults = fs\<rparr>\<rparr>"

text \<open>The sink of the tests collects the events in a list.\<close>

definition collecting :: "Event list event_sink" where "collecting evs e = evs @ [e]"

text \<open>What the tests rely on in the parameters.\<close>

definition sound_env :: "('r, 's, 'h) engine_env \<Rightarrow> bool" where
  "sound_env env \<longleftrightarrow> rng_unit (env_rng env) \<and> histogram_constructs (env_hdr env)"

text \<open>The argument of \<open>thread::sleep\<close> in \<open>run_op\<close>.\<close>

definition sleep_time ::
    "('r, 's, 'h) engine_env \<Rightarrow> ('s, 'h) SimEngine \<Rightarrow> OpContext \<Rightarrow> readings \<Rightarrow> duration may_panic" where
  "sleep_time env eng ctx t = (case eng_resources eng (ctx_op ctx) of None \<Rightarrow> Panics
     | Some res \<Rightarrow>
         let ((_, latency_us, delay), _) = op_sample env eng res ctx (eng_seq eng) (t_reserve t)
         in duration_add (from_micros latency_us) delay)"

definition sleeps :: "('r, 's, 'h) engine_env \<Rightarrow> ('s, 'h) SimEngine \<Rightarrow> OpContext \<Rightarrow> readings \<Rightarrow> (duration \<Rightarrow> bool) \<Rightarrow> bool" where
  "sleeps env eng ctx t ok = (case sleep_time env eng ctx t of Panics \<Rightarrow> False | Returns d \<Rightarrow> ok d)"

definition millis :: "nat \<Rightarrow> duration" where "millis n = n * 1000000"

text \<open>A closure that returns a value and touches nothing.\<close>

definition returning :: "'a \<Rightarrow> (unit, 'a) body" where "returning x w = (Returns (Ok x), w)"

text \<open>\<open>engine.run_op(ctx, || Ok(x))\<close>: its result, and the engine afterwards.\<close>

definition result_of ::
    "('r, 's, 'h) engine_env \<Rightarrow> ('s, 'h) SimEngine \<Rightarrow> OpContext \<Rightarrow> 'a \<Rightarrow> readings \<Rightarrow> 'a op_outcome" where
  "result_of env eng ctx x t = fst (run_op env eng ctx (returning x) () t)"

definition engine_after ::
    "('r, 's, 'h) engine_env \<Rightarrow> ('s, 'h) SimEngine \<Rightarrow> OpContext \<Rightarrow> 'a \<Rightarrow> readings \<Rightarrow> ('s, 'h) SimEngine" where
  "engine_after env eng ctx x t = fst (snd (run_op env eng ctx (returning x) () t))"

section \<open>An operation without throttling\<close>

lemma policy_for_config_with [simp]: "policy_for (config_with f p) f = p"
  by (simp add: policy_for_def config_with_def Config_default_def)

lemma quick_op:
  assumes "engine_of config eng" "admitted eng ctx" "\<not> throttled (policy_for config (ctx_op ctx)) ctx"
    and "histogram_constructs (env_hdr env)" "body w = (Returns r, w1)"
  obtains eng' where
    "run_op env eng ctx body w t = (case decided_fault (env_rng env) config ctx (eng_seq eng) of
       Some errno \<Rightarrow> (Finished (Err (Errno errno)), eng', w) | None \<Rightarrow> (Finished r, eng', w1))"
    "engine_of config eng'" "eng_seq eng' = eng_seq eng + 1" "occupancy eng' = occupancy eng"
    "logged_once env eng eng' ctx (eng_seq eng)
       (case decided_fault (env_rng env) config ctx (eng_seq eng) of Some errno \<Rightarrow> Err (Errno errno) | None \<Rightarrow> r)
       (decided_latency (env_libm env) (env_rng env) config ctx (eng_seq eng))"
proof -
  obtain out eng' w' where run: "run_op env eng ctx body w t = (out, eng', w')" by (metis prod.exhaust)
  have "out \<noteq> Waits" using run_op_waits_iff [OF assms(1,2), of env body w t] run by simp
  moreover have "out \<noteq> Op_panics"
    using run_op_panicked [OF assms(1,4), of ctx body w t eng' w'] run assms(3,5) by auto
  ultimately obtain x where x: "out = Finished x" by (cases out) auto
  have e: "engine_of config eng'" using engine_of_run_op [OF assms(1), of env ctx body w t] run by simp
  from run_op_finished [OF assms(1) run [unfolded x]] assms(2,5) show thesis
    by (intro that [of eng'])
      (use run x e in \<open>auto split: option.splits\<close>)
qed

lemma sleep_unthrottled:
  assumes "engine_of config eng" "\<not> throttled (policy_for config (ctx_op ctx)) ctx"
  shows "sleeps env eng ctx t ok
    \<longleftrightarrow> ok (from_micros (decided_latency (env_libm env) (env_rng env) config ctx (eng_seq eng)))"
proof -
  obtain res where res: "eng_resources eng (ctx_op ctx) = Some res" "resources_of (policy_for config (ctx_op ctx)) res"
    by (rule engine_ofE [OF assms(1)])
  have "duration_add (from_micros us) 0 = Returns (from_micros us)" for us
    using from_micros_le_MAX [of us] by (simp add: duration_add_def)
  then show ?thesis
    using op_sample_decides(2) [OF assms(1) res(1), of env "eng_seq eng" "t_reserve t"]
      op_sample_delay [OF res(2) assms(2), of env eng "eng_seq eng" "t_reserve t"]
    by (simp add: sleeps_def sleep_time_def res(1) case_prod_unfold Let_def)
qed

lemma fixed_latency:
  "us \<le> 1000000 \<Longrightarrow> sample_latency_us m g (fixed_latency_profile us) k = us"
proof -
  assume "us \<le> 1000000"
  then have "unat us \<le> 1000000" by (simp add: word_le_nat_alt)
  then show ?thesis
    by (intro sample_latency_fixed [THEN trans]) (simp_all add: fixed_latency_profile_def f64_lt_def)
qed

lemma zero_latency: "sample_latency_us m g (latency zero_latency_policy) k = 0"
  by (subst sample_latency_fixed) (simp_all add: zero_latency_policy_def f64_lt_def)

lemma always_fires:
  "rng_unit g \<Longrightarrow> key_op k = f \<Longrightarrow> sample_fault g (always f errno) k = Some errno"
  by (simp add: sample_fault_def always_def case_prod_unfold Let_def rng_unitD)

lemma no_rules: "sample_fault g [] k = None"
  by (simp add: sample_fault_def)

section \<open>Tests of the lifecycle\<close>

text \<open>The engine of a test: one policy, without events or with the collecting sink.\<close>

definition silent :: "FsOp \<Rightarrow> OpPolicy \<Rightarrow> (FsOp \<Rightarrow> tier_ref \<Rightarrow> instant) \<Rightarrow> (unit, 'h) SimEngine" where
  "silent f p now = SimEngine_new_without_events (config_with f p) now"

definition observed :: "FsOp \<Rightarrow> OpPolicy \<Rightarrow> (FsOp \<Rightarrow> tier_ref \<Rightarrow> instant) \<Rightarrow> (Event list, 'h) SimEngine" where
  "observed f p now = SimEngine_new (config_with f p) [] now"

definition test_zero_latency_runs_closure_and_returns_value ::
    "('r, unit, 'h) engine_env \<Rightarrow> (FsOp \<Rightarrow> tier_ref \<Rightarrow> instant) \<Rightarrow> readings \<Rightarrow> bool" where
  "test_zero_latency_runs_closure_and_returns_value env now t \<longleftrightarrow>
     result_of env (silent Read zero_latency_policy now) (OpContext_data Read 100 0 4096) (7 :: u32) t = Finished (Ok 7)"

text \<open>The world of the closure is the flag \<open>ran\<close>.\<close>

definition test_injected_error_skips_closure ::
    "('r, unit, 'h) engine_env \<Rightarrow> (FsOp \<Rightarrow> tier_ref \<Rightarrow> instant) \<Rightarrow> readings \<Rightarrow> bool" where
  "test_injected_error_skips_closure env now t \<longleftrightarrow>
     (let (out, _, ran) = run_op env (silent Read (zero_latency_policy\<lparr>faults := always Read EIO\<rparr>) now)
        (OpContext_data Read 100 0 4096) (\<lambda>ran. (Returns (Ok ()), True)) False t
      in out = Finished (Err (Errno EIO)) \<and> \<not> ran)"

definition test_event_is_emitted_for_success ::
    "('r, Event list, 'h) engine_env \<Rightarrow> (FsOp \<Rightarrow> tier_ref \<Rightarrow> instant) \<Rightarrow> readings \<Rightarrow> bool" where
  "test_event_is_emitted_for_success env now t \<longleftrightarrow>
     (let eng = observed Read zero_latency_policy now; ctx = OpContext_data Read 42 0 128
      in result_of env eng ctx () t = Finished (Ok ())
        \<and> (case eng_sink (engine_after env eng ctx () t) of
             [e] \<Rightarrow> ev_op e = Read \<and> ev_ino e = 42 \<and> ev_len e = 128 \<and> ev_outcome e = Outcome_Ok \<and> ev_errno e = None
           | _ \<Rightarrow> False))"

definition test_event_is_emitted_for_injected_error ::
    "('r, Event list, 'h) engine_env \<Rightarrow> (FsOp \<Rightarrow> tier_ref \<Rightarrow> instant) \<Rightarrow> readings \<Rightarrow> bool" where
  "test_event_is_emitted_for_injected_error env now t \<longleftrightarrow>
     (let eng = observed FsOp.Write (zero_latency_policy\<lparr>faults := always FsOp.Write ENOSPC\<rparr>) now
      in case eng_sink (engine_after env eng (OpContext_data FsOp.Write 1 0 16) () t) of
           [e] \<Rightarrow> ev_outcome e = Outcome_Error \<and> ev_errno e = Some ENOSPC
         | _ \<Rightarrow> False)"

text \<open>Operations one after the other on one engine, each with its readings, and their results.\<close>

fun repeated ::
    "('r, 's, 'h) engine_env \<Rightarrow> ('s, 'h) SimEngine \<Rightarrow> OpContext \<Rightarrow> readings list \<Rightarrow> unit op_outcome list \<times> ('s, 'h) SimEngine" where
  "repeated env eng ctx [] = ([], eng)"
| "repeated env eng ctx (t # ts) =
     (let (outs, eng1) = repeated env (engine_after env eng ctx () t) ctx ts
      in (result_of env eng ctx () t # outs, eng1))"

definition test_limiter_releases_after_injected_error ::
    "('r, unit, 'h) engine_env \<Rightarrow> (FsOp \<Rightarrow> tier_ref \<Rightarrow> instant) \<Rightarrow> readings list \<Rightarrow> bool" where
  "test_limiter_releases_after_injected_error env now ts \<longleftrightarrow>
     (let policy = zero_latency_policy\<lparr>concurrency_cap := 1, OpPolicy.queue_cap := 0, faults := always Read EIO\<rparr>
      in fst (repeated env (silent Read policy now) (OpContext_data Read 1 0 0) ts)
        = replicate (length ts) (Finished (Err (Errno EIO))))"

definition test_latency_injection_blocks_caller ::
    "('r, unit, 'h) engine_env \<Rightarrow> (FsOp \<Rightarrow> tier_ref \<Rightarrow> instant) \<Rightarrow> readings \<Rightarrow> bool" where
  "test_latency_injection_blocks_caller env now t \<longleftrightarrow>
     (let eng = silent Open (zero_latency_policy\<lparr>latency := (latency zero_latency_policy)\<lparr>base_us := 20000\<rparr>\<rparr>) now;
          ctx = OpContext_metadata Open 1
      in result_of env eng ctx () t = Finished (Ok ()) \<and> sleeps env eng ctx t (\<lambda>d. millis 15 \<le> d))"

definition test_seq_increments_monotonically ::
    "('r, Event list, 'h) engine_env \<Rightarrow> (FsOp \<Rightarrow> tier_ref \<Rightarrow> instant) \<Rightarrow> readings list \<Rightarrow> bool" where
  "test_seq_increments_monotonically env now ts \<longleftrightarrow>
     (let (outs, eng) = repeated env (observed GetAttr zero_latency_policy now) (OpContext_metadata GetAttr 1) ts
      in outs = replicate (length ts) (Finished (Ok ())) \<and> map ev_seq (eng_sink eng) = [0, 1, 2, 3, 4])"

definition test_bandwidth_only_applies_to_read_write ::
    "('r, unit, 'h) engine_env \<Rightarrow> (FsOp \<Rightarrow> tier_ref \<Rightarrow> instant) \<Rightarrow> readings \<Rightarrow> bool" where
  "test_bandwidth_only_applies_to_read_write env now t \<longleftrightarrow>
     (let eng = silent Open (zero_latency_policy\<lparr>bandwidth := Some \<lparr>bytes_per_sec = Finite 1, burst_bytes = 0\<rparr>\<rparr>) now;
          ctx = OpContext_data Open 1 0 1000000
      in result_of env eng ctx () t = Finished (Ok ()) \<and> sleeps env eng ctx t (\<lambda>d. d < millis 500))"

definition test_metrics_record_per_op ::
    "('r, unit, 'h) engine_env \<Rightarrow> (FsOp \<Rightarrow> tier_ref \<Rightarrow> instant) \<Rightarrow> readings list \<Rightarrow> bool" where
  "test_metrics_record_per_op env now ts \<longleftrightarrow>
     (let (outs, eng) = repeated env (silent Read zero_latency_policy now) (OpContext_data Read 1 0 128) ts
      in outs = replicate (length ts) (Finished (Ok ()))
        \<and> (case find (\<lambda>s. sum_op s = Read) (summary (env_hdr env) (engine_metrics eng)) of None \<Rightarrow> False
           | Some s \<Rightarrow> sum_count s = 10 \<and> sum_errors s = 0))"

definition test_limiter_rejection_is_recorded_as_error ::
    "('r, Event list, 'h) engine_env \<Rightarrow> (FsOp \<Rightarrow> tier_ref \<Rightarrow> instant) \<Rightarrow> readings \<Rightarrow> bool" where
  "test_limiter_rejection_is_recorded_as_error env now t \<longleftrightarrow>
     (let eng = observed Read (zero_latency_policy\<lparr>concurrency_cap := 0, OpPolicy.queue_cap := 0\<rparr>) now;
          ctx = OpContext_data Read 1 0 0
      in result_of env eng ctx () t = Finished (Err (Errno EAGAIN))
        \<and> (case eng_sink (engine_after env eng ctx () t) of
             [e] \<Rightarrow> ev_outcome e = Outcome_Error \<and> ev_errno e = Some EAGAIN | _ \<Rightarrow> False))"

lemma engines_of:
  "engine_of (config_with f p) (silent f p now)" "engine_of (config_with f p) (observed f p now)"
  by (simp_all add: silent_def observed_def SimEngine_new_without_events_def engine_of_new)

lemma new_engines [simp]:
  "eng_seq (silent f p now) = 0" "eng_seq (observed f p now) = 0" "eng_sink (observed f p now) = []"
  "eng_metrics (silent f p now) = HistogramRecorder_new"
  by (simp_all add: silent_def observed_def SimEngine_new_without_events_def SimEngine_new_def)

lemma test_engines_admit:
  "concurrency_cap p \<noteq> 0 \<Longrightarrow> ctx_op ctx = f \<Longrightarrow> admitted (silent f p now) ctx"
  "concurrency_cap p \<noteq> 0 \<Longrightarrow> ctx_op ctx = f \<Longrightarrow> admitted (observed f p now) ctx"
  unfolding silent_def observed_def SimEngine_new_without_events_def
  by (rule new_engine_admits; simp)+

lemma ctx_simps [simp]:
  "ctx_op (OpContext_data f ino off len) = f" "ctx_len (OpContext_data f ino off len) = len"
  "ctx_requested_len (OpContext_data f ino off len) = len" "ctx_ino (OpContext_data f ino off len) = ino"
  "ctx_op (OpContext_metadata f ino) = f" "ctx_len (OpContext_metadata f ino) = 0"
  "ctx_requested_len (OpContext_metadata f ino) = 0"
  "ctx_op (with_requested_len ctx n) = ctx_op ctx" "ctx_len (with_requested_len ctx n) = ctx_len ctx"
  "ctx_requested_len (with_requested_len ctx n) = n"
  by (simp_all add: OpContext_data_def OpContext_metadata_def with_requested_len_def)

text \<open>What one operation of a test does, when it is neither rejected nor throttled.\<close>

lemma test_op:
  fixes x :: 'a
  assumes "sound_env env" "engine_of config eng" "admitted eng ctx" "\<not> throttled (policy_for config (ctx_op ctx)) ctx"
  defines "r \<equiv> (case decided_fault (env_rng env) config ctx (eng_seq eng) of Some errno \<Rightarrow> Err (Errno errno) | None \<Rightarrow> Ok x)"
  shows "result_of env eng ctx x t = Finished r"
    and "engine_of config (engine_after env eng ctx x t)"
    and "eng_seq (engine_after env eng ctx x t) = eng_seq eng + 1"
    and "occupancy (engine_after env eng ctx x t) = occupancy eng"
    and "logged_once env eng (engine_after env eng ctx x t) ctx (eng_seq eng) r
      (decided_latency (env_libm env) (env_rng env) config ctx (eng_seq eng))"
proof -
  obtain eng' where "run_op env eng ctx (returning x) () t = (case decided_fault (env_rng env) config ctx (eng_seq eng) of
       Some errno \<Rightarrow> (Finished (Err (Errno errno)), eng', ()) | None \<Rightarrow> (Finished (Ok x), eng', ()))"
    "engine_of config eng'" "eng_seq eng' = eng_seq eng + 1" "occupancy eng' = occupancy eng"
    "logged_once env eng eng' ctx (eng_seq eng) r
       (decided_latency (env_libm env) (env_rng env) config ctx (eng_seq eng))"
    using quick_op [OF assms(2-4), of env "returning x" "()" "Ok x" "()" t] assms(1)
    unfolding r_def by (auto simp: returning_def sound_env_def)
  then show "result_of env eng ctx x t = Finished r"
    "engine_of config (engine_after env eng ctx x t)"
    "eng_seq (engine_after env eng ctx x t) = eng_seq eng + 1"
    "occupancy (engine_after env eng ctx x t) = occupancy eng"
    "logged_once env eng (engine_after env eng ctx x t) ctx (eng_seq eng) r
      (decided_latency (env_libm env) (env_rng env) config ctx (eng_seq eng))"
    by (auto simp: result_of_def engine_after_def r_def split: option.splits)
qed

text \<open>The counts of successes and errors of an operation.\<close>

definition counts :: "('s, 'h) SimEngine \<Rightarrow> FsOp \<Rightarrow> u64 \<times> u64" where
  "counts eng f = (case eng_metrics eng f of None \<Rightarrow> (0, 0) | Some e \<Rightarrow> (count_ok e, count_err e))"

lemma counts_record:
  assumes "record_op h (eng_metrics eng) f us err = Returns (eng_metrics eng')"
  shows "counts eng' f = (fst (counts eng f) + of_bool (\<not> err), snd (counts eng f) + of_bool err)"
proof -
  obtain e where e: "op_entry h (eng_metrics eng) f = Returns e"
    using assms by (cases "op_entry h (eng_metrics eng) f") (simp_all add: record_op_def)
  have "eng_metrics eng' f = Some (add_sample h e (f, us, err))"
    using assms unfolding record_op_Returns [OF e] may_panic.inject by (metis fun_upd_same)
  moreover have "counts eng f = (count_ok e, count_err e)"
    using e by (auto simp: counts_def op_entry_def split: option.splits)
  ultimately show ?thesis by (simp add: counts_def add_sample_def)
qed

lemma find_summary: "find (\<lambda>s. sum_op s = f) (summary h m) = summary_of h m f"
proof -
  have "sum_op s = g" if "summary_of h m g = Some s" for g s
    using that by (auto simp: summary_of_def Let_def split: option.splits if_splits)
  then have "find (\<lambda>s. sum_op s = f) (List.map_filter (summary_of h m) fs) = (if f \<in> set fs then summary_of h m f else None)" for fs
    by (induction fs) (auto simp: List.map_filter_simps split: option.splits)
  then show ?thesis by (simp add: summary_def FsOp_ALL_complete)
qed

text \<open>Repeated operations whose rules always, or never, fire.\<close>

lemma next_op:
  assumes "sound_env env" "\<not> throttled (policy_for config (ctx_op ctx)) ctx" "engine_of config eng" "admitted eng ctx"
  shows "engine_of config (engine_after env eng ctx x t)" "admitted (engine_after env eng ctx x t) ctx"
proof -
  note op = test_op [OF assms(1,3,4,2), of x t]
  show "engine_of config (engine_after env eng ctx x t)" by (rule op(2))
  show "admitted (engine_after env eng ctx x t) ctx"
    using assms(4) op(2) unfolding admitted_iff [OF assms(3)] admitted_iff [OF op(2)] op(4) by auto
qed

lemma repeated_ops:
  assumes "sound_env env" "\<not> throttled (policy_for config (ctx_op ctx)) ctx"
    and fault: "\<And>seq. decided_fault (env_rng env) config ctx seq = fault"
    and "engine_of config eng" "admitted eng ctx"
  defines "r \<equiv> (case fault of Some errno \<Rightarrow> Err (Errno errno) | None \<Rightarrow> Ok ())"
  shows "fst (repeated env eng ctx ts) = replicate (length ts) (Finished r)"
    and "fault = None \<Longrightarrow> counts (snd (repeated env eng ctx ts)) (ctx_op ctx)
      = (fst (counts eng (ctx_op ctx)) + of_nat (length ts), snd (counts eng (ctx_op ctx)))"
  using assms(4,5)
proof (induction ts arbitrary: eng)
  case (Cons t ts)
  note op = test_op [OF assms(1) _ _ assms(2), of _ "()" t, unfolded fault]
  note next_eng = next_op [OF assms(1,2), of _ "()" t]
  {
    case (1 eng)
    then show ?case using Cons.IH(1) [OF next_eng [OF 1]] op(1) [OF 1]
      by (simp add: case_prod_unfold Let_def r_def)
  }
  {
    case (2 eng)
    obtain us where "record_op (env_hdr env) (eng_metrics eng) (ctx_op ctx) us False
        = Returns (eng_metrics (engine_after env eng ctx () t))"
      using op(5) [OF 2(2,3)] 2(1) unfolding logged_once_def by auto
    from counts_record [OF this] show ?case
      using Cons.IH(2) [OF 2(1) next_eng [OF 2(2,3)]] by (simp add: case_prod_unfold Let_def ac_simps)
  }
qed simp_all

text \<open>Their events carry consecutive sequence numbers.\<close>

lemma repeated_events:
  assumes "sound_env env" "\<not> throttled (policy_for config (ctx_op ctx)) ctx" "env_emit env = collecting"
    and "engine_of config eng" "admitted eng ctx"
  shows "map ev_seq (eng_sink (snd (repeated env eng ctx ts)))
    = map ev_seq (eng_sink eng) @ map (\<lambda>i. eng_seq eng + of_nat i) [0..<length ts]"
  using assms(4,5)
proof (induction ts arbitrary: eng)
  case (Cons t ts)
  note op = test_op [OF assms(1) Cons.prems assms(2), of "()" t]
  obtain ev where ev: "eng_sink (engine_after env eng ctx () t) = eng_sink eng @ [ev]" "ev_seq ev = eng_seq eng"
    using op(5) assms(3) unfolding logged_once_def by (auto simp: collecting_def)
  have seqs: "map (\<lambda>i. s + of_nat i) [0..<Suc n] = s # map (\<lambda>i. s + 1 + of_nat i) [0..<n]" for s :: u64 and n
    by (simp add: upt_conv_Cons map_Suc_upt [symmetric] comp_def ac_simps del: upt_Suc)
  show ?case
    using Cons.IH [OF next_op [OF assms(1,2) Cons.prems, of "()" t]] op(3) seqs
    by (simp add: case_prod_unfold Let_def ev del: upt_Suc)
qed simp

lemma zero_policy [simp]:
  "concurrency_cap zero_latency_policy = 4" "bandwidth zero_latency_policy = None" "faults zero_latency_policy = []"
  "size_tier zero_latency_policy = None"
  by (simp_all add: zero_latency_policy_def)

lemma untiered [simp]: "size_tier p = None \<Longrightarrow> \<not> routed_large p f n"
  by (simp add: routed_large_def)

lemma key_op_config [simp]: "key_op (config_key config ctx seq) = ctx_op ctx"
  by (simp add: config_key_def)

text \<open>The decisions of a test engine are those of the profile and the rules of the tier.\<close>

lemma decisions_of:
  "decided_fault g (config_with f p) ctx seq
    = sample_fault g (if routed_large p f (ctx_requested_len ctx) then large_faults (tier_large (the (size_tier p)))
        else faults p) (config_key (config_with f p) ctx seq)"
  "decided_latency m g (config_with f p) ctx seq
    = sample_latency_us m g (if routed_large p f (ctx_requested_len ctx)
        then large_latency (tier_large (the (size_tier p))) else latency p) (config_key (config_with f p) ctx seq)"
  if "ctx_op ctx = f"
  using that by (simp_all add: decided_fault_def decided_latency_def)

text \<open>The first operation of a test engine.\<close>

lemma silent_op:
  fixes x :: 'a
  assumes "sound_env env" "ctx_op ctx = f" "concurrency_cap p \<noteq> 0" "\<not> throttled p ctx"
    and "decided_fault (env_rng env) (config_with f p) ctx 0 = fault"
  shows "result_of env (silent f p now) ctx x t
    = Finished (case fault of Some errno \<Rightarrow> Err (Errno errno) | None \<Rightarrow> Ok x)"
  using test_op(1) [OF assms(1) engines_of(1), of f p now ctx x t] assms(2-) by (simp add: test_engines_admit)

lemma observed_op:
  fixes x :: 'a
  assumes "sound_env env" "env_emit env = collecting" "ctx_op ctx = f" "concurrency_cap p \<noteq> 0" "\<not> throttled p ctx"
    and "decided_fault (env_rng env) (config_with f p) ctx 0 = fault"
  defines "r \<equiv> (case fault of Some errno \<Rightarrow> Err (Errno errno) | None \<Rightarrow> Ok x)"
  shows "result_of env (observed f p now) ctx x t = Finished r"
    and "\<exists>ev. eng_sink (engine_after env (observed f p now) ctx x t) = [ev] \<and> ev_op ev = f \<and> ev_ino ev = ctx_ino ctx
      \<and> ev_len ev = ctx_len ctx \<and> ev_errno ev = fault \<and> (ev_outcome ev = Outcome_Error \<longleftrightarrow> fault \<noteq> None)"
proof -
  note op = test_op [OF assms(1) engines_of(2), of f p now ctx x t]
  show "result_of env (observed f p now) ctx x t = Finished r"
    using op(1) assms(3-) by (simp add: test_engines_admit r_def)
  show "\<exists>ev. eng_sink (engine_after env (observed f p now) ctx x t) = [ev] \<and> ev_op ev = f \<and> ev_ino ev = ctx_ino ctx
      \<and> ev_len ev = ctx_len ctx \<and> ev_errno ev = fault \<and> (ev_outcome ev = Outcome_Error \<longleftrightarrow> fault \<noteq> None)"
    using op(5) assms(2-6)
    by (cases fault) (fastforce simp: test_engines_admit logged_once_def collecting_def)+
qed

lemma outcome_ok_iff: "ou \<noteq> Outcome_Error \<longleftrightarrow> ou = Outcome_Ok"
  by (cases ou) simp_all

text \<open>A limiter without slots and without a queue.\<close>

lemma rejection_logged:
  fixes env :: "('r, Event list, 'h) engine_env"
  assumes "sound_env env" "env_emit env = collecting"
  shows "test_limiter_rejection_is_recorded_as_error env now t"
proof -
  let ?closed = "zero_latency_policy\<lparr>concurrency_cap := 0, OpPolicy.queue_cap := 0\<rparr>"
  let ?eng = "observed Read ?closed now :: (Event list, 'h) SimEngine" and ?ctx = "OpContext_data Read 1 0 0"
  note eng = engines_of(2) [of Read ?closed now]
  have enter: "\<exists>eng1. op_enter ?eng ?ctx = (Some (0, Rejected), eng1)"
    by (simp add: op_enter_def next_seq_def observed_def SimEngine_new_resources OpResources_new_def Let_def
        BlockingLimiter_new_def acquire_enter_def)
      (simp add: SimEngine_new_def)
  obtain out eng' w' where run: "run_op env ?eng ?ctx (returning ()) () t = (out, eng', w')"
    by (metis prod.exhaust)
  have "out \<noteq> Waits" using run enter by (cases rule: run_op_cases [OF eng run]) auto
  moreover have "out \<noteq> Op_panics"
    using run_op_panicked [OF eng, of env ?ctx "returning ()" "()" t eng' w'] run assms(1)
    by (auto simp: sound_env_def returning_def throttled_def)
  ultimately obtain r where r: "out = Finished r" by (cases out) auto
  have adm: "\<not> admitted ?eng ?ctx" using enter by (auto simp: admitted_def)
  note fin = run_op_finished [OF eng run [unfolded r]]
  then obtain ev where "eng_sink eng' = [ev]" "ev_errno ev = Some EAGAIN" "ev_outcome ev = Outcome_Error"
    "r = Err (Errno EAGAIN)"
    using adm assms(2) by (auto simp: logged_once_def collecting_def)
  then show ?thesis
    using run r by (simp add: test_limiter_rejection_is_recorded_as_error_def Let_def result_of_def engine_after_def)
qed

lemma event_tests_of_engine_pass:
  assumes "sound_env env" "env_emit env = collecting"
  shows "test_event_is_emitted_for_success env now t"
    and "test_event_is_emitted_for_injected_error env now t"
    and "length ts = 5 \<Longrightarrow> test_seq_increments_monotonically env now ts"
    and "test_limiter_rejection_is_recorded_as_error env now t"
proof -
  have g: "rng_unit (env_rng env)" using assms by (simp add: sound_env_def)
  have "decided_fault (env_rng env) (config_with Read zero_latency_policy) (OpContext_data Read 42 0 128) 0 = None"
    by (simp add: decisions_of no_rules)
  from observed_op [OF assms _ _ _ this, of now "()" t]
  show "test_event_is_emitted_for_success env now t"
    by (auto simp: test_event_is_emitted_for_success_def Let_def throttled_def outcome_ok_iff OpContext_data_def)
  let ?faulty = "zero_latency_policy\<lparr>faults := always FsOp.Write ENOSPC\<rparr>"
  have "decided_fault (env_rng env) (config_with FsOp.Write ?faulty) (OpContext_data FsOp.Write 1 0 16) 0 = Some ENOSPC"
    by (simp add: decisions_of always_fires [OF g])
  from observed_op [OF assms _ _ _ this, of now "()" t]
  show "test_event_is_emitted_for_injected_error env now t"
    by (auto simp: test_event_is_emitted_for_injected_error_def Let_def throttled_def)
  let ?ctx = "OpContext_metadata GetAttr 1"
  have none: "decided_fault (env_rng env) (config_with GetAttr zero_latency_policy) ?ctx seq = None" for seq
    by (simp add: decisions_of no_rules)
  show "test_seq_increments_monotonically env now ts" if "length ts = 5"
  proof -
    have "[0..<length ts] = [0, 1, 2, 3, 4]" using that by (simp add: upt_rec)
    then show ?thesis
      using repeated_ops(1) [OF assms(1), of "config_with GetAttr zero_latency_policy" ?ctx None
          "observed GetAttr zero_latency_policy now" ts]
        repeated_events [OF assms(1) _ assms(2), of "config_with GetAttr zero_latency_policy" ?ctx
          "observed GetAttr zero_latency_policy now" ts] none
      by (simp add: test_seq_increments_monotonically_def engines_of test_engines_admit throttled_def case_prod_unfold)
  qed
  show "test_limiter_rejection_is_recorded_as_error env now t"
    by (rule rejection_logged [OF assms])
qed

lemma lifecycle_tests_pass:
  assumes "sound_env env"
  shows "test_zero_latency_runs_closure_and_returns_value env now t"
    and "test_latency_injection_blocks_caller env now t"
    and "test_bandwidth_only_applies_to_read_write env now t"
    and "test_limiter_releases_after_injected_error env now ts"
    and "length ts = 10 \<Longrightarrow> test_metrics_record_per_op env now ts"
proof -
  have g: "rng_unit (env_rng env)" using assms by (simp add: sound_env_def)
  show "test_zero_latency_runs_closure_and_returns_value env now t"
    using silent_op [OF assms, of _ Read zero_latency_policy None now "7 :: u32" t]
    by (simp add: test_zero_latency_runs_closure_and_returns_value_def throttled_def decisions_of no_rules)
  show "test_latency_injection_blocks_caller env now t"
    using silent_op [OF assms, of _ Open _ None now "()" t]
    by (simp add: test_latency_injection_blocks_caller_def throttled_def decisions_of no_rules Let_def
        is_data_ctx_def sleep_unthrottled [OF engines_of(1)] sample_latency_fixed zero_latency_policy_def f64_lt_def
        from_micros_def millis_def)
  show "test_bandwidth_only_applies_to_read_write env now t"
    using silent_op [OF assms, of _ Open _ None now "()" t]
    by (simp add: test_bandwidth_only_applies_to_read_write_def throttled_def decisions_of no_rules Let_def
        is_data_ctx_def sleep_unthrottled [OF engines_of(1)] zero_latency from_micros_def millis_def)
  let ?faulty = "zero_latency_policy\<lparr>concurrency_cap := 1, OpPolicy.queue_cap := 0, faults := always Read EIO\<rparr>"
  show "test_limiter_releases_after_injected_error env now ts"
    using repeated_ops(1) [OF assms, of "config_with Read ?faulty" "OpContext_data Read 1 0 0" "Some EIO" "silent Read ?faulty now" ts]
    by (simp add: test_limiter_releases_after_injected_error_def throttled_def engines_of test_engines_admit
        decisions_of always_fires [OF g])
  let ?few = "OpContext_data Read 1 0 128" and ?read = "silent Read zero_latency_policy now"
  have none: "decided_fault (env_rng env) (config_with Read zero_latency_policy) ?few seq = None" for seq
    by (simp add: decisions_of no_rules)
  show "test_metrics_record_per_op env now ts" if "length ts = 10"
  proof -
    note ten = repeated_ops [OF assms, of "config_with Read zero_latency_policy" ?few None ?read ts]
    have "counts (snd (repeated env ?read ?few ts)) Read = (10, 0)"
      using ten(2) that none
      by (simp add: throttled_def engines_of test_engines_admit counts_def HistogramRecorder_new_def)
    then show ?thesis
      using ten(1) none
      by (auto simp: test_metrics_record_per_op_def throttled_def engines_of test_engines_admit case_prod_unfold
          find_summary engine_metrics_def counts_def summary_of_def Let_def split: option.splits)
  qed
qed

lemma injected_error_test_passes:
  fixes env :: "('r, unit, 'h) engine_env"
  assumes "sound_env env"
  shows "test_injected_error_skips_closure env now t"
proof -
  let ?faulty = "zero_latency_policy\<lparr>faults := always Read EIO\<rparr>" and ?ctx = "OpContext_data Read 100 0 4096"
  let ?eng = "silent Read ?faulty now :: (unit, 'h) SimEngine"
  let ?body = "\<lambda>_. (Returns (Ok ()), True)"
  have fault: "decided_fault (env_rng env) (config_with Read ?faulty) ?ctx (eng_seq ?eng) = Some EIO"
    using assms by (simp add: decisions_of sound_env_def always_fires)
  have "admitted ?eng ?ctx" by (rule test_engines_admit) simp_all
  then have "\<exists>eng'. run_op env ?eng ?ctx ?body False t = (Finished (Err (Errno EIO)), eng', False)"
    using quick_op [OF engines_of(1), of Read ?faulty now ?ctx env ?body False "Ok ()" True t] fault assms
    by (simp add: throttled_def sound_env_def) blast
  then show ?thesis by (auto simp: test_injected_error_skips_closure_def)
qed

section \<open>Tests of the size tiers\<close>

text \<open>A policy without latency of its own and a tier for requests of more than 1024 bytes.\<close>

definition tiered :: "LatencyProfile \<Rightarrow> FaultRule list \<Rightarrow> OpPolicy" where
  "tiered l fs = zero_latency_policy\<lparr>latency := fixed_latency_profile 0, size_tier := Some (large_tier 1024 l fs)\<rparr>"

definition test_size_tier_routes_reads_below_threshold_to_base ::
    "('r, unit, 'h) engine_env \<Rightarrow> (FsOp \<Rightarrow> tier_ref \<Rightarrow> instant) \<Rightarrow> readings \<Rightarrow> bool" where
  "test_size_tier_routes_reads_below_threshold_to_base env now t \<longleftrightarrow>
     (let eng = silent Read (zero_latency_policy\<lparr>latency := fixed_latency_profile 5000,
            size_tier := Some (large_tier 1024 (fixed_latency_profile 200000) [])\<rparr>) now;
          ctx = OpContext_data Read 1 0 500
      in result_of env eng ctx () t = Finished (Ok ()) \<and> sleeps env eng ctx t (\<lambda>d. d < millis 50))"

definition test_size_tier_routes_reads_above_threshold_to_large ::
    "('r, unit, 'h) engine_env \<Rightarrow> (FsOp \<Rightarrow> tier_ref \<Rightarrow> instant) \<Rightarrow> readings \<Rightarrow> bool" where
  "test_size_tier_routes_reads_above_threshold_to_large env now t \<longleftrightarrow>
     (let eng = silent Read (zero_latency_policy\<lparr>
            size_tier := Some (large_tier 1024 (fixed_latency_profile 50000) [])\<rparr>) now;
          ctx = OpContext_data Read 1 0 2000
      in result_of env eng ctx () t = Finished (Ok ()) \<and> sleeps env eng ctx t (\<lambda>d. millis 40 \<le> d))"

definition test_size_tier_ignored_on_metadata_ops ::
    "('r, unit, 'h) engine_env \<Rightarrow> (FsOp \<Rightarrow> tier_ref \<Rightarrow> instant) \<Rightarrow> readings \<Rightarrow> bool" where
  "test_size_tier_ignored_on_metadata_ops env now t \<longleftrightarrow>
     (let eng = silent Open (zero_latency_policy\<lparr>
            size_tier := Some (large_tier 1 (fixed_latency_profile 250000) (always Open EIO))\<rparr>) now;
          ctx = OpContext_data Open 1 0 1000000
      in result_of env eng ctx () t = Finished (Ok ()) \<and> sleeps env eng ctx t (\<lambda>d. d < millis 50))"

definition test_size_tier_faults_apply_above_threshold ::
    "('r, unit, 'h) engine_env \<Rightarrow> (FsOp \<Rightarrow> tier_ref \<Rightarrow> instant) \<Rightarrow> readings \<Rightarrow> readings \<Rightarrow> bool" where
  "test_size_tier_faults_apply_above_threshold env now t u \<longleftrightarrow>
     (let eng = silent Read (zero_latency_policy\<lparr>
            size_tier := Some (large_tier 1024 (fixed_latency_profile 0) (always Read EIO))\<rparr>) now;
          small = OpContext_data Read 1 0 100; large = OpContext_data Read 1 0 4096
      in result_of env eng small (42 :: u8) t = Finished (Ok 42)
        \<and> result_of env (engine_after env eng small (42 :: u8) t) large (42 :: u8) u = Finished (Err (Errno EIO)))"

definition test_size_tier_faults_apply_above_threshold_for_writes ::
    "('r, unit, 'h) engine_env \<Rightarrow> (FsOp \<Rightarrow> tier_ref \<Rightarrow> instant) \<Rightarrow> readings \<Rightarrow> readings \<Rightarrow> bool" where
  "test_size_tier_faults_apply_above_threshold_for_writes env now t u \<longleftrightarrow>
     (let eng = silent FsOp.Write (zero_latency_policy\<lparr>
            size_tier := Some (large_tier 1024 (fixed_latency_profile 0) (always FsOp.Write ENOSPC))\<rparr>) now;
          small = OpContext_data FsOp.Write 1 0 100; large = OpContext_data FsOp.Write 1 0 4096
      in result_of env eng small (7 :: u8) t = Finished (Ok 7)
        \<and> result_of env (engine_after env eng small (7 :: u8) t) large (7 :: u8) u = Finished (Err (Errno ENOSPC)))"

text \<open>
  The large operation holds the only slot after its entry; the small one then waits, and is
  admitted once the guard of the large one is dropped.
\<close>

definition test_size_tier_uses_inherited_concurrency_cap ::
    "('r, unit, 'h) engine_env \<Rightarrow> (FsOp \<Rightarrow> tier_ref \<Rightarrow> instant) \<Rightarrow> readings \<Rightarrow> bool" where
  "test_size_tier_uses_inherited_concurrency_cap env now t \<longleftrightarrow>
     (let eng = silent Read ((tiered (fixed_latency_profile 0) [])\<lparr>concurrency_cap := 1, OpPolicy.queue_cap := 4\<rparr>) now;
          small = OpContext_data Read 1 0 100;
          (large_entry, held) = op_enter eng (OpContext_data Read 1 0 10000)
      in map_option snd large_entry = Some Admitted \<and> result_of env held small () t = Waits
        \<and> result_of env (drop_guard Read held) small () t = Finished (Ok ()))"

definition test_size_tier_routes_on_requested_len_not_clamped_len ::
    "('r, unit, 'h) engine_env \<Rightarrow> (FsOp \<Rightarrow> tier_ref \<Rightarrow> instant) \<Rightarrow> readings \<Rightarrow> bool" where
  "test_size_tier_routes_on_requested_len_not_clamped_len env now t \<longleftrightarrow>
     (let eng = silent Read (tiered (fixed_latency_profile 50000) []) now;
          ctx = with_requested_len (OpContext_data Read 1 0 100) 10000
      in result_of env eng ctx () t = Finished (Ok ()) \<and> sleeps env eng ctx t (\<lambda>d. millis 40 \<le> d))"

definition test_size_tier_routes_to_base_when_requested_len_at_threshold ::
    "('r, unit, 'h) engine_env \<Rightarrow> (FsOp \<Rightarrow> tier_ref \<Rightarrow> instant) \<Rightarrow> readings \<Rightarrow> bool" where
  "test_size_tier_routes_to_base_when_requested_len_at_threshold env now t \<longleftrightarrow>
     (let eng = silent Read (tiered (fixed_latency_profile 200000) []) now;
          ctx = with_requested_len (OpContext_data Read 1 0 10000) 1024
      in result_of env eng ctx () t = Finished (Ok ()) \<and> sleeps env eng ctx t (\<lambda>d. d < millis 50))"

text \<open>The first operation, its result and its sleep, when nothing throttles and no rule fires.\<close>

lemma timed_op:
  assumes "sound_env env" "ctx_op ctx = f" "concurrency_cap p \<noteq> 0" "\<not> throttled p ctx"
    and "decided_fault (env_rng env) (config_with f p) ctx 0 = None"
    and "decided_latency (env_libm env) (env_rng env) (config_with f p) ctx 0 = us"
  shows "result_of env (silent f p now) ctx () t = Finished (Ok ())
    \<and> sleeps env (silent f p now) ctx t ok = ok (unat us * 1000)"
  using silent_op [OF assms(1-5), of now "()" t] sleep_unthrottled [OF engines_of(1), of f p ctx env now t ok] assms(2,4,6)
  by (simp add: from_micros_def)

lemmas tier_simps = large_tier_def tiered_def throttled_def decisions_of no_rules routed_large_def is_data_ctx_def
  fixed_latency zero_latency millis_def Let_def word_less_nat_alt word_le_nat_alt

text \<open>A small operation without rules, then a large one with a rule that fires.\<close>

lemma tier_faults:
  fixes env :: "('r, unit, 'h) engine_env" and x y :: 'a and now :: "FsOp \<Rightarrow> tier_ref \<Rightarrow> instant"
  assumes "sound_env env" "is_data_ctx f"
    and "p = zero_latency_policy\<lparr>size_tier := Some (large_tier 1024 (fixed_latency_profile 0) (always f errno))\<rparr>"
  defines "eng \<equiv> silent f p now :: (unit, 'h) SimEngine"
  shows "result_of env eng (OpContext_data f 1 0 100) x t = Finished (Ok x)"
    and "result_of env (engine_after env eng (OpContext_data f 1 0 100) x t) (OpContext_data f 1 0 4096) y u
      = Finished (Err (Errno errno))"
proof -
  let ?small = "OpContext_data f 1 0 100" and ?large = "OpContext_data f 1 0 4096"
  have thr: "\<not> throttled (policy_for (config_with f p) (ctx_op ?small)) ?small"
    "\<not> throttled (policy_for (config_with f p) (ctx_op ?large)) ?large"
    using assms(2) by (simp_all add: assms(3) tier_simps)
  have eng: "engine_of (config_with f p) eng" "admitted eng ?small" "admitted eng ?large"
    by (simp_all add: eng_def engines_of test_engines_admit assms(3))
  have small: "decided_fault (env_rng env) (config_with f p) ?small seq = None" for seq
    by (simp add: assms(3) tier_simps)
  have large: "decided_fault (env_rng env) (config_with f p) ?large seq = Some errno" for seq
    using assms(1,2) by (simp add: assms(3) tier_simps always_fires sound_env_def)
  note first = test_op [OF assms(1) eng(1,2) thr(1), of x t]
  show "result_of env eng ?small x t = Finished (Ok x)" using first(1) small by simp
  have "admitted (engine_after env eng ?small x t) ?large"
    using eng(3) first(4) unfolding admitted_iff [OF eng(1)] admitted_iff [OF first(2)] by auto
  from test_op(1) [OF assms(1) first(2) this thr(2), of y u]
  show "result_of env (engine_after env eng ?small x t) ?large y u = Finished (Err (Errno errno))"
    by (simp add: large)
qed

lemma size_tier_tests_pass:
  assumes "sound_env env"
  shows "test_size_tier_routes_reads_below_threshold_to_base env now t"
    and "test_size_tier_routes_reads_above_threshold_to_large env now t"
    and "test_size_tier_ignored_on_metadata_ops env now t"
    and "test_size_tier_faults_apply_above_threshold env now t u"
    and "test_size_tier_faults_apply_above_threshold_for_writes env now t u"
    and "test_size_tier_routes_on_requested_len_not_clamped_len env now t"
    and "test_size_tier_routes_to_base_when_requested_len_at_threshold env now t"
proof -
  note op = timed_op [OF assms, of _ _ _ _ now t]
  show "test_size_tier_routes_reads_below_threshold_to_base env now t"
    by (simp add: test_size_tier_routes_reads_below_threshold_to_base_def op tier_simps)
  show "test_size_tier_routes_reads_above_threshold_to_large env now t"
    by (simp add: test_size_tier_routes_reads_above_threshold_to_large_def op tier_simps)
  show "test_size_tier_ignored_on_metadata_ops env now t"
    by (simp add: test_size_tier_ignored_on_metadata_ops_def op tier_simps)
  show "test_size_tier_routes_on_requested_len_not_clamped_len env now t"
    by (simp add: test_size_tier_routes_on_requested_len_not_clamped_len_def op tier_simps)
  show "test_size_tier_routes_to_base_when_requested_len_at_threshold env now t"
    by (simp add: test_size_tier_routes_to_base_when_requested_len_at_threshold_def op tier_simps)
  show "test_size_tier_faults_apply_above_threshold env now t u"
    "test_size_tier_faults_apply_above_threshold_for_writes env now t u"
    by (simp_all add: tier_faults [OF assms _ refl] Let_def test_size_tier_faults_apply_above_threshold_def
        test_size_tier_faults_apply_above_threshold_for_writes_def is_data_ctx_def)
qed

lemma inherited_cap_test_passes:
  fixes env :: "('r, unit, 'h) engine_env"
  assumes "sound_env env"
  shows "test_size_tier_uses_inherited_concurrency_cap env now t"
proof -
  let ?p = "(tiered (fixed_latency_profile 0) [])\<lparr>concurrency_cap := 1, OpPolicy.queue_cap := 4\<rparr>"
  let ?eng = "silent Read ?p now :: (unit, 'h) SimEngine"
  let ?small = "OpContext_data Read 1 0 100" and ?large = "OpContext_data Read 1 0 10000"
  define held where "held = snd (op_enter ?eng ?large)"
  have enter: "op_enter ?eng ?large = (Some (0, Admitted), held)"
    unfolding held_def
    by (simp add: op_enter_def next_seq_def silent_def SimEngine_new_without_events_def SimEngine_new_resources
        OpResources_new_def Let_def BlockingLimiter_new_def acquire_enter_def)
      (simp add: SimEngine_new_def)
  note effects = op_enter_effects [OF engines_of(1) enter]
  have "\<exists>eng2. op_enter held ?small = (Some (1, Enqueued), eng2)"
    unfolding held_def
    by (simp add: op_enter_def next_seq_def silent_def SimEngine_new_without_events_def SimEngine_new_resources
        OpResources_new_def Let_def BlockingLimiter_new_def acquire_enter_def set_resources_def)
      (simp add: SimEngine_new_def)
  then have "result_of env held ?small () t = Waits"
    by (auto simp: result_of_def run_op_def)
  moreover
  let ?left = "drop_guard Read held"
  have left: "engine_of (config_with Read ?p) ?left" by (rule engine_of_drop_guard [OF effects(7)])
  have "admitted ?eng ?small" by (simp add: test_engines_admit)
  then have "admitted ?left ?small"
    using effects(6) unfolding admitted_iff [OF engines_of(1)] admitted_iff [OF left] by simp
  from test_op(1) [OF assms left this] have "result_of env ?left ?small () t = Finished (Ok ())"
    by (simp add: tier_simps)
  ultimately show ?thesis
    by (simp add: test_size_tier_uses_inherited_concurrency_cap_def Let_def enter)
qed

section \<open>The test of the bandwidth of the large tier\<close>

definition throttling_policy :: OpPolicy where
  "throttling_policy = zero_latency_policy\<lparr>latency := fixed_latency_profile 0,
     size_tier := Some \<lparr>threshold_bytes = 1024, tier_large = \<lparr>large_latency = fixed_latency_profile 0,
       large_bandwidth = Some \<lparr>bytes_per_sec = Finite 1000000, burst_bytes = 100\<rparr>, large_faults = []\<rparr>\<rparr>\<rparr>"

definition test_size_tier_bandwidth_throttles_large_reads ::
    "('r, unit, 'h) engine_env \<Rightarrow> (FsOp \<Rightarrow> tier_ref \<Rightarrow> instant) \<Rightarrow> readings \<Rightarrow> readings \<Rightarrow> bool" where
  "test_size_tier_bandwidth_throttles_large_reads env now t u \<longleftrightarrow>
     (let eng = silent Read throttling_policy now;
          small = OpContext_data Read 1 0 50; large = OpContext_data Read 1 0 200000;
          eng1 = engine_after env eng small () t
      in result_of env eng small () t = Finished (Ok ()) \<and> sleeps env eng small t (\<lambda>d. d < millis 50)
        \<and> result_of env eng1 large () u = Finished (Ok ()) \<and> sleeps env eng1 large u (\<lambda>d. millis 150 \<le> d))"

text \<open>The buckets of an operation; one that nothing throttles leaves them alone.\<close>

definition buckets :: "('s, 'h) SimEngine \<Rightarrow> FsOp \<Rightarrow> ((BandwidthLimiter \<times> BucketState) option \<times> (BandwidthLimiter \<times> BucketState) option) option" where
  "buckets eng f = map_option (\<lambda>res. (res_bandwidth res, res_large_bandwidth res)) (eng_resources eng f)"

lemma buckets_simps [simp]:
  "buckets (snd (op_enter eng ctx)) = buckets eng"
  "buckets (snd (op_reject env eng ctx seq a b c)) = buckets eng"
  "buckets (drop_guard f eng) = buckets eng"
  "buckets (snd (op_finish env eng ctx seq r q lat delay a b c)) = buckets eng"
  by (auto simp: buckets_def op_enter_def next_seq_def op_reject_def op_finish_def drop_guard_def set_resources_def
      emit_event_def Let_def case_prod_unfold fun_eq_iff split: option.split may_panic.split)

lemma unthrottled_sample:
  assumes "resources_of p res" "\<not> throttled p ctx"
  shows "snd (op_sample env eng res ctx seq now) = res"
proof -
  have zero: "reserve l st 0 now = (0, st)" for l st by (simp add: reserve_def)
  have "\<not> is_data_ctx (ctx_op ctx) \<or> ctx_len ctx = 0
      \<or> tier_bandwidth (snd (snd (select_tier res (ctx_op ctx) (ctx_requested_len ctx)))) res = None"
    using assms by (auto simp: throttled_def select_tier_eq tier_bandwidth_def resources_of_def
        routed_large_def split: if_splits)
  then show ?thesis
    by (auto simp: op_sample_def Let_def case_prod_unfold zero set_tier_bucket_def tier_bandwidth_def
        split: option.split tier_ref.splits)
qed

lemma unthrottled_keeps_buckets:
  assumes "engine_of config eng" "\<not> throttled (policy_for config (ctx_op ctx)) ctx"
  shows "buckets (engine_after env eng ctx x t) = buckets eng"
proof -
  define eng1 where "eng1 = snd (op_enter eng ctx)"
  obtain res where res: "eng_resources eng1 (ctx_op ctx) = Some res" "resources_of (policy_for config (ctx_op ctx)) res"
    using engine_ofE [OF engine_of_enter [OF assms(1)]] unfolding eng1_def by metis
  have "set_resources (ctx_op ctx) res eng1 = eng1"
    using res(1) by (simp add: set_resources_def fun_upd_idem)
  then have adm: "buckets (fst (snd (op_admitted env eng1 ctx seq 0 (returning x) () t))) = buckets eng1" for seq
    by (simp add: op_admitted_def res(1) unthrottled_sample [OF res(2) assms(2)] case_prod_unfold Let_def
        split: may_panic.split)
  show ?thesis
    using adm by (simp add: engine_after_def run_op_def Let_def case_prod_unfold eng1_def split: option.split entry.split)
qed

text \<open>A full bucket stays full, and lets a read of 200,000 bytes wait for 199.9 milliseconds.\<close>

lemma full_refill:
  assumes "rate l = Finite 1000000" "capacity l = Finite 100" "tokens st = Finite 100"
  shows "tokens (refill l st now) = Finite 100"
proof -
  let ?added = "f64_mul (as_secs_f64 (duration_since now (last_refill st))) (Finite 1000000)"
  have "f64_le f64_zero ?added"
    using as_secs_f64_nonneg [of "duration_since now (last_refill st)"]
    by (cases "as_secs_f64 (duration_since now (last_refill st))") (auto intro!: f64_of_rat_nonneg split: if_splits)
  from f64_add_ge_nat [OF _ this, of 100] have "f64_le (Finite 100) (f64_add (Finite 100) ?added)" by simp
  then have "f64_min (f64_add (Finite 100) ?added) (Finite 100) = Finite 100"
    by (cases "f64_add (Finite 100) ?added") (auto simp: f64_min_def f64_lt_def f64_le_def split: if_splits)
  then show ?thesis using assms by (simp add: refill_def Let_def f64_lt_def)
qed

lemma debt_in_seconds:
  "f64_div (Finite 199900) (Finite 1000000) = Finite (7202156524090897 / 2 ^ 55)"
proof -
  have "f64_of_rat False (199900 / 1000000) = Finite (of_int 7202156524090897 * 2 powi (- 3 - 52))"
    by (rule f64_of_rat_eval) (simp_all add: power_int_minus)
  then show ?thesis by (simp add: power_int_minus)
qed

lemma debt_in_nanos: "try_from_secs_f64 (Finite (7202156524090897 / 2 ^ 55)) = Some 199900000"
  by (simp add: round_even_eval [of _ 199900000] DURATION_MAX_def Let_def)

lemma throttled_read:
  assumes "rate l = Finite 1000000" "capacity l = Finite 100" "tokens st = Finite 100"
  shows "fst (reserve l st 200000 now) = 199900000"
proof -
  have "tokens (refill l (st\<lparr>total_bytes_reserved := n\<rparr>) now) = Finite 100" for n
    by (rule full_refill) (simp_all add: assms)
  then show ?thesis
    using debt_in_seconds debt_in_nanos
    by (simp add: reserve_def assms Let_def f64_lt_def f64_sub_def f64_of_u64_numeral f64_of_rat_numeral
        del: try_from_secs_f64.simps)
qed

text \<open>An operation whose sleep can be computed returns, throttled or not.\<close>

lemma sample_after_enter:
  assumes "eng_resources eng (ctx_op ctx) = Some res"
  obtains st where "eng_resources (snd (op_enter eng ctx)) (ctx_op ctx) = Some (res\<lparr>res_limiter_state := st\<rparr>)"
    "\<forall>seq now. fst (op_sample env (snd (op_enter eng ctx)) (res\<lparr>res_limiter_state := st\<rparr>) ctx seq now)
      = fst (op_sample env eng res ctx seq now)"
proof (rule that [of "snd (acquire_enter (res_limiter res) (res_limiter_state res))"])
  show "\<forall>seq now. fst (op_sample env (snd (op_enter eng ctx))
      (res\<lparr>res_limiter_state := snd (acquire_enter (res_limiter res) (res_limiter_state res))\<rparr>) ctx seq now)
    = fst (op_sample env eng res ctx seq now)"
    using assms
    by (simp add: op_sample_def op_enter_def next_seq_def sample_key_def select_tier_eq tier_bandwidth_def
        set_resources_def Let_def case_prod_unfold split: option.split tier_ref.split)
qed (use assms in \<open>simp add: op_enter_def next_seq_def set_resources_def case_prod_unfold Let_def\<close>)

lemma slept_op:
  assumes "sound_env env" "engine_of config eng" "admitted eng ctx"
    and "sleeps env eng ctx t ok" "decided_fault (env_rng env) config ctx (eng_seq eng) = None"
  shows "result_of env eng ctx x t = Finished (Ok x)"
proof -
  obtain out eng' w' where run: "run_op env eng ctx (returning x) () t = (out, eng', w')" by (metis prod.exhaust)
  have total: "histogram_constructs (env_hdr env)" using assms(1) by (simp add: sound_env_def)
  have "out \<noteq> Waits" using run_op_waits_iff [OF assms(2,3), of env "returning x" "()" t] run by simp
  moreover have "out \<noteq> Op_panics"
  proof
    assume panics: "out = Op_panics"
    obtain res where res: "eng_resources eng (ctx_op ctx) = Some res" by (rule engine_ofE [OF assms(2)])
    obtain st where st: "eng_resources (snd (op_enter eng ctx)) (ctx_op ctx) = Some (res\<lparr>res_limiter_state := st\<rparr>)"
      "\<forall>seq now. fst (op_sample env (snd (op_enter eng ctx)) (res\<lparr>res_limiter_state := st\<rparr>) ctx seq now)
        = fst (op_sample env eng res ctx seq now)" by (rule sample_after_enter [OF res, where env = env])
    have fault: "fst (fst (op_sample env eng res ctx (eng_seq eng) (t_reserve t))) = None"
      unfolding op_sample_decides(1) [OF assms(2) res] by (rule assms(5))
    from run panics show False
    proof (cases rule: run_op_cases [OF assms(2) run])
      case (3 eng1 r)
      then have "op_admitted env eng1 ctx (eng_seq eng) 0 (returning x) () t = (Panics, eng', w')" using panics by simp
      then show False
        using st 3(1) fault assms(4)
        by (auto simp: op_finish_total [OF total] op_admitted_def returning_def sleeps_def sleep_time_def res Let_def case_prod_unfold
            split: may_panic.splits)
    qed (use panics op_reject_total [OF total] assms(3) in \<open>auto simp: admitted_def\<close>)
  qed
  ultimately obtain r where "out = Finished r" by (cases out) auto
  then show ?thesis
    using run_op_finished [OF assms(2) run [unfolded \<open>out = Finished r\<close>]] assms(3,5) run
    by (simp add: result_of_def returning_def)
qed

lemma throttling_policy_simps [simp]:
  "concurrency_cap throttling_policy = 4" "bandwidth throttling_policy = None" "faults throttling_policy = []"
  "latency throttling_policy = fixed_latency_profile 0"
  "routed_large throttling_policy f n \<longleftrightarrow> is_data_ctx f \<and> 1024 < n"
  "size_tier throttling_policy = Some \<lparr>threshold_bytes = 1024, tier_large = \<lparr>large_latency = fixed_latency_profile 0,
     large_bandwidth = Some \<lparr>bytes_per_sec = Finite 1000000, burst_bytes = 100\<rparr>, large_faults = []\<rparr>\<rparr>"
  by (simp_all add: throttling_policy_def routed_large_def)

lemma throttling_test_passes:
  fixes env :: "('r, unit, 'h) engine_env"
  assumes "sound_env env"
  shows "test_size_tier_bandwidth_throttles_large_reads env now t u"
proof -
  let ?eng = "silent Read throttling_policy now :: (unit, 'h) SimEngine"
  let ?config = "config_with Read throttling_policy"
  let ?small = "OpContext_data Read 1 0 50" and ?large = "OpContext_data Read 1 0 200000"
  define eng1 where "eng1 = engine_after env ?eng ?small () t"
  have small: "\<not> throttled (policy_for ?config (ctx_op ?small)) ?small"
    by (simp add: throttled_def word_less_nat_alt)
  have decided: "decided_fault (env_rng env) ?config ctx seq = None"
    "decided_latency (env_libm env) (env_rng env) ?config ctx seq = 0" if "ctx_op ctx = Read" for ctx seq
    using that by (simp_all add: decisions_of no_rules fixed_latency)
  have adm: "admitted ?eng ?small" by (simp add: test_engines_admit)
  note first = test_op [OF assms engines_of(1) adm small, of "()" t]
  have eng1: "engine_of ?config eng1" unfolding eng1_def by (rule first(2))
  have adm1: "admitted eng1 ?large"
    using adm first(4) unfolding eng1_def admitted_iff [OF engines_of(1)] admitted_iff [OF first(2)] by auto
  have "buckets eng1 Read = buckets ?eng Read"
    unfolding eng1_def using unthrottled_keeps_buckets [OF engines_of(1) small] by metis
  then obtain res where res: "eng_resources eng1 Read = Some res"
    "res_large_bandwidth res = Some (BandwidthLimiter_new \<lparr>bytes_per_sec = Finite 1000000, burst_bytes = 100\<rparr> (now Read LargeTier))"
    by (auto simp: buckets_def silent_def SimEngine_new_without_events_def SimEngine_new_resources
        OpResources_new_def Let_def)
  obtain l st where new: "BandwidthLimiter_new \<lparr>bytes_per_sec = Finite 1000000, burst_bytes = 100\<rparr> (now Read LargeTier) = (l, st)"
    by (metis prod.exhaust)
  then have bucket: "res_large_bandwidth res = Some (l, st)"
    "rate l = Finite 1000000" "capacity l = Finite 100" "tokens st = Finite 100"
    using res(2) new by (auto simp: BandwidthLimiter_new_def f64_of_u64_numeral)
  have "res_policy res = throttling_policy"
    using res(1) eng1 by (auto simp: engine_of_def resources_of_def) (metis option.inject policy_for_config_with)
  then have "snd (snd (fst (op_sample env eng1 res ?large seq r))) = 199900000" for seq r
    using throttled_read [OF bucket(2-4)]
    by (simp add: op_sample_def select_tier_eq is_data_ctx_def word_less_nat_alt tier_bandwidth_def bucket(1)
        Let_def case_prod_unfold)
  moreover have "fst (snd (fst (op_sample env eng1 res ?large seq r))) = 0" for seq r
    using op_sample_decides(2) [OF eng1, of ?large res env seq r] res(1) decided(2) by simp
  ultimately have sleep: "sleeps env eng1 ?large u (\<lambda>d. millis 150 \<le> d)"
    by (simp add: sleeps_def sleep_time_def res(1) case_prod_unfold Let_def duration_add_def from_micros_def
        DURATION_MAX_def millis_def)
  have "result_of env eng1 ?large () u = Finished (Ok ())"
    by (rule slept_op [OF assms eng1 adm1 sleep]) (simp add: decided)
  moreover have "sleeps env ?eng ?small t (\<lambda>d. d < millis 50)"
    by (simp add: sleep_unthrottled [OF engines_of(1) small] decided from_micros_def millis_def)
  ultimately show ?thesis
    using first(1) sleep
    by (simp add: test_size_tier_bandwidth_throttles_large_reads_def Let_def eng1_def decided)
qed

end
