(* ===== verification/Conformance_Toml.thy ===== *)
theory Conformance_Toml
  imports Conformance_Config
begin

text \<open>
  The integration tests of the configuration (\<open>fusecraft-core/tests/config_toml.rs\<close>), translated,
  and how the acceptance of a document decomposes: a document is read to a valid configuration
  exactly if each of its sections is, so that a long document is checked piece by piece. The
  texts are the trees the parser of TOML gives, with a decimal fraction as the nearest double.
\<close>

section \<open>Acceptance, piece by piece\<close>

text \<open>A reader accepts a value if it reads it to something that is as wanted; a field is accepted
  if its value is, or if it is absent and its default is as wanted.\<close>

definition accepts :: "(toml \<Rightarrow> 'a option) \<Rightarrow> ('a \<Rightarrow> bool) \<Rightarrow> toml \<Rightarrow> bool" where
  "accepts de ok v = (case de v of None \<Rightarrow> False | Some x \<Rightarrow> ok x)"

definition field_accepts :: "toml_table \<Rightarrow> string \<Rightarrow> (toml \<Rightarrow> 'a option) \<Rightarrow> 'a option \<Rightarrow> ('a \<Rightarrow> bool) \<Rightarrow> bool" where
  "field_accepts t k de dflt ok = (case map_of t k of Some v \<Rightarrow> accepts de ok v
     | None \<Rightarrow> (case dflt of None \<Rightarrow> False | Some x \<Rightarrow> ok x))"

lemma accepts_iff: "accepts de ok v \<longleftrightarrow> (\<exists>x. de v = Some x \<and> ok x)"
  by (simp add: accepts_def split: option.split)

lemma field_accepts_iff: "field_accepts t k de dflt ok \<longleftrightarrow> (\<exists>x. field t k de dflt = Some x \<and> ok x)"
  by (simp add: field_accepts_def field_def accepts_iff split: option.split)

lemma accepts_field: "field_accepts t k de dflt ok \<longleftrightarrow> (case field t k de dflt of None \<Rightarrow> False | Some x \<Rightarrow> ok x)"
  by (simp add: field_accepts_iff split: option.split)

lemma accepts_map: "accepts (\<lambda>v. map_option g (de v)) ok v \<longleftrightarrow> accepts de (\<lambda>x. ok (g x)) v"
  by (auto simp: accepts_iff)

lemma accepts_vec: "accepts (de_vec de) (list_all ok) (TArray vs) \<longleftrightarrow> list_all (accepts de ok) vs"
proof -
  have "(case sequence (map de vs) of None \<Rightarrow> False | Some xs \<Rightarrow> list_all ok xs) \<longleftrightarrow> list_all (accepts de ok) vs"
    by (induction vs) (auto simp: accepts_def split: option.splits bind_splits)
  then show ?thesis by (simp add: accepts_def de_vec_def as_array_def)
qed

lemma accepts_fault:
  "accepts (de_fault P) (\<lambda>r. rule_op r = f \<and> unit_interval (rule_rate r)) (TTable t)
     \<longleftrightarrow> field_accepts t ''op'' (de_op P) None (\<lambda>g. g = f)
       \<and> field_accepts t ''errno'' (de_string P) None (\<lambda>s. \<exists>n. parse_errno s = Ok n)
       \<and> field_accepts t ''rate'' (de_f64 P) None unit_interval"
proof (cases "field t ''op'' (de_op P) None"; cases "field t ''errno'' (de_string P) None"; cases "field t ''rate'' (de_f64 P) None")
  fix a b c
  assume "field t ''op'' (de_op P) None = Some a" "field t ''errno'' (de_string P) None = Some b"
    "field t ''rate'' (de_f64 P) None = Some c"
  then show ?thesis
    by (cases "parse_errno b") (simp_all add: accepts_def de_fault_def as_table_def accepts_field FaultRule_of_raw_def)
qed (simp_all add: accepts_def de_fault_def as_table_def accepts_field)

lemma accepts_bandwidth:
  "accepts (de_bandwidth P) valid_bandwidth (TTable t)
     \<longleftrightarrow> field_accepts t ''mib_per_sec'' (de_f64 P) None (\<lambda>x. is_finite (f64_mul (f64_mul x (Finite 1024)) (Finite 1024)))
       \<and> field_accepts t ''burst_bytes'' (de_u64 P) None (\<lambda>_. True)"
  by (auto simp: accepts_iff de_bandwidth_def as_table_def field_accepts_iff BandwidthProfile_of_raw_def
      valid_bandwidth_def split: bind_splits)

definition valid_large :: "FsOp \<Rightarrow> LargeTierPolicy \<Rightarrow> bool" where
  "valid_large f l \<longleftrightarrow> valid_latency (large_latency l) \<and> pred_option valid_bandwidth (large_bandwidth l)
     \<and> valid_faults f (large_faults l)"

lemma accepts_tier:
  "accepts (de_tier P) (valid_tier f) (TTable t)
     \<longleftrightarrow> is_data_op f \<and> field_accepts t ''threshold_bytes'' (de_u64 P) None (\<lambda>n. n \<noteq> 0)
       \<and> field_accepts t ''large'' (de_large P) None (valid_large f)"
  by (auto simp: accepts_iff de_tier_def as_table_def field_accepts_iff valid_tier_def valid_large_def split: bind_splits)

lemma accepts_large:
  "accepts (de_large P) (valid_large f) (TTable t)
     \<longleftrightarrow> field_accepts t ''latency'' (de_latency P) (Some LatencyProfile_default) valid_latency
       \<and> field_accepts t ''bandwidth'' (\<lambda>v. map_option Some (de_bandwidth P v)) (Some None) (pred_option valid_bandwidth)
       \<and> field_accepts t ''faults'' (de_vec (de_fault P)) (Some []) (valid_faults f)"
  by (auto simp: accepts_iff de_large_def as_table_def field_accepts_iff valid_large_def split: bind_splits)

lemma accepts_policy:
  "accepts (de_policy P) (valid_policy f) (TTable t)
     \<longleftrightarrow> field_accepts t ''concurrency_cap'' (de_u64 P) (Some default_concurrency_cap) (\<lambda>n. n \<noteq> 0)
       \<and> field_accepts t ''queue_cap'' (de_u64 P) (Some 0) (\<lambda>_. True)
       \<and> field_accepts t ''latency'' (de_latency P) (Some LatencyProfile_default) valid_latency
       \<and> field_accepts t ''bandwidth'' (\<lambda>v. map_option Some (de_bandwidth P v)) (Some None) (pred_option valid_bandwidth)
       \<and> field_accepts t ''faults'' (de_vec (de_fault P)) (Some []) (valid_faults f)
       \<and> field_accepts t ''size_tier'' (\<lambda>v. map_option Some (de_tier P v)) (Some None) (pred_option (valid_tier f))"
  by (auto simp: accepts_iff de_policy_def as_table_def field_accepts_iff valid_policy_def split: bind_splits)

lemma accepts_ops:
  "accepts (de_ops P) (\<lambda>ops. \<forall>(f, p)\<in>set ops. valid_policy f p) (TTable t)
     \<longleftrightarrow> list_all (\<lambda>(k, v). \<exists>f. FsOp_of_serde k = Some f \<and> accepts (de_policy P) (valid_policy f) v) t"
proof -
  let ?de = "\<lambda>(k, v). do { f \<leftarrow> FsOp_of_serde k; p \<leftarrow> de_policy P v; Some (f, p) }"
  have "(case sequence (map ?de t) of None \<Rightarrow> False | Some ops \<Rightarrow> \<forall>(f, p)\<in>set ops. valid_policy f p)
      \<longleftrightarrow> list_all (\<lambda>(k, v). \<exists>f. FsOp_of_serde k = Some f \<and> accepts (de_policy P) (valid_policy f) v) t"
    by (induction t) (auto simp: accepts_def split: option.splits bind_splits)
  then show ?thesis by (simp add: accepts_def de_ops_def as_table_def)
qed

text \<open>A document is accepted exactly if each of its sections is.\<close>

lemma accepts_config:
  "accepts (de_config P) validates (TTable t)
     \<longleftrightarrow> field_accepts t ''seed'' (de_u64 P) (Some default_seed) (\<lambda>_. True)
       \<and> field_accepts t ''mount'' (de_mount P) (Some MountConfig_default) (\<lambda>_. True)
       \<and> field_accepts t ''files'' (de_files P) (Some FilesConfig_default) (\<lambda>f. inode_count f \<noteq> 0 \<and> file_size_bytes f \<noteq> 0)
       \<and> field_accepts t ''ops'' (de_ops P) (Some []) (\<lambda>ops. \<forall>(f, p)\<in>set ops. valid_policy f p)
       \<and> field_accepts t ''metrics'' (de_metrics P) (Some \<lparr>jsonl_path = None\<rparr>) (\<lambda>_. True)"
  by (auto simp: accepts_iff de_config_def as_table_def field_accepts_iff validates_def validate_iff valid_config_def
      split: bind_splits)

section \<open>Tests\<close>

text \<open>\<open>f64::abs\<close> and the comparison of two doubles up to a tolerance.\<close>

fun f64_abs :: "f64 \<Rightarrow> f64" where
  "f64_abs (Finite q) = Finite \<bar>q\<bar>"
| "f64_abs NegZero = Finite 0"
| "f64_abs (Infinity n) = Infinity False"
| "f64_abs NaN = NaN"

definition f64_within :: "f64 \<Rightarrow> f64 \<Rightarrow> f64 \<Rightarrow> bool" where
  "f64_within tolerance x y \<longleftrightarrow> f64_lt (f64_abs (f64_sub x y)) tolerance"

definition F64_EPSILON :: f64 where "F64_EPSILON = Finite (1 / 2 ^ 52)"

lemma f64_within_same: "is_finite x \<Longrightarrow> f64_lt (Finite 0) tolerance \<Longrightarrow> f64_within tolerance x x"
  by (cases x) (simp_all add: f64_within_def f64_sub_def f64_of_rat_def)

definition test_round_trip_default_config :: "primitives \<Rightarrow> bool" where
  "test_round_trip_default_config P \<longleftrightarrow>
     (let original = Config_default in
      case ser_config P original of None \<Rightarrow> False
      | Some toml_str \<Rightarrow> (case de_config P toml_str of None \<Rightarrow> False
         | Some parsed \<Rightarrow> cfg_seed parsed = cfg_seed original
             \<and> inode_count (cfg_files parsed) = inode_count (cfg_files original)
             \<and> file_size_bytes (cfg_files parsed) = file_size_bytes (cfg_files original)
             \<and> root_layout (cfg_files parsed) = root_layout (cfg_files original)
             \<and> write_mode (cfg_files parsed) = write_mode (cfg_files original)
             \<and> fs_name (cfg_mount parsed) = fs_name (cfg_mount original)
             \<and> auto_unmount (cfg_mount parsed) = auto_unmount (cfg_mount original)
             \<and> cfg_ops parsed = [] \<and> validates parsed))"

definition ops_read_document :: toml where
  "ops_read_document = TTable [
     (''seed'', TInteger 12345),
     (''files'', TTable [
       (''inode_count'', TInteger 500),
       (''file_size_bytes'', TInteger 131072),
       (''root_layout'', TString ''flat''),
       (''write_mode'', TString ''discard'')]),
     (''ops'', TTable [
       (''read'', TTable [
         (''concurrency_cap'', TInteger 32),
         (''queue_cap'', TInteger 128),
         (''latency'', TTable [
           (''base_us'', TInteger 50),
           (''lognormal_median_us'', TFloat (Finite 200)),
           (''lognormal_sigma'', TFloat (f64_of_rat False (8/10))),
           (''pareto_weight'', TFloat (f64_of_rat False (5/100))),
           (''pareto_xm_us'', TFloat (Finite 5000)),
           (''pareto_alpha'', TFloat (f64_of_rat False (12/10))),
           (''max_us'', TInteger 500000)]),
         (''bandwidth'', TTable [(''mib_per_sec'', TFloat (Finite 100)), (''burst_bytes'', TInteger 1048576)]),
         (''faults'', TArray [
           TTable [(''op'', TString ''read''), (''errno'', TString ''EIO''), (''rate'', TFloat (f64_of_rat False (1/1000)))],
           TTable [(''op'', TString ''read''), (''errno'', TString ''EAGAIN''), (''rate'', TFloat (f64_of_rat False (1/100)))]])])])]"

definition test_parse_ops_read_example :: bool where
  "test_parse_ops_read_example \<longleftrightarrow>
     (case de_config toml_prims ops_read_document of None \<Rightarrow> False
      | Some cfg \<Rightarrow> validates cfg \<and> cfg_seed cfg = 12345
          \<and> inode_count (cfg_files cfg) = 500 \<and> file_size_bytes (cfg_files cfg) = 131072
          \<and> (case map_of (cfg_ops cfg) Read of None \<Rightarrow> False
             | Some read_policy \<Rightarrow>
                 concurrency_cap read_policy = 32 \<and> OpPolicy.queue_cap read_policy = 128
                 \<and> base_us (latency read_policy) = 50
                 \<and> f64_within F64_EPSILON (lognormal_median_us (latency read_policy)) (Finite 200)
                 \<and> f64_within F64_EPSILON (lognormal_sigma (latency read_policy)) (f64_of_rat False (8/10))
                 \<and> f64_within F64_EPSILON (pareto_weight (latency read_policy)) (f64_of_rat False (5/100))
                 \<and> f64_within F64_EPSILON (pareto_xm_us (latency read_policy)) (Finite 5000)
                 \<and> f64_within F64_EPSILON (pareto_alpha (latency read_policy)) (f64_of_rat False (12/10))
                 \<and> max_us (latency read_policy) = 500000
                 \<and> (case bandwidth read_policy of None \<Rightarrow> False
                    | Some bw \<Rightarrow>
                        f64_within (Finite 1) (bytes_per_sec bw) (f64_mul (f64_mul (Finite 100) (Finite 1024)) (Finite 1024))
                        \<and> burst_bytes bw = 1048576)
                 \<and> (case faults read_policy of
                      [r1, r2] \<Rightarrow> rule_errno r1 = EIO
                        \<and> f64_within F64_EPSILON (rule_rate r1) (f64_of_rat False (1/1000)) \<and> rule_errno r2 = EAGAIN
                    | _ \<Rightarrow> False)))"

definition test_parse_errno_bogus_returns_config_error :: "(f64 \<Rightarrow> string) \<Rightarrow> bool" where
  "test_parse_errno_bogus_returns_config_error fmt \<longleftrightarrow> (case parse_errno ''BOGUS'' of
     Inl (Config_err m) \<Rightarrow> str_contains ''unknown errno'' (config_message fmt m) | _ \<Rightarrow> False)"

definition test_parse_errno_known_values :: bool where
  "test_parse_errno_known_values \<longleftrightarrow>
     parse_errno ''EIO'' = Ok EIO \<and> parse_errno ''ENOENT'' = Ok ENOENT \<and> parse_errno ''ESTALE'' = Ok ESTALE
     \<and> parse_errno ''ENOSPC'' = Ok ENOSPC \<and> parse_errno ''EAGAIN'' = Ok EAGAIN \<and> parse_errno ''EINTR'' = Ok EINTR"

definition test_validate_rejects_zero_inode_count :: "(f64 \<Rightarrow> string) \<Rightarrow> bool" where
  "test_validate_rejects_zero_inode_count fmt \<longleftrightarrow> rejects_with fmt
     (Config_default\<lparr>cfg_files := FilesConfig_default\<lparr>inode_count := 0\<rparr>\<rparr>) [''inode_count'']"

definition test_validate_rejects_zero_file_size_bytes :: "(f64 \<Rightarrow> string) \<Rightarrow> bool" where
  "test_validate_rejects_zero_file_size_bytes fmt \<longleftrightarrow> rejects_with fmt
     (Config_default\<lparr>cfg_files := FilesConfig_default\<lparr>file_size_bytes := 0\<rparr>\<rparr>) [''file_size_bytes'']"

definition test_validate_rejects_zero_concurrency_cap :: "(f64 \<Rightarrow> string) \<Rightarrow> bool" where
  "test_validate_rejects_zero_concurrency_cap fmt \<longleftrightarrow> rejects_with fmt
     (with_op Read (OpPolicy_default\<lparr>concurrency_cap := 0\<rparr>)) [''concurrency_cap'']"

definition test_validate_rejects_max_us_less_than_base_us :: "(f64 \<Rightarrow> string) \<Rightarrow> bool" where
  "test_validate_rejects_max_us_less_than_base_us fmt \<longleftrightarrow> rejects_with fmt
     (with_op FsOp.Write (OpPolicy_default\<lparr>latency := LatencyProfile_default\<lparr>base_us := 1000, max_us := 500\<rparr>\<rparr>))
     [''max_us'']"

definition test_validate_rejects_fault_rate_above_one :: "(f64 \<Rightarrow> string) \<Rightarrow> bool" where
  "test_validate_rejects_fault_rate_above_one fmt \<longleftrightarrow> rejects_with fmt
     (with_op Read (OpPolicy_default\<lparr>faults := [\<lparr>rule_op = Read, rule_errno = EIO, rule_rate = Finite (3/2)\<rparr>]\<rparr>))
     [''rate'']"

definition test_validate_rejects_pareto_weight_above_one :: "(f64 \<Rightarrow> string) \<Rightarrow> bool" where
  "test_validate_rejects_pareto_weight_above_one fmt \<longleftrightarrow> rejects_with fmt
     (with_op Fsync (OpPolicy_default\<lparr>latency := LatencyProfile_default\<lparr>pareto_weight := Finite (3/2)\<rparr>\<rparr>))
     [''pareto_weight'']"

definition test_default_config_validates :: bool where
  "test_default_config_validates \<longleftrightarrow> validates Config_default"

lemma validation_tests_pass:
  "test_parse_errno_bogus_returns_config_error fmt"
  "test_parse_errno_known_values"
  "test_validate_rejects_zero_inode_count fmt"
  "test_validate_rejects_zero_file_size_bytes fmt"
  "test_validate_rejects_zero_concurrency_cap fmt"
  "test_validate_rejects_max_us_less_than_base_us fmt"
  "test_validate_rejects_fault_rate_above_one fmt"
  "test_validate_rejects_pareto_weight_above_one fmt"
  "test_default_config_validates"
  unfolding test_parse_errno_bogus_returns_config_error_def
    test_parse_errno_known_values_def
    test_validate_rejects_zero_inode_count_def
    test_validate_rejects_zero_file_size_bytes_def
    test_validate_rejects_zero_concurrency_cap_def
    test_validate_rejects_max_us_less_than_base_us_def
    test_validate_rejects_fault_rate_above_one_def
    test_validate_rejects_pareto_weight_above_one_def
    test_default_config_validates_def
    rejects_with_def validates_def parse_errno_def
  by (simp_all add: test_config_simps test_validate_simps element_def decimal.simps)

lemma round_trip_default_config_passes:
  assumes "primitives_roundtrip P" "ser_config P Config_default \<noteq> None"
  shows "test_round_trip_default_config P"
proof -
  obtain v where v: "ser_config P Config_default = Some v" using assms(2) by blast
  have "validates Config_default"
    using validation_tests_pass(9) by (simp add: test_default_config_validates_def)
  moreover have "de_config P v = Some Config_default"
    using config_read_back [OF assms(1) v] by (simp add: reads_back_def Config_default_def)
  ultimately show ?thesis
    by (simp add: test_round_trip_default_config_def v) (simp add: Config_default_def)
qed

definition ops_read_policy :: OpPolicy where
  "ops_read_policy = \<lparr>concurrency_cap = 32, queue_cap = 128,
     latency = \<lparr>base_us = 50, lognormal_median_us = Finite 200, lognormal_sigma = f64_of_rat False (8/10),
       pareto_weight = f64_of_rat False (5/100), pareto_xm_us = Finite 5000, pareto_alpha = f64_of_rat False (12/10),
       max_us = 500000\<rparr>,
     bandwidth = Some \<lparr>bytes_per_sec = f64_mul (f64_mul (Finite 100) (Finite 1024)) (Finite 1024), burst_bytes = 1048576\<rparr>,
     faults = [\<lparr>rule_op = Read, rule_errno = EIO, rule_rate = f64_of_rat False (1/1000)\<rparr>,
       \<lparr>rule_op = Read, rule_errno = EAGAIN, rule_rate = f64_of_rat False (1/100)\<rparr>],
     size_tier = None\<rparr>"

lemma ops_read_document_read:
  "de_config toml_prims ops_read_document = Some \<lparr>cfg_seed = 12345, cfg_mount = MountConfig_default,
     cfg_files = \<lparr>inode_count = 500, file_size_bytes = 131072, root_layout = Flat, write_mode = Discard\<rparr>,
     cfg_ops = [(Read, ops_read_policy)], cfg_metrics = \<lparr>jsonl_path = None\<rparr>\<rparr>"
  by (simp add: ops_read_document_def ops_read_policy_def de_config_def de_ops_def de_policy_def de_latency_def
      de_files_def de_root_layout_def de_write_mode_def de_metrics_def
      de_bandwidth_def de_vec_def de_fault_def de_op_def field_def toml_prims_def as_table_def as_array_def
      FaultRule_of_raw_def parse_errno_def BandwidthProfile_of_raw_def FsOp_of_serde_read del: f64_mul.simps)

text \<open>Doubles nearest to a decimal fraction.\<close>

lemma f64_of_rat_range:
  assumes "0 \<le> q" "q \<le> 2 ^ 53"
  shows "is_finite (f64_of_rat b q)" "0 \<le> f64_val (f64_of_rat b q)" "nonneg_finite (f64_of_rat b q)"
proof -
  have "f64_le (Finite 0) (f64_of_rat b q)" "f64_le (f64_of_rat b q) (Finite (2 ^ 53))"
    using f64_of_rat_mono [OF assms(1), of False b] f64_of_rat_mono [OF assms(2), of b False]
      f64_of_rat_nat [of 0] f64_of_rat_nat [of "2 ^ 53"] by simp_all
  then show "is_finite (f64_of_rat b q)" "0 \<le> f64_val (f64_of_rat b q)" "nonneg_finite (f64_of_rat b q)"
    by (cases "f64_of_rat b q"; simp add: f64_le_def nonneg_finite_def)+
qed

lemma f64_of_rat_ge_one: "1 \<le> q \<Longrightarrow> q \<le> 2 ^ 53 \<Longrightarrow> 0 < f64_val (f64_of_rat b q)"
  using f64_of_rat_mono [of 1 q False b] f64_of_rat_nat [of 1] f64_of_rat_range [of q b]
  by (cases "f64_of_rat b q") (simp_all add: f64_le_def)

lemma parse_ops_read_example_passes: "test_parse_ops_read_example"
proof -
  have "valid_policy Read ops_read_policy"
    by (simp add: valid_policy_def valid_faults_def valid_bandwidth_def valid_latency_def ops_read_policy_def
        f64_of_rat_unit f64_of_rat_range f64_of_rat_ge_one f64_of_rat_numeral nonneg_finite_def)
  moreover have "f64_within (Finite 1) (f64_mul (f64_mul (Finite 100) (Finite 1024)) (Finite 1024))
      (f64_mul (f64_mul (Finite 100) (Finite 1024)) (Finite 1024))"
    by (rule f64_within_same) (simp_all add: f64_of_rat_numeral f64_lt_def)
  ultimately show ?thesis
    by (simp add: test_parse_ops_read_example_def ops_read_document_read validates_def validate_iff valid_config_def
        del: f64_mul.simps)
      (simp add: ops_read_policy_def f64_within_same F64_EPSILON_def f64_lt_def f64_of_rat_range del: f64_mul.simps)
qed

end
