(* ===== verification/Example_Configs.thy ===== *)
theory Example_Configs
  imports Conformance_Toml Concurrent
begin

text \<open>
  The example configurations the repository ships (\<open>examples/*.toml\<close>) and the test that all of them
  are read and validate (\<open>fusecraft-core/tests/config_examples.rs\<close>), as the trees the parser of TOML
  gives; and what the comments at their heads promise of a run.
\<close>

section \<open>The documents\<close>

definition bandwidth_throttle_toml :: toml where
  "bandwidth_throttle_toml = TTable [
      (''seed'', TInteger 2024),
      (''mount'', TTable [(''direct_io'', TBoolean True)]),
      (''files'', TTable [(''inode_count'', TInteger 100), (''file_size_bytes'', TInteger 10485760),
        (''root_layout'', TString ''flat'')]),
      (''ops'', TTable [
        (''read'', TTable [
          (''concurrency_cap'', TInteger 16),
          (''queue_cap'', TInteger 32),
          (''latency'', TTable [(''base_us'', TInteger 50), (''lognormal_median_us'', TFloat (Finite 100)),
            (''lognormal_sigma'', TFloat (f64_of_rat False (3/10))), (''max_us'', TInteger 500000)]),
          (''bandwidth'', TTable [(''mib_per_sec'', TFloat (Finite 10)), (''burst_bytes'', TInteger 131072)])]),
        (''write'', TTable [
          (''concurrency_cap'', TInteger 8),
          (''queue_cap'', TInteger 16),
          (''latency'', TTable [(''base_us'', TInteger 100), (''lognormal_median_us'', TFloat (Finite 200)),
            (''lognormal_sigma'', TFloat (f64_of_rat False (4/10))), (''max_us'', TInteger 1000000)]),
          (''bandwidth'', TTable [(''mib_per_sec'', TFloat (Finite 5)), (''burst_bytes'', TInteger 65536)])])]),
      (''metrics'', TTable [(''jsonl_path'', TString ''/tmp/fusecraft-bw.jsonl'')])]"

definition fault_injection_toml :: toml where
  "fault_injection_toml = TTable [
      (''seed'', TInteger 7777),
      (''files'', TTable [(''inode_count'', TInteger 500), (''file_size_bytes'', TInteger 65536)]),
      (''ops'', TTable [
        (''read'', TTable [
          (''concurrency_cap'', TInteger 32),
          (''queue_cap'', TInteger 64),
          (''latency'', TTable [(''base_us'', TInteger 100), (''lognormal_median_us'', TFloat (Finite 150)),
            (''lognormal_sigma'', TFloat (f64_of_rat False (4/10))), (''max_us'', TInteger 500000)]),
          (''faults'', TArray [
            TTable [(''op'', TString ''read''), (''errno'', TString ''EIO''),
              (''rate'', TFloat (f64_of_rat False (5/100)))],
            TTable [(''op'', TString ''read''), (''errno'', TString ''EAGAIN''),
              (''rate'', TFloat (f64_of_rat False (2/100)))]])]),
        (''write'', TTable [
          (''concurrency_cap'', TInteger 16),
          (''queue_cap'', TInteger 32),
          (''latency'', TTable [(''base_us'', TInteger 200), (''lognormal_median_us'', TFloat (Finite 300)),
            (''lognormal_sigma'', TFloat (f64_of_rat False (5/10))), (''max_us'', TInteger 1000000)]),
          (''faults'', TArray [
            TTable [(''op'', TString ''write''), (''errno'', TString ''ENOSPC''),
              (''rate'', TFloat (f64_of_rat False (1/10)))],
            TTable [(''op'', TString ''write''), (''errno'', TString ''EIO''),
              (''rate'', TFloat (f64_of_rat False (1/100)))]])]),
        (''open'', TTable [
          (''concurrency_cap'', TInteger 32),
          (''latency'', TTable [(''base_us'', TInteger 50), (''lognormal_median_us'', TFloat (Finite 100)),
            (''lognormal_sigma'', TFloat (f64_of_rat False (3/10))), (''max_us'', TInteger 200000)]),
          (''faults'', TArray [
            TTable [(''op'', TString ''open''), (''errno'', TString ''ENOENT''),
              (''rate'', TFloat (f64_of_rat False (3/100)))]])]),
        (''fsync'', TTable [
          (''concurrency_cap'', TInteger 8),
          (''latency'', TTable [(''base_us'', TInteger 500), (''lognormal_median_us'', TFloat (Finite 1000)),
            (''lognormal_sigma'', TFloat (f64_of_rat False (7/10))), (''max_us'', TInteger 5000000)]),
          (''faults'', TArray [
            TTable [(''op'', TString ''fsync''), (''errno'', TString ''EIO''),
              (''rate'', TFloat (f64_of_rat False (2/100)))]])])]),
      (''metrics'', TTable [(''jsonl_path'', TString ''/tmp/fusecraft-faults.jsonl'')])]"

definition fsync_enospc_toml :: toml where
  "fsync_enospc_toml = TTable [
      (''seed'', TInteger 5150),
      (''mount'', TTable [(''auto_unmount'', TBoolean False), (''default_permissions'', TBoolean True),
        (''read_only'', TBoolean False), (''direct_io'', TBoolean False)]),
      (''files'', TTable [(''inode_count'', TInteger 100), (''file_size_bytes'', TInteger 131072),
        (''root_layout'', TString ''flat''), (''write_mode'', TString ''discard'')]),
      (''ops'', TTable [
        (''open'', TTable [
          (''concurrency_cap'', TInteger 32),
          (''queue_cap'', TInteger 64),
          (''latency'', TTable [(''base_us'', TInteger 50), (''lognormal_median_us'', TFloat (Finite 80)),
            (''lognormal_sigma'', TFloat (f64_of_rat False (3/10))), (''max_us'', TInteger 200000)])]),
        (''write'', TTable [
          (''concurrency_cap'', TInteger 32),
          (''queue_cap'', TInteger 64),
          (''latency'', TTable [(''base_us'', TInteger 100), (''lognormal_median_us'', TFloat (Finite 200)),
            (''lognormal_sigma'', TFloat (f64_of_rat False (4/10))), (''max_us'', TInteger 500000)])]),
        (''fsync'', TTable [
          (''concurrency_cap'', TInteger 16),
          (''queue_cap'', TInteger 32),
          (''latency'', TTable [(''base_us'', TInteger 500), (''lognormal_median_us'', TFloat (Finite 1000)),
            (''lognormal_sigma'', TFloat (f64_of_rat False (4/10))), (''max_us'', TInteger 500000)]),
          (''faults'', TArray [
            TTable [(''op'', TString ''fsync''), (''errno'', TString ''ENOSPC''),
              (''rate'', TFloat (Finite 1))]])]),
        (''flush'', TTable [
          (''concurrency_cap'', TInteger 32),
          (''latency'', TTable [(''base_us'', TInteger 20), (''lognormal_median_us'', TFloat (Finite 50)),
            (''lognormal_sigma'', TFloat (f64_of_rat False (3/10))), (''max_us'', TInteger 200000)])]),
        (''release'', TTable [
          (''concurrency_cap'', TInteger 64),
          (''latency'', TTable [(''base_us'', TInteger 10), (''lognormal_median_us'', TFloat (Finite 30)),
            (''lognormal_sigma'', TFloat (f64_of_rat False (2/10))), (''max_us'', TInteger 100000)])])]),
      (''metrics'', TTable [(''jsonl_path'', TString ''/tmp/fusecraft-fsync-enospc.jsonl'')])]"

definition full_toml :: toml where
  "full_toml = TTable [
      (''seed'', TInteger 42),
      (''mount'', TTable [(''fs_name'', TString ''fusecraft''), (''subtype'', TString ''sim''),
        (''auto_unmount'', TBoolean True), (''default_permissions'', TBoolean True),
        (''read_only'', TBoolean False), (''direct_io'', TBoolean False)]),
      (''files'', TTable [(''inode_count'', TInteger 1000), (''file_size_bytes'', TInteger 65536),
        (''root_layout'', TString ''flat''), (''write_mode'', TString ''discard'')]),
      (''ops'', TTable [
        (''lookup'', TTable [
          (''concurrency_cap'', TInteger 64),
          (''queue_cap'', TInteger 128),
          (''latency'', TTable [(''base_us'', TInteger 10), (''lognormal_median_us'', TFloat (Finite 50)),
            (''lognormal_sigma'', TFloat (f64_of_rat False (4/10))),
            (''pareto_weight'', TFloat (f64_of_rat False (1/100))),
            (''pareto_xm_us'', TFloat (Finite 2000)),
            (''pareto_alpha'', TFloat (f64_of_rat False (15/10))), (''max_us'', TInteger 500000)])]),
        (''getattr'', TTable [
          (''concurrency_cap'', TInteger 64),
          (''queue_cap'', TInteger 128),
          (''latency'', TTable [(''base_us'', TInteger 5), (''lognormal_median_us'', TFloat (Finite 30)),
            (''lognormal_sigma'', TFloat (f64_of_rat False (3/10))),
            (''pareto_weight'', TFloat (Finite 0)), (''pareto_xm_us'', TFloat (Finite 1000)),
            (''pareto_alpha'', TFloat (f64_of_rat False (15/10))), (''max_us'', TInteger 200000)])]),
        (''open'', TTable [
          (''concurrency_cap'', TInteger 32),
          (''queue_cap'', TInteger 64),
          (''latency'', TTable [(''base_us'', TInteger 20), (''lognormal_median_us'', TFloat (Finite 80)),
            (''lognormal_sigma'', TFloat (f64_of_rat False (5/10))),
            (''pareto_weight'', TFloat (f64_of_rat False (2/100))),
            (''pareto_xm_us'', TFloat (Finite 3000)),
            (''pareto_alpha'', TFloat (f64_of_rat False (13/10))), (''max_us'', TInteger 1000000)]),
          (''faults'', TArray [
            TTable [(''op'', TString ''open''), (''errno'', TString ''ENOENT''),
              (''rate'', TFloat (f64_of_rat False (1/1000)))]])]),
        (''read'', TTable [
          (''concurrency_cap'', TInteger 64),
          (''queue_cap'', TInteger 256),
          (''latency'', TTable [(''base_us'', TInteger 50), (''lognormal_median_us'', TFloat (Finite 200)),
            (''lognormal_sigma'', TFloat (f64_of_rat False (6/10))),
            (''pareto_weight'', TFloat (f64_of_rat False (5/100))),
            (''pareto_xm_us'', TFloat (Finite 5000)),
            (''pareto_alpha'', TFloat (f64_of_rat False (12/10))), (''max_us'', TInteger 2000000)]),
          (''bandwidth'', TTable [(''mib_per_sec'', TFloat (Finite 100)), (''burst_bytes'', TInteger 1048576)]),
          (''faults'', TArray [
            TTable [(''op'', TString ''read''), (''errno'', TString ''EIO''),
              (''rate'', TFloat (f64_of_rat False (1/1000)))],
            TTable [(''op'', TString ''read''), (''errno'', TString ''EAGAIN''),
              (''rate'', TFloat (f64_of_rat False (5/1000)))]])]),
        (''write'', TTable [
          (''concurrency_cap'', TInteger 32),
          (''queue_cap'', TInteger 128),
          (''latency'', TTable [(''base_us'', TInteger 100), (''lognormal_median_us'', TFloat (Finite 400)),
            (''lognormal_sigma'', TFloat (f64_of_rat False (7/10))),
            (''pareto_weight'', TFloat (f64_of_rat False (3/100))),
            (''pareto_xm_us'', TFloat (Finite 8000)),
            (''pareto_alpha'', TFloat (f64_of_rat False (11/10))), (''max_us'', TInteger 5000000)]),
          (''bandwidth'', TTable [(''mib_per_sec'', TFloat (Finite 50)), (''burst_bytes'', TInteger 524288)]),
          (''faults'', TArray [
            TTable [(''op'', TString ''write''), (''errno'', TString ''ENOSPC''),
              (''rate'', TFloat (f64_of_rat False (2/1000)))]])]),
        (''flush'', TTable [
          (''concurrency_cap'', TInteger 32),
          (''latency'', TTable [(''base_us'', TInteger 10), (''lognormal_median_us'', TFloat (Finite 50)),
            (''lognormal_sigma'', TFloat (f64_of_rat False (3/10))), (''max_us'', TInteger 500000)])]),
        (''release'', TTable [
          (''concurrency_cap'', TInteger 64),
          (''latency'', TTable [(''base_us'', TInteger 5), (''lognormal_median_us'', TFloat (Finite 20)),
            (''lognormal_sigma'', TFloat (f64_of_rat False (2/10))), (''max_us'', TInteger 100000)])]),
        (''fsync'', TTable [
          (''concurrency_cap'', TInteger 16),
          (''queue_cap'', TInteger 32),
          (''latency'', TTable [(''base_us'', TInteger 500), (''lognormal_median_us'', TFloat (Finite 2000)),
            (''lognormal_sigma'', TFloat (f64_of_rat False (8/10))),
            (''pareto_weight'', TFloat (f64_of_rat False (1/10))),
            (''pareto_xm_us'', TFloat (Finite 20000)), (''pareto_alpha'', TFloat (Finite 1)),
            (''max_us'', TInteger 10000000)]),
          (''faults'', TArray [
            TTable [(''op'', TString ''fsync''), (''errno'', TString ''EIO''),
              (''rate'', TFloat (f64_of_rat False (5/1000)))]])]),
        (''readdir'', TTable [
          (''concurrency_cap'', TInteger 32),
          (''latency'', TTable [(''base_us'', TInteger 100), (''lognormal_median_us'', TFloat (Finite 500)),
            (''lognormal_sigma'', TFloat (f64_of_rat False (5/10))), (''max_us'', TInteger 2000000)])]),
        (''statfs'', TTable [
          (''concurrency_cap'', TInteger 16),
          (''latency'', TTable [(''base_us'', TInteger 10), (''lognormal_median_us'', TFloat (Finite 30)),
            (''lognormal_sigma'', TFloat (f64_of_rat False (3/10))), (''max_us'', TInteger 100000)])])]),
      (''metrics'', TTable [(''jsonl_path'', TString ''/tmp/fusecraft-events.jsonl'')])]"

definition minimal_toml :: toml where
  "minimal_toml = TTable [(''seed'', TInteger 1)]"

definition read_heavy_toml :: toml where
  "read_heavy_toml = TTable [
      (''seed'', TInteger 100),
      (''mount'', TTable [(''read_only'', TBoolean True), (''direct_io'', TBoolean True)]),
      (''files'', TTable [(''inode_count'', TInteger 10000), (''file_size_bytes'', TInteger 1048576),
        (''root_layout'', TString ''flat'')]),
      (''ops'', TTable [
        (''read'', TTable [
          (''concurrency_cap'', TInteger 128),
          (''queue_cap'', TInteger 256),
          (''latency'', TTable [(''base_us'', TInteger 200), (''lognormal_median_us'', TFloat (Finite 500)),
            (''lognormal_sigma'', TFloat (f64_of_rat False (6/10))),
            (''pareto_weight'', TFloat (f64_of_rat False (3/100))),
            (''pareto_xm_us'', TFloat (Finite 10000)),
            (''pareto_alpha'', TFloat (f64_of_rat False (12/10))), (''max_us'', TInteger 2000000)]),
          (''bandwidth'', TTable [(''mib_per_sec'', TFloat (Finite 200)), (''burst_bytes'', TInteger 2097152)])]),
        (''getattr'', TTable [
          (''concurrency_cap'', TInteger 64),
          (''latency'', TTable [(''base_us'', TInteger 50), (''lognormal_median_us'', TFloat (Finite 80)),
            (''lognormal_sigma'', TFloat (f64_of_rat False (3/10))), (''max_us'', TInteger 100000)])]),
        (''lookup'', TTable [
          (''concurrency_cap'', TInteger 64),
          (''latency'', TTable [(''base_us'', TInteger 50), (''lognormal_median_us'', TFloat (Finite 80)),
            (''lognormal_sigma'', TFloat (f64_of_rat False (3/10))), (''max_us'', TInteger 100000)])])]),
      (''metrics'', TTable [(''jsonl_path'', TString ''/tmp/fusecraft-read-heavy.jsonl'')])]"

definition size_tiered_toml :: toml where
  "size_tiered_toml = TTable [
      (''seed'', TInteger 424242),
      (''mount'', TTable [(''auto_unmount'', TBoolean False), (''default_permissions'', TBoolean True),
        (''read_only'', TBoolean False), (''direct_io'', TBoolean False)]),
      (''files'', TTable [(''inode_count'', TInteger 100), (''file_size_bytes'', TInteger 4194304),
        (''root_layout'', TString ''flat''), (''write_mode'', TString ''discard'')]),
      (''ops'', TTable [
        (''read'', TTable [
          (''concurrency_cap'', TInteger 64),
          (''queue_cap'', TInteger 128),
          (''latency'', TTable [(''base_us'', TInteger 2000), (''lognormal_median_us'', TFloat (Finite 500)),
            (''lognormal_sigma'', TFloat (f64_of_rat False (3/10))),
            (''pareto_weight'', TFloat (Finite 0)), (''pareto_xm_us'', TFloat (Finite 1)),
            (''pareto_alpha'', TFloat (f64_of_rat False (15/10))), (''max_us'', TInteger 500000)]),
          (''size_tier'', TTable [
            (''threshold_bytes'', TInteger 131072),
            (''large'', TTable [
              (''latency'', TTable [(''base_us'', TInteger 50000), (''lognormal_median_us'', TFloat (Finite 10000)),
                (''lognormal_sigma'', TFloat (f64_of_rat False (5/10))),
                (''pareto_weight'', TFloat (f64_of_rat False (2/100))),
                (''pareto_xm_us'', TFloat (Finite 50000)),
                (''pareto_alpha'', TFloat (f64_of_rat False (13/10))), (''max_us'', TInteger 2000000)]),
              (''bandwidth'', TTable [(''mib_per_sec'', TFloat (Finite 850)), (''burst_bytes'', TInteger 1048576)])])])]),
        (''write'', TTable [
          (''concurrency_cap'', TInteger 32),
          (''queue_cap'', TInteger 64),
          (''latency'', TTable [(''base_us'', TInteger 2000), (''lognormal_median_us'', TFloat (Finite 500)),
            (''lognormal_sigma'', TFloat (f64_of_rat False (3/10))), (''max_us'', TInteger 500000)]),
          (''size_tier'', TTable [
            (''threshold_bytes'', TInteger 131072),
            (''large'', TTable [
              (''latency'', TTable [(''base_us'', TInteger 50000), (''lognormal_median_us'', TFloat (Finite 10000)),
                (''lognormal_sigma'', TFloat (f64_of_rat False (5/10))),
                (''pareto_weight'', TFloat (f64_of_rat False (2/100))),
                (''pareto_xm_us'', TFloat (Finite 50000)),
                (''pareto_alpha'', TFloat (f64_of_rat False (13/10))), (''max_us'', TInteger 2000000)]),
              (''bandwidth'', TTable [(''mib_per_sec'', TFloat (Finite 850)), (''burst_bytes'', TInteger 1048576)])])])]),
        (''open'', TTable [
          (''concurrency_cap'', TInteger 32),
          (''queue_cap'', TInteger 64),
          (''latency'', TTable [(''base_us'', TInteger 100), (''lognormal_median_us'', TFloat (Finite 150)),
            (''lognormal_sigma'', TFloat (f64_of_rat False (3/10))), (''max_us'', TInteger 200000)])]),
        (''getattr'', TTable [
          (''concurrency_cap'', TInteger 64),
          (''latency'', TTable [(''base_us'', TInteger 20), (''lognormal_median_us'', TFloat (Finite 40)),
            (''lognormal_sigma'', TFloat (f64_of_rat False (3/10))), (''max_us'', TInteger 100000)])]),
        (''lookup'', TTable [
          (''concurrency_cap'', TInteger 64),
          (''latency'', TTable [(''base_us'', TInteger 20), (''lognormal_median_us'', TFloat (Finite 40)),
            (''lognormal_sigma'', TFloat (f64_of_rat False (3/10))), (''max_us'', TInteger 100000)])])]),
      (''metrics'', TTable [(''jsonl_path'', TString ''/tmp/fusecraft-size-tiered.jsonl'')])]"

definition write_fsync_tail_toml :: toml where
  "write_fsync_tail_toml = TTable [
      (''seed'', TInteger 314),
      (''mount'', TTable [(''auto_unmount'', TBoolean False), (''default_permissions'', TBoolean True),
        (''read_only'', TBoolean False), (''direct_io'', TBoolean False)]),
      (''files'', TTable [(''inode_count'', TInteger 200), (''file_size_bytes'', TInteger 262144),
        (''root_layout'', TString ''flat''), (''write_mode'', TString ''discard'')]),
      (''ops'', TTable [
        (''open'', TTable [
          (''concurrency_cap'', TInteger 64),
          (''queue_cap'', TInteger 128),
          (''latency'', TTable [(''base_us'', TInteger 50), (''lognormal_median_us'', TFloat (Finite 120)),
            (''lognormal_sigma'', TFloat (f64_of_rat False (4/10))),
            (''pareto_weight'', TFloat (Finite 0)), (''pareto_xm_us'', TFloat (Finite 1)),
            (''pareto_alpha'', TFloat (f64_of_rat False (15/10))), (''max_us'', TInteger 500000)])]),
        (''write'', TTable [
          (''concurrency_cap'', TInteger 32),
          (''queue_cap'', TInteger 128),
          (''latency'', TTable [(''base_us'', TInteger 100), (''lognormal_median_us'', TFloat (Finite 250)),
            (''lognormal_sigma'', TFloat (f64_of_rat False (5/10))),
            (''pareto_weight'', TFloat (f64_of_rat False (1/100))),
            (''pareto_xm_us'', TFloat (Finite 5000)),
            (''pareto_alpha'', TFloat (f64_of_rat False (14/10))), (''max_us'', TInteger 2000000)]),
          (''bandwidth'', TTable [(''mib_per_sec'', TFloat (Finite 50)), (''burst_bytes'', TInteger 524288)])]),
        (''flush'', TTable [
          (''concurrency_cap'', TInteger 32),
          (''queue_cap'', TInteger 64),
          (''latency'', TTable [(''base_us'', TInteger 20), (''lognormal_median_us'', TFloat (Finite 80)),
            (''lognormal_sigma'', TFloat (f64_of_rat False (3/10))),
            (''pareto_weight'', TFloat (Finite 0)), (''pareto_xm_us'', TFloat (Finite 1)),
            (''pareto_alpha'', TFloat (f64_of_rat False (15/10))), (''max_us'', TInteger 500000)])]),
        (''fsync'', TTable [
          (''concurrency_cap'', TInteger 8),
          (''queue_cap'', TInteger 32),
          (''latency'', TTable [(''base_us'', TInteger 1000), (''lognormal_median_us'', TFloat (Finite 3000)),
            (''lognormal_sigma'', TFloat (f64_of_rat False (6/10))),
            (''pareto_weight'', TFloat (f64_of_rat False (5/100))),
            (''pareto_xm_us'', TFloat (Finite 20000)),
            (''pareto_alpha'', TFloat (f64_of_rat False (11/10))), (''max_us'', TInteger 500000)]),
          (''faults'', TArray [
            TTable [(''op'', TString ''fsync''), (''errno'', TString ''EIO''),
              (''rate'', TFloat (f64_of_rat False (2/1000)))]])]),
        (''release'', TTable [
          (''concurrency_cap'', TInteger 64),
          (''latency'', TTable [(''base_us'', TInteger 10), (''lognormal_median_us'', TFloat (Finite 40)),
            (''lognormal_sigma'', TFloat (f64_of_rat False (3/10))),
            (''pareto_weight'', TFloat (Finite 0)), (''pareto_xm_us'', TFloat (Finite 1)),
            (''pareto_alpha'', TFloat (f64_of_rat False (15/10))), (''max_us'', TInteger 100000)])])]),
      (''metrics'', TTable [(''jsonl_path'', TString ''/tmp/fusecraft-write-fsync-tail.jsonl'')])]"

definition zero_latency_toml :: toml where
  "zero_latency_toml = TTable [
      (''seed'', TInteger 1),
      (''mount'', TTable [(''auto_unmount'', TBoolean False), (''default_permissions'', TBoolean False),
        (''read_only'', TBoolean False), (''direct_io'', TBoolean False)]),
      (''files'', TTable [(''inode_count'', TInteger 64), (''file_size_bytes'', TInteger 4096),
        (''root_layout'', TString ''flat''), (''write_mode'', TString ''discard'')]),
      (''ops'', TTable [
        (''lookup'', TTable [
          (''concurrency_cap'', TInteger 32),
          (''queue_cap'', TInteger 128),
          (''latency'', TTable [(''base_us'', TInteger 0), (''lognormal_median_us'', TFloat (Finite 0)),
            (''lognormal_sigma'', TFloat (Finite 0)), (''pareto_weight'', TFloat (Finite 0)),
            (''pareto_xm_us'', TFloat (Finite 1)),
            (''pareto_alpha'', TFloat (f64_of_rat False (15/10))), (''max_us'', TInteger 0)])]),
        (''getattr'', TTable [
          (''concurrency_cap'', TInteger 32),
          (''queue_cap'', TInteger 128),
          (''latency'', TTable [(''base_us'', TInteger 0), (''lognormal_median_us'', TFloat (Finite 0)),
            (''lognormal_sigma'', TFloat (Finite 0)), (''pareto_weight'', TFloat (Finite 0)),
            (''pareto_xm_us'', TFloat (Finite 1)),
            (''pareto_alpha'', TFloat (f64_of_rat False (15/10))), (''max_us'', TInteger 0)])]),
        (''open'', TTable [
          (''concurrency_cap'', TInteger 32),
          (''queue_cap'', TInteger 128),
          (''latency'', TTable [(''base_us'', TInteger 0), (''lognormal_median_us'', TFloat (Finite 0)),
            (''lognormal_sigma'', TFloat (Finite 0)), (''pareto_weight'', TFloat (Finite 0)),
            (''pareto_xm_us'', TFloat (Finite 1)),
            (''pareto_alpha'', TFloat (f64_of_rat False (15/10))), (''max_us'', TInteger 0)])]),
        (''read'', TTable [
          (''concurrency_cap'', TInteger 32),
          (''queue_cap'', TInteger 128),
          (''latency'', TTable [(''base_us'', TInteger 0), (''lognormal_median_us'', TFloat (Finite 0)),
            (''lognormal_sigma'', TFloat (Finite 0)), (''pareto_weight'', TFloat (Finite 0)),
            (''pareto_xm_us'', TFloat (Finite 1)),
            (''pareto_alpha'', TFloat (f64_of_rat False (15/10))), (''max_us'', TInteger 0)])]),
        (''write'', TTable [
          (''concurrency_cap'', TInteger 32),
          (''queue_cap'', TInteger 128),
          (''latency'', TTable [(''base_us'', TInteger 0), (''lognormal_median_us'', TFloat (Finite 0)),
            (''lognormal_sigma'', TFloat (Finite 0)), (''pareto_weight'', TFloat (Finite 0)),
            (''pareto_xm_us'', TFloat (Finite 1)),
            (''pareto_alpha'', TFloat (f64_of_rat False (15/10))), (''max_us'', TInteger 0)])]),
        (''flush'', TTable [
          (''concurrency_cap'', TInteger 32),
          (''queue_cap'', TInteger 128),
          (''latency'', TTable [(''base_us'', TInteger 0), (''lognormal_median_us'', TFloat (Finite 0)),
            (''lognormal_sigma'', TFloat (Finite 0)), (''pareto_weight'', TFloat (Finite 0)),
            (''pareto_xm_us'', TFloat (Finite 1)),
            (''pareto_alpha'', TFloat (f64_of_rat False (15/10))), (''max_us'', TInteger 0)])]),
        (''release'', TTable [
          (''concurrency_cap'', TInteger 32),
          (''queue_cap'', TInteger 128),
          (''latency'', TTable [(''base_us'', TInteger 0), (''lognormal_median_us'', TFloat (Finite 0)),
            (''lognormal_sigma'', TFloat (Finite 0)), (''pareto_weight'', TFloat (Finite 0)),
            (''pareto_xm_us'', TFloat (Finite 1)),
            (''pareto_alpha'', TFloat (f64_of_rat False (15/10))), (''max_us'', TInteger 0)])]),
        (''fsync'', TTable [
          (''concurrency_cap'', TInteger 32),
          (''queue_cap'', TInteger 128),
          (''latency'', TTable [(''base_us'', TInteger 0), (''lognormal_median_us'', TFloat (Finite 0)),
            (''lognormal_sigma'', TFloat (Finite 0)), (''pareto_weight'', TFloat (Finite 0)),
            (''pareto_xm_us'', TFloat (Finite 1)),
            (''pareto_alpha'', TFloat (f64_of_rat False (15/10))), (''max_us'', TInteger 0)])]),
        (''readdir'', TTable [
          (''concurrency_cap'', TInteger 32),
          (''queue_cap'', TInteger 128),
          (''latency'', TTable [(''base_us'', TInteger 0), (''lognormal_median_us'', TFloat (Finite 0)),
            (''lognormal_sigma'', TFloat (Finite 0)), (''pareto_weight'', TFloat (Finite 0)),
            (''pareto_xm_us'', TFloat (Finite 1)),
            (''pareto_alpha'', TFloat (f64_of_rat False (15/10))), (''max_us'', TInteger 0)])]),
        (''statfs'', TTable [
          (''concurrency_cap'', TInteger 32),
          (''queue_cap'', TInteger 128),
          (''latency'', TTable [(''base_us'', TInteger 0), (''lognormal_median_us'', TFloat (Finite 0)),
            (''lognormal_sigma'', TFloat (Finite 0)), (''pareto_weight'', TFloat (Finite 0)),
            (''pareto_xm_us'', TFloat (Finite 1)),
            (''pareto_alpha'', TFloat (f64_of_rat False (15/10))), (''max_us'', TInteger 0)])]),
        (''access'', TTable [
          (''concurrency_cap'', TInteger 32),
          (''queue_cap'', TInteger 128),
          (''latency'', TTable [(''base_us'', TInteger 0), (''lognormal_median_us'', TFloat (Finite 0)),
            (''lognormal_sigma'', TFloat (Finite 0)), (''pareto_weight'', TFloat (Finite 0)),
            (''pareto_xm_us'', TFloat (Finite 1)),
            (''pareto_alpha'', TFloat (f64_of_rat False (15/10))), (''max_us'', TInteger 0)])])])]"

section \<open>All of them are read and validate\<close>

lemma toml_prims_accepts [simp]:
  "accepts (de_u64 toml_prims) ok (TInteger n) \<longleftrightarrow> 0 \<le> n \<and> n < 2 ^ 64 \<and> ok (of_int n)"
  "accepts (de_f64 toml_prims) ok1 (TFloat x) \<longleftrightarrow> ok1 x"
  "accepts (de_string toml_prims) ok2 (TString s) \<longleftrightarrow> ok2 s"
  "accepts (de_bool toml_prims) ok3 (TBoolean b) \<longleftrightarrow> ok3 b"
  by (auto simp: accepts_def toml_prims_def)

lemma serde_names:
  "FsOp_of_serde ''lookup'' = Some Lookup" "FsOp_of_serde ''getattr'' = Some GetAttr" "FsOp_of_serde ''open'' = Some Open"
  "FsOp_of_serde ''read'' = Some Read" "FsOp_of_serde ''write'' = Some FsOp.Write" "FsOp_of_serde ''flush'' = Some Flush"
  "FsOp_of_serde ''release'' = Some Release" "FsOp_of_serde ''fsync'' = Some Fsync" "FsOp_of_serde ''readdir'' = Some Readdir"
  "FsOp_of_serde ''statfs'' = Some Statfs" "FsOp_of_serde ''access'' = Some Access"
  by (simp_all add: FsOp_of_serde_def FsOp_ALL_def flip: as_str_serde_name)

lemma accepts_op [simp]: "accepts (de_op toml_prims) ok (TString s) \<longleftrightarrow> (case FsOp_of_serde s of None \<Rightarrow> False | Some f \<Rightarrow> ok f)"
  by (simp add: accepts_def de_op_def toml_prims_def)

lemma valid_faults_list_all: "valid_faults f = list_all (\<lambda>r. rule_op r = f \<and> unit_interval (rule_rate r))"
  by (auto simp: fun_eq_iff valid_faults_def list_all_iff)

lemma accepts_mount:
  "accepts (de_mount P) (\<lambda>_. True) (TTable t)
     \<longleftrightarrow> list_all (\<lambda>(k, de, d). field_accepts t k de (Some d) (\<lambda>_. True))
           [(''fs_name'', de_string P, default_fs_name), (''subtype'', de_string P, default_subtype)]
       \<and> list_all (\<lambda>(k, b). field_accepts t k (de_bool P) (Some b) (\<lambda>_. True))
           [(''auto_unmount'', True), (''default_permissions'', True), (''read_only'', False), (''direct_io'', False)]"
  by (auto simp: accepts_iff de_mount_def as_table_def field_accepts_iff split: bind_splits)

lemma accepts_files:
  "accepts (de_files P) (\<lambda>f. inode_count f \<noteq> 0 \<and> file_size_bytes f \<noteq> 0) (TTable t)
     \<longleftrightarrow> field_accepts t ''inode_count'' (de_u64 P) (Some default_inode_count) (\<lambda>n. n \<noteq> 0)
       \<and> field_accepts t ''file_size_bytes'' (de_u64 P) (Some default_file_size_bytes) (\<lambda>n. n \<noteq> 0)
       \<and> field_accepts t ''root_layout'' (de_root_layout P) (Some Flat) (\<lambda>_. True)
       \<and> field_accepts t ''write_mode'' (de_write_mode P) (Some Discard) (\<lambda>_. True)"
  by (auto simp: accepts_iff de_files_def as_table_def field_accepts_iff split: bind_splits)

lemma accepts_metrics:
  "accepts (de_metrics P) (\<lambda>_. True) (TTable t)
     \<longleftrightarrow> field_accepts t ''jsonl_path'' (de_string P) (Some []) (\<lambda>_. True)"
  by (auto simp: accepts_iff de_metrics_def as_table_def field_accepts_def field_def split: bind_splits option.splits)

lemma accepts_enums [simp]:
  "accepts (de_root_layout toml_prims) (\<lambda>_. True) (TString ''flat'')"
  "accepts (de_write_mode toml_prims) (\<lambda>_. True) (TString ''discard'')"
  by (simp_all add: accepts_def de_root_layout_def de_write_mode_def toml_prims_def)

lemma valid_latency_default: "valid_latency LatencyProfile_default"
  by (simp add: valid_latency_def unit_interval_def nonneg_finite_def test_config_simps)

lemmas acceptance = accepts_config accepts_ops accepts_policy accepts_tier accepts_large accepts_vec accepts_fault
  accepts_bandwidth accepts_map valid_faults_list_all accepts_mount accepts_files accepts_metrics
  serde_names field_accepts_def valid_latency_default
  f64_of_rat_unit f64_of_rat_range f64_of_rat_numeral FilesConfig_default_def default_value_defs parse_errno_def

lemmas latency_acceptance = accepts_def de_latency_def as_table_def field_def toml_prims_def valid_latency_def
  default_value_defs unit_interval_def nonneg_finite_def f64_of_rat_unit [unfolded unit_interval_def] f64_of_rat_range
  f64_of_rat_ge_one

lemma bandwidth_throttle_accepted: "accepts (de_config toml_prims) validates bandwidth_throttle_toml"
  by (simp add: bandwidth_throttle_toml_def acceptance) (simp add: latency_acceptance)

lemma fault_injection_accepted: "accepts (de_config toml_prims) validates fault_injection_toml"
  by (simp add: fault_injection_toml_def acceptance) (simp add: latency_acceptance)

lemma fsync_enospc_accepted: "accepts (de_config toml_prims) validates fsync_enospc_toml"
  by (simp add: fsync_enospc_toml_def acceptance) (simp add: latency_acceptance)

lemma full_accepted: "accepts (de_config toml_prims) validates full_toml"
  by (simp add: full_toml_def acceptance) (simp add: latency_acceptance)

lemma minimal_accepted: "accepts (de_config toml_prims) validates minimal_toml"
  by (simp add: minimal_toml_def acceptance)

lemma read_heavy_accepted: "accepts (de_config toml_prims) validates read_heavy_toml"
  by (simp add: read_heavy_toml_def acceptance) (simp add: latency_acceptance)

lemma size_tiered_accepted: "accepts (de_config toml_prims) validates size_tiered_toml"
  by (simp add: size_tiered_toml_def acceptance) (simp add: latency_acceptance)

lemma write_fsync_tail_accepted: "accepts (de_config toml_prims) validates write_fsync_tail_toml"
  by (simp add: write_fsync_tail_toml_def acceptance) (simp add: latency_acceptance)

lemma zero_latency_accepted: "accepts (de_config toml_prims) validates zero_latency_toml"
  by (simp add: zero_latency_toml_def acceptance) (simp add: latency_acceptance)

text \<open>The tests of \<open>config_examples.rs\<close> over the directory of the documents.\<close>

definition example_configs :: "toml list" where
  "example_configs = [bandwidth_throttle_toml, fault_injection_toml, fsync_enospc_toml, full_toml, minimal_toml,
     read_heavy_toml, size_tiered_toml, write_fsync_tail_toml, zero_latency_toml]"

definition test_all_example_configs_parse_and_validate :: bool where
  "test_all_example_configs_parse_and_validate \<longleftrightarrow>
     example_configs \<noteq> [] \<and> list_all (accepts (de_config toml_prims) validates) example_configs"

lemma all_example_configs_pass: "test_all_example_configs_parse_and_validate"
  by (simp add: test_all_example_configs_parse_and_validate_def example_configs_def bandwidth_throttle_accepted
      fault_injection_accepted fsync_enospc_accepted full_accepted minimal_accepted read_heavy_accepted
      size_tiered_accepted write_fsync_tail_accepted zero_latency_accepted)

section \<open>What the examples promise\<close>

lemmas document_reading = de_config_def de_ops_def de_policy_def de_latency_def de_bandwidth_def de_vec_def de_fault_def
  de_op_def de_tier_def de_large_def de_mount_def de_files_def de_root_layout_def de_write_mode_def de_metrics_def
  field_def as_table_def as_array_def toml_prims_def FaultRule_of_raw_def parse_errno_def BandwidthProfile_of_raw_def
  serde_names

text \<open>\<open>zero_latency.toml\<close>: every operation samples a constant latency of zero and none fails or is
  throttled, so the lifecycle injects nothing.\<close>

definition zero_policy :: OpPolicy where
  "zero_policy = \<lparr>concurrency_cap = 32, queue_cap = 128,
     latency = \<lparr>base_us = 0, lognormal_median_us = Finite 0, lognormal_sigma = Finite 0, pareto_weight = Finite 0,
       pareto_xm_us = Finite 1, pareto_alpha = f64_of_rat False (15/10), max_us = 0\<rparr>,
     bandwidth = None, faults = [], size_tier = None\<rparr>"

lemma zero_latency_read:
  "map_option cfg_ops (de_config toml_prims zero_latency_toml) = Some (map (\<lambda>f. (f, zero_policy)) FsOp_ALL)"
  by (simp add: zero_latency_toml_def zero_policy_def FsOp_ALL_def document_reading)

lemma zero_latency_policy: "de_config toml_prims zero_latency_toml = Some cfg \<Longrightarrow> policy_for cfg f = zero_policy"
  using zero_latency_read by (cases f) (simp_all add: policy_for_def FsOp_ALL_def)

lemma zero_latency_injects_nothing:
  fixes env :: "('r, 's, 'h) engine_env"
  assumes "de_config toml_prims zero_latency_toml = Some cfg"
    and "engine_of cfg eng" "eng_resources eng (ctx_op ctx) = Some res"
  shows "fst (op_sample env eng res ctx seq now) = (None, 0, 0)"
proof -
  note p = zero_latency_policy [OF assms(1)]
  have "\<not> throttled zero_policy ctx" by (simp add: throttled_def zero_policy_def routed_large_def)
  moreover have "resources_of zero_policy res" using resources_ofI [OF assms(2,3)] by (simp add: p)
  ultimately have "snd (snd (fst (op_sample env eng res ctx seq now))) = 0" by (rule op_sample_delay [rotated])
  moreover have "decided_fault g cfg ctx seq = None" for g :: "'r rng"
    by (simp add: decided_fault_def p) (simp add: zero_policy_def routed_large_def sample_fault_def)
  moreover have "sample_latency_us m g (latency zero_policy) k = 0" for m k and g :: "'r rng"
    by (subst sample_latency_fixed) (simp_all add: zero_policy_def f64_lt_def)
  then have "decided_latency m g cfg ctx seq = 0" for m and g :: "'r rng"
    by (simp add: decided_latency_def p routed_large_def) (simp add: zero_policy_def)
  ultimately show ?thesis by (simp add: prod_eq_iff op_sample_decides [OF assms(2,3)])
qed

text \<open>\<open>fsync_enospc.toml\<close>: every fsync is decided to fail with ENOSPC and no other operation fails.\<close>

lemma fsync_enospc_read:
  "map_option (\<lambda>cfg. map (\<lambda>(f, p). (f, faults p, size_tier p)) (cfg_ops cfg)) (de_config toml_prims fsync_enospc_toml)
     = Some [(Open, [], None), (FsOp.Write, [], None),
         (Fsync, [\<lparr>rule_op = Fsync, rule_errno = ENOSPC, rule_rate = Finite 1\<rparr>], None), (Flush, [], None), (Release, [], None)]"
  by (simp add: fsync_enospc_toml_def document_reading)

lemma fsync_enospc_faults:
  assumes "de_config toml_prims fsync_enospc_toml = Some cfg" "rng_unit g"
  shows "decided_fault g cfg ctx seq = (if ctx_op ctx = Fsync then Some ENOSPC else None)"
proof -
  let ?rule = "\<lparr>rule_op = Fsync, rule_errno = ENOSPC, rule_rate = Finite 1\<rparr>"
  have ops: "map (\<lambda>(f, p). (f, faults p, size_tier p)) (cfg_ops cfg)
      = [(Open, [], None), (FsOp.Write, [], None), (Fsync, [?rule], None), (Flush, [], None), (Release, [], None)]"
    using fsync_enospc_read assms(1) by simp
  then have "faults (policy_for cfg f) = (if f = Fsync then [?rule] else []) \<and> size_tier (policy_for cfg f) = None" for f
    by (cases f) (auto simp: policy_for_def OpPolicy_default_def map_eq_Cons_conv split: option.split)
  then show ?thesis
    by (simp add: decided_fault_def routed_large_def sample_fault_def config_key_def case_prod_unfold rng_unitD [OF assms(2)])
qed

text \<open>\<open>size_tiered.toml\<close>: a read or write of at most 128 KiB is decided by the base policy and never
  throttled, a longer one by the large tier, whose bucket it is charged to.\<close>

lemma size_tiered_read:
  "map_option (\<lambda>cfg. map (\<lambda>(f, p). (f, bandwidth p, map_option (\<lambda>t. (threshold_bytes t, large_bandwidth (tier_large t))) (size_tier p)))
      (cfg_ops cfg)) (de_config toml_prims size_tiered_toml)
   = Some [(Read, None, Some (131072, Some \<lparr>bytes_per_sec = Finite 891289600, burst_bytes = 1048576\<rparr>)),
       (FsOp.Write, None, Some (131072, Some \<lparr>bytes_per_sec = Finite 891289600, burst_bytes = 1048576\<rparr>)),
       (Open, None, None), (GetAttr, None, None), (Lookup, None, None)]"
  by (simp add: size_tiered_toml_def document_reading f64_of_rat_numeral)

lemma size_tiered_routes:
  assumes "de_config toml_prims size_tiered_toml = Some cfg"
  shows "routed_large (policy_for cfg f) f n \<longleftrightarrow> is_data_ctx f \<and> 131072 < n"
    and "throttled (policy_for cfg (ctx_op ctx)) ctx
      \<longleftrightarrow> is_data_ctx (ctx_op ctx) \<and> ctx_len ctx \<noteq> 0 \<and> 131072 < ctx_requested_len ctx"
proof -
  let ?large = "Some (131072 :: u64, Some \<lparr>bytes_per_sec = Finite 891289600, burst_bytes = 1048576\<rparr>)"
  have "map (\<lambda>(f, p). (f, bandwidth p, map_option (\<lambda>t. (threshold_bytes t, large_bandwidth (tier_large t))) (size_tier p))) (cfg_ops cfg)
      = [(Read, None, ?large), (FsOp.Write, None, ?large), (Open, None, None), (GetAttr, None, None), (Lookup, None, None)]"
    using size_tiered_read assms by simp
  then have p: "bandwidth (policy_for cfg f) = None
      \<and> map_option (\<lambda>t. (threshold_bytes t, large_bandwidth (tier_large t))) (size_tier (policy_for cfg f))
        = (if is_data_ctx f then ?large else None)" for f
    by (cases f) (auto simp: policy_for_def OpPolicy_default_def map_eq_Cons_conv is_data_ctx_def split: option.split)
  show route: "routed_large (policy_for cfg f) f n \<longleftrightarrow> is_data_ctx f \<and> 131072 < n" for f n
    using p [of f] by (cases "size_tier (policy_for cfg f)") (auto simp: routed_large_def split: if_splits)
  show "throttled (policy_for cfg (ctx_op ctx)) ctx
      \<longleftrightarrow> is_data_ctx (ctx_op ctx) \<and> ctx_len ctx \<noteq> 0 \<and> 131072 < ctx_requested_len ctx"
    using p [of "ctx_op ctx"] by (auto simp: throttled_def route split: if_splits)
qed

end
