(* ===== verification/Scenarios.thy ===== *)
theory Scenarios
  imports Example_Configs Session
begin

text \<open>
  What an application sees under a shipped configuration: the whole way from the document
  (\<open>examples/*.toml\<close>) over the validated configuration, the engine and the handlers to the replies
  of a session.
\<close>

section \<open>Sessions with constant decisions\<close>

text \<open>The reply to a request when the fault of an operation does not depend on the request.\<close>

definition result_reply :: "'b reply fs_result \<Rightarrow> 'b reply" where
  "result_reply r = (case r of Inr rep \<Rightarrow> rep | Inl e \<Rightarrow> Reply_error (errno_to_fuser (as_errno e)))"

definition constant_reply ::
    "(FsOp \<Rightarrow> i32 option) \<Rightarrow> 'b add_entry \<Rightarrow> 'b \<Rightarrow> ('s, 'h) FaultFs \<Rightarrow> request \<Rightarrow> 'b reply" where
  "constant_reply fault add b fs r = (case fault (request_op r) of
     Some errno \<Rightarrow> Reply_error (errno_to_fuser errno) | None \<Rightarrow> result_reply (unfaulted_reply add b fs r))"

lemma serve_all_constant:
  assumes "valid_config config" "engine_ok config fs" "idle fs" "histogram_constructs (env_hdr env)"
    and "unlimited_config config" "\<And>ctx seq. decided_fault (env_rng env) config ctx seq = fault (ctx_op ctx)"
    and "serve_all env add b fs reqs = (outs, fs')"
  shows "outs = map (\<lambda>(req, t). Replies (constant_reply fault add b fs req)) reqs"
  using assms(2,3,7)
proof (induction reqs arbitrary: fs outs)
  case (Cons x reqs)
  obtain req t where x: "x = (req, t)" by fastforce
  obtain out fs1 where one: "serve_one env add b fs req t = (out, fs1)" by fastforce
  obtain outs2 where rest: "serve_all env add b fs1 reqs = (outs2, fs')" "outs = out # outs2"
    using Cons.prems(3) by (auto simp: x one split: prod.splits)
  note idle = serve_one_idle [OF assms(1) Cons.prems(1,2) assms(4) one]
  obtain rep where out: "out = Replies rep"
    using idle unlimited_not_throttled [OF unlimited_config_policy [OF assms(5)]] by (cases out) auto
  note step = serve_one_replied [OF Cons.prems(1) one [unfolded out]]
  have "rep = constant_reply fault add b fs req"
    using step idle_admits [OF assms(1) Cons.prems(1,2)]
    by (auto simp: replied_def reply_for_def assms(6) constant_reply_def result_reply_def split: option.split sum.split)
  moreover have "fs1 = fs\<lparr>fs_engine := fs_engine fs1\<rparr>" using step unfolding replied_def by blast
  then have "unfaulted_reply add b fs1 r = unfaulted_reply add b fs r" for r
    using only_engine_changed by (intro same_files_unfaulted) (simp add: same_files_def)
  then have "constant_reply fault add b fs1 r = constant_reply fault add b fs r" for r
    by (simp add: constant_reply_def split: option.split)
  ultimately show ?case using Cons.IH [OF _ _ rest(1)] idle by (simp add: x out rest(2))
qed simp

lemma fsync_enospc_unlimited: "map_option unlimited_config (de_config toml_prims fsync_enospc_toml) = Some True"
  by (simp add: fsync_enospc_toml_def document_reading unlimited_config_def unlimited_bandwidth_def)

lemma zero_latency_unlimited: "map_option unlimited_config (de_config toml_prims zero_latency_toml) = Some True"
  by (simp add: zero_latency_toml_def document_reading unlimited_config_def unlimited_bandwidth_def)

text \<open>Under \<open>zero_latency.toml\<close> a session is that of a fault-free filesystem.\<close>

lemma zero_latency_session:
  assumes "de_config toml_prims zero_latency_toml = Some config" "histogram_constructs (env_hdr env)"
    and "fs = FaultFs_new (SimEngine_new config sink now) ns c" "serve_all env add b fs reqs = (outs, fs')"
  shows "outs = map (\<lambda>(r, t). Replies (result_reply (unfaulted_reply add b fs r))) reqs"
proof -
  have v: "valid_config config"
    using zero_latency_accepted assms(1) by (simp add: accepts_def validates_def validate_iff)
  have u: "unlimited_config config" using zero_latency_unlimited assms(1) by simp
  have "decided_fault (env_rng env) config ctx seq = None" for ctx seq
    by (simp add: decided_fault_def zero_latency_policy [OF assms(1)])
      (simp add: zero_policy_def routed_large_def sample_fault_def)
  from serve_all_constant [OF v _ _ assms(2) u this assms(4)] show ?thesis
    by (simp add: constant_reply_def assms(3) engine_ok_new idle_new)
qed

section \<open>Properties\<close>

text \<open>C23. Under \<open>fsync_enospc.toml\<close> every write is accepted and no fsync succeeds: a session
  of any requests gets a reply to each, ENOSPC to every fsync, and to every other request the
  reply of a fault-free filesystem, for every generator, clock and log.\<close>

theorem fsync_enospc_session:
  assumes "de_config toml_prims fsync_enospc_toml = Some config"
    and "rng_unit (env_rng env)" "histogram_constructs (env_hdr env)"
    and "fs = FaultFs_new (SimEngine_new config sink now) ns c" "serve_all env add b fs reqs = (outs, fs')"
  shows "validate config = Ok ()
    \<and> outs = map (\<lambda>(r, t). Replies (if request_op r = Fsync then Reply_error (errno_to_fuser ENOSPC)
        else result_reply (unfaulted_reply add b fs r))) reqs"
proof -
  have v: "validate config = Ok ()"
    using fsync_enospc_accepted assms(1) by (simp add: accepts_def validates_def)
  have u: "unlimited_config config" using fsync_enospc_unlimited assms(1) by simp
  have "decided_fault (env_rng env) config ctx seq = (\<lambda>f. if f = Fsync then Some ENOSPC else None) (ctx_op ctx)" for ctx seq
    using fsync_enospc_faults [OF assms(1,2)] by simp
  from serve_all_constant [OF _ _ _ assms(3) u this assms(5)] v show ?thesis
    by (auto simp: validate_iff constant_reply_def assms(4) engine_ok_new idle_new)
qed

theorem fsync_enospc_session_witness:
  "\<exists>config outs fs'. de_config toml_prims fsync_enospc_toml = Some config
    \<and> serve_all demo_env (bounded_reply 1) [] (FaultFs_new (SimEngine_new config [] (\<lambda>_ _. 0)) small_ns (DeterministicContent_new 42 10))
        [(Req_write 100 0 [1, 2, 3], demo_times), (Req_fsync 100, demo_times), (Req_flush 100, demo_times)] = (outs, fs')
    \<and> outs = [Replies (Reply_written 3), Replies (Reply_error (errno_to_fuser ENOSPC)), Replies Reply_ok]"
proof -
  obtain config where config: "de_config toml_prims fsync_enospc_toml = Some config"
    using fsync_enospc_accepted by (auto simp: accepts_iff)
  let ?reqs = "[(Req_write 100 0 [1, 2, 3], demo_times), (Req_fsync 100, demo_times), (Req_flush 100, demo_times)]"
  let ?fs = "FaultFs_new (SimEngine_new config [] (\<lambda>_ _. 0)) small_ns (DeterministicContent_new 42 10)"
  obtain outs fs' where run: "serve_all demo_env (bounded_reply 1) [] ?fs ?reqs = (outs, fs')" by fastforce
  have "rng_unit (env_rng demo_env)" by (simp add: demo_env_def lcg_rng_unit)
  from fsync_enospc_session [OF config this demo_constructs refl run] config run show ?thesis
    by (simp add: result_reply_def write_at_def)
qed

end
