(* ===== verification/Spec2Isabelle.thy ===== *)
theory Spec2Isabelle
  imports Float64_Order Progress Throttle Conformance_Cli Conformance_Files Conformance_Limits Conformance_Services Conformance_Engine Scenarios
begin

text \<open>
  \<^bold>\<open>A verification development of fusecraft-rs\<close>

  fusecraft is a FUSE filesystem that simulates a slow and faulty store: every request of the
  kernel becomes an operation of an engine, which lets it through a concurrency limiter,
  decides from a hash of seed, operation, inode, offset, length and sequence number whether it
  fails and how long it takes, charges a token bucket, sleeps, computes the reply from a
  synthetic namespace and content, and logs an event. The program promises that these decisions
  are reproducible, that its limits hold, and that its log is complete. The development states
  and proves these promises for definitions translated from the source, function by function.

  \<^bold>\<open>Theories and sources\<close> (paths below \<open>src/crates\<close>)

  \<^item> \<open>Prelude\<close>: results (\<open>Ok\<close>, \<open>Err\<close>, \<open>?\<close> as \<open>try_ok\<close>), panics as values, integers of Rust as
    words, decimal text, counting lemmas; the collections and hints the other theories use.
  \<^item> \<open>Float64\<close>, \<open>Float64_Order\<close>: the IEEE operations on \<open>f64\<close> the program uses, as exact rational
    arithmetic followed by rounding to nearest even, with overflow to infinity, signed zeros
    and NaN; monotonicity of rounding and of the conversions.
  \<^item> \<open>Std_Time\<close>: \<open>Duration\<close> and \<open>Instant\<close> in nanoseconds, with the panics of their sums.
  \<^item> \<open>Ops\<close> (\<open>fusecraft-core/src/op.rs\<close>, \<open>error.rs\<close>), \<open>Configuration\<close> and \<open>Config_Toml\<close>
    (\<open>config.rs\<close>): the data model, defaults, validation, and the reading and writing of the TOML
    tree as the serde attributes define it.
  \<^item> \<open>Sampler\<close> (\<open>sampler/\<close>), \<open>Content\<close> (\<open>content/\<close>), \<open>Namespace\<close> (\<open>namespace/\<close>): the pure
    decisions and the synthetic files.
  \<^item> \<open>Limiter\<close>, \<open>Bandwidth\<close> (\<open>limiter/\<close>), \<open>Events\<close> (\<open>events/\<close>), \<open>Metrics\<close> (\<open>metrics/\<close>): the
    stateful services.
  \<^item> \<open>Engine\<close>, \<open>Concurrent\<close> (\<open>engine/\<close>): the lifecycle \<open>run_op\<close>, for one thread as a function and
    for any number of threads as a step relation; \<open>Progress\<close> and \<open>Throttle\<close> prove of it that
    operations end and that the token buckets hold for all threads together.
  \<^item> \<open>Fuser\<close>, \<open>Session\<close> (\<open>fusecraft-fuser/src\<close>): the request handlers and whole sessions.
  \<^item> \<open>Cli\<close> (\<open>fusecraft-cli/src\<close>, \<open>fusecraft-fuser/src/mount.rs\<close>): the commands and how \<open>mount\<close>
    puts the parts together.
  \<^item> \<open>Messages\<close>: the texts of the errors of the core (\<open>error.rs\<close>, \<open>config.rs\<close>).
  \<^item> \<open>Conformance_Config\<close>, \<open>Conformance_Files\<close>, \<open>Conformance_Limits\<close>, \<open>Conformance_Services\<close>,
    \<open>Conformance_Engine\<close>, \<open>Conformance_Cli\<close>: the unit tests of the repository as definitions
    \<open>test_<name>\<close>, and lemmas \<open>..._pass\<close> that the model passes them; they tie the definitions to
    the behaviour the authors wrote down. \<open>Float64_Eval\<close> evaluates the doubles they use.
  \<^item> \<open>Conformance_Toml\<close>, \<open>Example_Configs\<close>: the tests of the configuration in \<open>fusecraft-core/tests\<close> and
    the documents of \<open>examples/\<close>, all of which are read and validate, with what their heads promise
    of a run. \<open>Scenarios\<close>: whole sessions under two of them.
  \<^item> This theory: a whole run of the program, from the configuration file to the event log.

  \<^bold>\<open>State\<close>. The engine is the record \<open>SimEngine\<close>: seed, a map from operations to their resources
  (policy, limiter with its protected state, two optional token buckets), the sequence counter,
  the sink and the histograms. A Mutex is the state it protects, a critical section one function
  on it; clock readings, the reading of the wall clock and the results of the system are
  arguments. \<open>run_op\<close> is cut at the limiter (\<open>op_enter\<close>, \<open>op_reject\<close>, \<open>op_admitted\<close> with
  \<open>op_sample\<close> and \<open>op_finish\<close>, \<open>drop_guard\<close>); in \<open>Concurrent\<close> each access to shared state is a
  step of its own, in any interleaving. Commands give their result and the list of their visible
  effects.

  \<^bold>\<open>Interfaces\<close>. \<open>content_model\<close> and \<open>namespace_model\<close> are the contracts of the two traits of the
  filesystem, \<open>admission\<close> is what the engine relies on in the limiter, \<open>event_log\<close> what it relies
  on in a sink. Each is a locale with the client's lemmas, interpreted on the translated
  definitions in the theory that provides them.

  \<^bold>\<open>What the lemmas show\<close>. Decisions: the lifecycle returns the closure's result, the injected
  errno or EAGAIN (\<open>run_op_finished\<close>), the decision depends on configuration and key only
  (\<open>op_sample_decides\<close>), and so whole sessions are reproducible and do not depend on the
  interleaving. Limits: \<open>lim_inv\<close> holds in every interleaving of the limiter, and
  \<open>conc_step_refines\<close> carries it to the engine; the bucket refines an integral token bucket,
  and \<open>throttled_by\<close> ties the buckets of the concurrent engine, request by request, to a list of
  reservations made one after the other, whose waits are the delays in the log.
  Log: \<open>log_inv\<close> accounts for every sequence number, \<open>metrics_inv\<close> for every histogram sample.
  Liveness: \<open>total_rank\<close>, at most seven per thread, grows only with a new request, and while an
  operation is in progress some thread has a step that lowers it (\<open>engine_progress\<close>). Files: reads agree with one byte function,
  paging lists each entry once, names and inodes are in bijection. Errors: validation accepts
  exactly the configurations that satisfy its rules; panics release their slots but leave no
  event; two places where a valid input panics or leaks are exhibited.

  \<^bold>\<open>Bounds and fuel\<close>. Integers are words of their Rust width (\<open>usize\<close> is 64 bits) and wrap as in
  release builds; where the source casts, saturates or checks, the model does. Errno values are
  unbounded, which no operation notices. Durations and monotonic readings are natural numbers of nanoseconds, wall-clock readings integers; a
  \<open>Duration\<close> has the maximum of the library. Every function terminates: loops over lists and
  ranges are structural or carry a measure, and the only fuel is the number of pages in the
  paging theorem, for which the number of entries plus one is proved to be enough. Blocking is
  explicit: a thread that waits in the limiter is in the state \<open>Waits\<close> or \<open>Queueing\<close>.

  \<^bold>\<open>Parameters\<close>: the random generator and the mathematical library, the HDR histogram, the text of
  JSON and TOML, the primitive conversions of serde, the \<open>fuser\<close> session and its reply buffers,
  the file system of the host, the process identity and the clocks. Theorems name what they
  assume of them, and the witnesses instantiate them with concrete functions.

  \<^bold>\<open>Not modelled\<close>: the log lines of \<open>tracing\<close>, argument parsing by \<open>clap\<close>, the \<open>Debug\<close>
  implementations, the sequence form of structures in serde, the tests that need a mount
  (\<open>fusecraft-fuser/tests/\<close>), the unit tests about the statistics of the generator, those that only
  repeat a pure call or call through a trait object, and
  the memory model below sequentially consistent steps: the only unsynchronised access, the
  relaxed counter of sequence numbers, is a single atomic increment. A HashMap of policies is an
  association list without duplicate keys; where the source iterates over it, the order of the
  list stands for the arbitrary order.
\<close>

section \<open>The whole program\<close>

text \<open>The kernel's requests during a mount, served one after the other.\<close>

definition serve_requests ::
    "('r, 's, 'h) engine_env \<Rightarrow> 'b add_entry \<Rightarrow> 'b \<Rightarrow> (request \<times> readings) list \<Rightarrow> ('s, 'h) FaultFs
     \<Rightarrow> ('s, 'h) SimEngine" where
  "serve_requests env add b reqs fs = fs_engine (snd (serve_all env add b fs reqs))"

lemma foldl_cli_emit:
  "foldl (cli_emit to_json (\<lambda>_ _. None)) (Jsonl j) evs = Jsonl (foldl (jsonl_emit to_json None) j evs)"
  by (induction evs arbitrary: j) (simp_all add: cli_emit_def)

text \<open>C8. End to end: a mount whose configuration names an event log and limits no bandwidth, on a
  system where the log can be created and flushed, replies to every request; when the command
  ends, the log file holds exactly one line per request, in the order of the requests, numbered
  from zero, with the operation and the errno of the reply, and nothing of its previous content;
  the summary printed is that of the recorded histograms.\<close>

theorem mounted_session_is_logged:
  assumes "load_config wenv cp = Ok config" "unlimited_config config"
    and "jsonl_path (cfg_metrics config) = Some p" "flush_result wenv = Ok ()"
    and "env_emit env = cli_emit to_json (\<lambda>_ _. None)" "\<And>e. to_json (event_fields e) \<noteq> None"
    and "histogram_constructs (env_hdr env)"
    and "mount_run wenv (serve_requests env add b reqs) cp mp = ((Ok (), effs), final)"
  shows "\<exists>evs reps j. final = Some (Jsonl j) \<and> jsonl_file j = concat (map (\<lambda>e. the (to_json (event_fields e)) @ [CHR 0x0A]) evs)
    \<and> fst (serve_all env add b (fst (assemble wenv config (Jsonl (JsonlEventSink_create [])))) reqs) = map Replies reps
    \<and> length evs = length reqs
    \<and> map ev_op evs = map (\<lambda>(req, t). request_op req) reqs
    \<and> map ev_seq evs = map of_nat [0..<length reqs]
    \<and> map ev_errno evs = map reply_errno reps
    \<and> Summary_printed (print_summary (env_hist wenv) (eng_metrics (serve_requests env add b reqs
        (fst (assemble wenv config (Jsonl (JsonlEventSink_create [])))))))
      \<in> set effs"
proof (cases rule: mount_run_cases [of wenv mp "serve_requests env add b reqs" cp])
  case (session config' sink opened fs said r effs' final')
  have c: "config' = config" using session(2) assms(1) by simp
  have v: "valid_config config" using assms(1) by (auto simp: load_config_iff)
  have sink: "sink = Jsonl (JsonlEventSink_create [])"
    using session(3) assms(3) by (auto simp: open_sink_def c JsonlEventSink_create_def split: sum.splits)
  obtain ns content where fs: "fs = FaultFs_new (SimEngine_new config sink (env_instant wenv)) ns content"
    using session(4) by (auto simp: assemble_def Let_def c split: prod.splits)
  obtain outs fs' where run: "serve_all env add b fs reqs = (outs, fs')" by fastforce
  note idle = serve_all_idle [OF v engine_ok_new idle_new assms(7) run [unfolded fs]]
  from serve_all_unlimited [OF v engine_ok_new idle_new assms(7) assms(2) run [unfolded fs]]
  obtain reps where reps: "outs = map Replies reps" by blast
  from serve_all_logs [OF engine_ok_new run [unfolded fs reps]] obtain evs where
    "eng_sink (fs_engine fs') = foldl (env_emit env) sink evs" and evs: "map ev_op evs = map (\<lambda>(req, t). request_op req) reqs"
    "map ev_seq evs = map of_nat [0..<length reqs]" "map ev_errno evs = map reply_errno reps"
    by (auto simp: FaultFs_new_def SimEngine_new_def)
  then have log: "eng_sink (fs_engine fs') = Jsonl (foldl (jsonl_emit to_json None) (JsonlEventSink_create []) evs)"
    by (simp add: sink assms(5) foldl_cli_emit)
  have served: "serve_requests env add b reqs fs = fs_engine fs'" by (simp add: serve_requests_def run)
  have "map (jsonl_line to_json) evs = map (\<lambda>e. the (to_json (event_fields e)) @ [CHR 0x0A]) evs"
    using assms(6) by (auto simp: jsonl_line_def split: option.split)
  then have "jsonl_file (jsonl_flush (foldl (jsonl_emit to_json None) (JsonlEventSink_create []) evs))
      = concat (map (\<lambda>e. the (to_json (event_fields e)) @ [CHR 0x0A]) evs)"
    by (simp only: jsonl_log_text jsonl_text_def)
  moreover have "final' = Jsonl (jsonl_flush (foldl (jsonl_emit to_json None) (JsonlEventSink_create []) evs))
      \<and> Summary_printed (print_summary (env_hist wenv) (eng_metrics (fs_engine fs'))) \<in> set effs'"
    by (cases rule: run_session_cases [of wenv fs mp config "serve_requests env add b reqs"])
      (use session(5,6) assms(3,4,8) in \<open>auto simp: c served log flush_sink_def\<close>)
  moreover have "final = Some final'" "set effs' \<subseteq> set effs" using session(6) assms(8) by auto
  moreover have "length evs = length reqs" using arg_cong [OF evs(1), of length] by simp
  moreover have a: "fst (assemble wenv config (Jsonl (JsonlEventSink_create []))) = fs"
    using session(4) by (simp add: c sink)
  moreover have "fst (serve_all env add b fs reqs) = map Replies reps" by (simp add: run reps)
  ultimately show ?thesis
    unfolding a served using evs
    by (intro exI [of _ evs] exI [of _ reps]
        exI [of _ "jsonl_flush (foldl (jsonl_emit to_json None) (JsonlEventSink_create []) evs)"]) auto
qed (use assms in auto)


text \<open>A run of the whole program: the configuration, the log and the mount of the concrete world.\<close>

definition demo_run_env :: "(u64, cli_sink, u64 list) engine_env" where
  "demo_run_env = \<lparr>env_rng = lcg_rng, env_libm = flat_libm,
     env_emit = cli_emit (\<lambda>fs. Some (concat (map fst fs))) (\<lambda>_ _. None), env_hdr = list_hdr\<rparr>"

lemma demo_run_succeeds:
  "fst (fst (mount_run demo_world serve ''logged'' ''mnt'')) = Ok ()"
proof (cases rule: mount_run_cases [of demo_world "''mnt''" serve "''logged''"])
  case (session config sink opened fs said r effs final)
  show ?thesis
    by (cases rule: run_session_cases [of demo_world fs "''mnt''" config serve])
      (use session(5,6) in \<open>auto simp: demo_world_def spawn_mount_def\<close>)
qed (use logged_loads in \<open>auto simp: demo_world_def\<close>)

theorem mounted_session_is_logged_witness:
  "\<exists>effs final evs. mount_run demo_world (serve_requests demo_run_env (bounded_reply 1) [] demo_requests) ''logged'' ''mnt''
       = ((Ok (), effs), final)
     \<and> map ev_op evs = [Lookup, Open, Read, FsOp.Write, Release]
     \<and> (\<exists>j. final = Some (Jsonl j) \<and> jsonl_file j = concat (map (\<lambda>e. concat (map fst (event_fields e)) @ [CHR 0x0A]) evs))"
proof -
  obtain effs final where
    run: "mount_run demo_world (serve_requests demo_run_env (bounded_reply 1) [] demo_requests) ''logged'' ''mnt''
      = ((Ok (), effs), final)"
    using demo_run_succeeds [of "serve_requests demo_run_env (bounded_reply 1) [] demo_requests"]
    by (metis prod.collapse)
  have u: "unlimited_config demo_toml_config" "jsonl_path (cfg_metrics demo_toml_config) = Some ''log.jsonl''"
    "flush_result demo_world = Ok ()"
    "env_emit demo_run_env = cli_emit (\<lambda>fs. Some (concat (map fst fs))) (\<lambda>_ _. None)"
    "histogram_constructs (env_hdr demo_run_env)"
    using demo_constructs
    by (simp_all add: demo_toml_config_def unlimited_config_def Config_default_def demo_world_def demo_run_env_def
        demo_env_def)
  have "\<exists>evs j. final = Some (Jsonl j) \<and> jsonl_file j = concat (map (\<lambda>e. concat (map fst (event_fields e)) @ [CHR 0x0A]) evs)
      \<and> map ev_op evs = map (\<lambda>(req, t). request_op req) demo_requests"
    using mounted_session_is_logged [OF logged_loads u(1-4) _ u(5) run] unfolding option.sel by blast
  moreover have "map (\<lambda>(req, t). request_op req) demo_requests = [Lookup, Open, Read, FsOp.Write, Release]"
    by (simp add: demo_requests_def)
  ultimately show ?thesis using run by metis
qed


lemma concurrent_mount_effects:
  assumes "load_config wenv cp = Ok config" "jsonl_path (cfg_metrics config) = Some p" "flush_result wenv = Ok ()"
    and "env_emit env = cli_emit to_json (\<lambda>_ _. None)"
    and "conc_reachable env config (Jsonl (JsonlEventSink_create [])) w"
    and "mount_run wenv (\<lambda>_. c_engine w) cp mp = ((Ok (), effs), final)"
  shows "\<exists>j. final = Some (Jsonl j) \<and> jsonl_file j = concat (map (jsonl_line to_json) (c_log w))
    \<and> Summary_printed (print_summary (env_hist wenv) (eng_metrics (c_engine w))) \<in> set effs"
proof (cases rule: mount_run_cases [of wenv mp "\<lambda>_. c_engine w" cp])
  case (session config' sink opened fs said r effs' final')
  have c: "config' = config" using session(2) assms(1) by simp
  have "eng_sink (c_engine w) = foldl (env_emit env) (Jsonl (JsonlEventSink_create [])) (c_log w)"
    using conc_reachable_log_inv [OF assms(5)] unfolding log_inv_def by blast
  then have log: "eng_sink (c_engine w) = Jsonl (foldl (jsonl_emit to_json None) (JsonlEventSink_create []) (c_log w))"
    by (simp add: assms(4) foldl_cli_emit)
  have "final' = Jsonl (jsonl_flush (foldl (jsonl_emit to_json None) (JsonlEventSink_create []) (c_log w)))
      \<and> Summary_printed (print_summary (env_hist wenv) (eng_metrics (c_engine w))) \<in> set effs'"
    by (cases rule: run_session_cases [of wenv fs mp config "\<lambda>_. c_engine w"])
      (use session(5,6) assms(2,3,6) in \<open>auto simp: c log flush_sink_def\<close>)
  moreover have "final = Some final'" "set effs' \<subseteq> set effs" using session(6) assms(6) by auto
  ultimately show ?thesis using jsonl_log_text [of to_json "[]" "c_log w"] by (auto simp: jsonl_text_def)
qed (use assms in auto)

text \<open>C9. End to end under concurrency: when the kernel's requests are served by any number of
  threads in any interleaving, and none is in progress when the command ends, the flushed log
  file holds exactly the logged events in their order, and the sequence numbers in it together
  with those of the operations that panicked are zero to the number of requests, each once.\<close>

theorem concurrent_mount_log_complete:
  assumes "load_config wenv cp = Ok config" "jsonl_path (cfg_metrics config) = Some p" "flush_result wenv = Ok ()"
    and "env_emit env = cli_emit to_json (\<lambda>_ _. None)"
    and "conc_reachable env config (Jsonl (JsonlEventSink_create [])) w" "\<forall>t\<in>set (c_threads w). \<not> in_flight t"
    and "mount_run wenv (\<lambda>_. c_engine w) cp mp = ((Ok (), effs), final)"
  shows "\<exists>j. final = Some (Jsonl j) \<and> jsonl_file j = concat (map (jsonl_line to_json) (c_log w))
    \<and> mset (map ev_seq (c_log w)) + mset (c_lost w) = mset (map of_nat [0..<length (c_requests w)])
    \<and> Summary_printed (print_summary (env_hist wenv) (eng_metrics (c_engine w))) \<in> set effs"
  using concurrent_mount_effects [OF assms(1-5,7)] conc_reachable_log_inv [OF assms(5)]
  unfolding log_inv_def idle_open_seqs [OF assms(6)] by simp

text \<open>A mount during which one thread serves one operation.\<close>

definition logged_engine :: "(cli_sink, u64 list) SimEngine" where
  "logged_engine = SimEngine_new demo_toml_config (Jsonl (JsonlEventSink_create [])) (\<lambda>_ _. 0)"

lemma logged_run:
  obtains r eng' y where "run_op demo_run_env logged_engine (OpContext_metadata Lookup 1) demo_body 0 demo_times
    = (Finished r, eng', y)"
proof -
  have of_config: "engine_of demo_toml_config logged_engine" unfolding logged_engine_def by (rule engine_of_new)
  have adm: "admitted logged_engine ctx" for ctx
    unfolding logged_engine_def
    by (rule new_engine_admits)
      (simp add: policy_for_def demo_toml_config_def Config_default_def OpPolicy_default_def default_concurrency_cap_def)
  have hist: "histogram_constructs (env_hdr demo_run_env)"
    using demo_constructs by (simp add: demo_run_env_def demo_env_def)
  obtain out eng' y where run: "run_op demo_run_env logged_engine (OpContext_metadata Lookup 1) demo_body 0 demo_times
      = (out, eng', y)" by (metis prod.exhaust)
  have "out \<noteq> Waits" using run_op_waits_iff [OF of_config adm] run by (metis fst_conv)
  moreover have "out \<noteq> Op_panics"
  proof
    assume "out = Op_panics"
    with run have p: "run_op demo_run_env logged_engine (OpContext_metadata Lookup 1) demo_body 0 demo_times
        = (Op_panics, eng', y)" by simp
    show False
      using run_op_panicked [OF of_config hist p]
      by (simp add: demo_body_def OpContext_metadata_def is_data_ctx_def throttled_def)
  qed
  ultimately show thesis using run that by (cases out) auto
qed

definition logged_json :: "(string \<times> json) list \<Rightarrow> string option" where
  "logged_json = (\<lambda>fs. Some (concat (map fst fs)))"

lemma logged_mount:
  obtains ev effs final and w :: "(cli_sink, u64 list, nat, u64) conc" where
    "conc_reachable demo_run_env demo_toml_config (Jsonl (JsonlEventSink_create [])) w"
    "\<forall>t\<in>set (c_threads w). \<not> in_flight t" "c_log w = [ev]" "env_emit demo_run_env = cli_emit logged_json (\<lambda>_ _. None)"
    "mount_run demo_world (\<lambda>_. c_engine w) ''logged'' ''mnt'' = ((Ok (), effs), final)"
proof (rule logged_run)
  fix r eng' y
  assume op: "run_op demo_run_env logged_engine (OpContext_metadata Lookup 1) demo_body 0 demo_times
    = (Finished r, eng', y)"
  have of_config: "engine_of demo_toml_config logged_engine" unfolding logged_engine_def by (rule engine_of_new)
  obtain ev where path: "(conc_step demo_run_env)\<^sup>*\<^sup>* (solo logged_engine Resting 0 [] [] [])
      (solo eng' (Ended (Returns r)) y [OpContext_metadata Lookup 1] [ev] [])"
    using run_op_path [OF of_config op, of "[]" "[]" "[]"] by auto
  define w where "w = solo eng' (Ended (Returns r)) y [OpContext_metadata Lookup 1] [ev] []"
  have "solo logged_engine Resting 0 [] [] [] = conc_init demo_toml_config (Jsonl (JsonlEventSink_create [])) (\<lambda>_ _. 0) 1 0"
    by (simp add: conc_init_def solo_def logged_engine_def)
  then have reach: "conc_reachable demo_run_env demo_toml_config (Jsonl (JsonlEventSink_create [])) w"
    unfolding w_def by (metis conc_reachable_path [OF path] conc_reachable.init)
  obtain effs final where run: "mount_run demo_world (\<lambda>_. c_engine w) ''logged'' ''mnt'' = ((Ok (), effs), final)"
    using demo_run_succeeds [of "\<lambda>_. c_engine w"] by (metis prod.collapse)
  have "env_emit demo_run_env = cli_emit logged_json (\<lambda>_ _. None)"
    by (simp add: demo_run_env_def logged_json_def)
  moreover have "\<forall>t\<in>set (c_threads w). \<not> in_flight t" "c_log w = [ev]"
    by (simp_all add: w_def solo_def)
  ultimately show thesis using that reach run by blast
qed

lemma logged_world:
  "jsonl_path (cfg_metrics demo_toml_config) = Some ''log.jsonl''" "flush_result demo_world = Ok ()"
  by (simp_all add: demo_toml_config_def demo_world_def)

theorem concurrent_mount_log_complete_witness:
  "\<exists>(w :: (cli_sink, u64 list, nat, u64) conc) effs j ev.
     mount_run demo_world (\<lambda>_. c_engine w) ''logged'' ''mnt'' = ((Ok (), effs), Some (Jsonl j))
     \<and> c_log w = [ev] \<and> jsonl_file j = jsonl_line logged_json ev"
proof (rule logged_mount)
  fix ev effs final and w :: "(cli_sink, u64 list, nat, u64) conc"
  assume w: "conc_reachable demo_run_env demo_toml_config (Jsonl (JsonlEventSink_create [])) w"
    "\<forall>t\<in>set (c_threads w). \<not> in_flight t" "c_log w = [ev]" "env_emit demo_run_env = cli_emit logged_json (\<lambda>_ _. None)"
    "mount_run demo_world (\<lambda>_. c_engine w) ''logged'' ''mnt'' = ((Ok (), effs), final)"
  show ?thesis
    using concurrent_mount_log_complete [OF logged_loads logged_world w(4,1,2,5)] w(3,5) by auto
qed

text \<open>C10. The summary a mount prints tallies the log file it leaves: when the requests are served by
  any number of threads in any interleaving and none is in progress at the end, the lines of the
  summary are, in the order of \<open>FsOp::ALL\<close>, one per operation that occurs in the log file, and
  the count and the errors printed for it are the numbers of its events and of its events with
  an error in that file.\<close>

theorem printed_summary_tallies_log:
  assumes "load_config wenv cp = Ok config" "jsonl_path (cfg_metrics config) = Some p" "flush_result wenv = Ok ()"
    and "env_emit env = cli_emit to_json (\<lambda>_ _. None)"
    and "conc_reachable env config (Jsonl (JsonlEventSink_create [])) w" "\<forall>t\<in>set (c_threads w). \<not> in_flight t"
    and "mount_run wenv (\<lambda>_. c_engine w) cp mp = ((Ok (), effs), final)"
    and "env_hist wenv = env_hdr env" "histogram_constructs (env_hdr env)" "length (c_log w) < 2 ^ 64"
  shows "\<exists>j rows. final = Some (Jsonl j) \<and> jsonl_file j = concat (map (jsonl_line to_json) (c_log w))
    \<and> Summary_printed (map summary_line rows) \<in> set effs
    \<and> map (\<lambda>s. (sum_op s, unat (sum_count s), unat (sum_errors s))) rows
      = map (\<lambda>f. (f, events_of f (c_log w), errors_of f (c_log w)))
          (filter (\<lambda>f. events_of f (c_log w) \<noteq> 0) FsOp_ALL)"
  using concurrent_mount_effects [OF assms(1-5,7)]
    summary_of_log [OF assms(5,9) idle_pending_samples [OF assms(6)] assms(10)]
  unfolding print_summary_def assms(8) by blast

theorem printed_summary_tallies_log_witness:
  "\<exists>(w :: (cli_sink, u64 list, nat, u64) conc) effs final ev s.
     mount_run demo_world (\<lambda>_. c_engine w) ''logged'' ''mnt'' = ((Ok (), effs), final)
     \<and> c_log w = [ev] \<and> Summary_printed [summary_line s] \<in> set effs
     \<and> sum_op s = ev_op ev \<and> unat (sum_count s) = 1"
proof (rule logged_mount)
  fix ev effs final and w :: "(cli_sink, u64 list, nat, u64) conc"
  assume w: "conc_reachable demo_run_env demo_toml_config (Jsonl (JsonlEventSink_create [])) w"
    "\<forall>t\<in>set (c_threads w). \<not> in_flight t" "c_log w = [ev]" "env_emit demo_run_env = cli_emit logged_json (\<lambda>_ _. None)"
    "mount_run demo_world (\<lambda>_. c_engine w) ''logged'' ''mnt'' = ((Ok (), effs), final)"
  have h: "env_hist demo_world = env_hdr demo_run_env" "histogram_constructs (env_hdr demo_run_env)"
    using demo_constructs by (simp_all add: demo_world_def demo_run_env_def demo_env_def)
  obtain rows where rows: "Summary_printed (map summary_line rows) \<in> set effs"
    "map (\<lambda>s. (sum_op s, unat (sum_count s), unat (sum_errors s))) rows
      = map (\<lambda>f. (f, events_of f [ev], errors_of f [ev])) (filter (\<lambda>f. events_of f [ev] \<noteq> 0) FsOp_ALL)"
    using printed_summary_tallies_log [OF logged_loads logged_world w(4,1,2,5) h] by (auto simp: w(3))
  have "filter (\<lambda>f. events_of f [ev] \<noteq> 0) FsOp_ALL = [ev_op ev]"
    by (cases "ev_op ev") (simp_all add: events_of_def FsOp_ALL_def)
  then obtain s where "rows = [s]" "sum_op s = ev_op ev" "unat (sum_count s) = events_of (ev_op ev) [ev]"
    using rows(2) by auto
  then show ?thesis
    using rows(1) w(3,5) by (intro exI [of _ w] exI [of _ effs] exI [of _ final] exI [of _ ev] exI [of _ s])
      (simp add: events_of_def)
qed

end
